(* ===== verification/RateLimit.thy ===== *)
theory RateLimit
  imports Prelude
begin

text \<open>
  \<open>rate_limit.rs\<close>: one token's hourly call budget with a reserve for human operators.
  Every operation runs under the window's mutex, so it is one atomic step on the state
  \<open>rate_limit_budget\<close>; concurrent callers are an interleaving of such steps. Instants are
  nanoseconds of the monotonic clock; an operation that reads the clock takes the readings
  as arguments (\<open>t1\<close> for \<open>elapsed\<close>, \<open>t2\<close> for the restarted window).
\<close>

section \<open>Data\<close>

definition WINDOW :: nat where
  "WINDOW = 3600 * 1000000000"

datatype call_priority = Standard | Reserved

record budget_status =
  st_hourly_limit :: u32
  st_human_reserve :: u32
  st_used :: u32
  st_remaining_standard :: u32
  st_remaining_reserved :: u32

datatype budget_exhausted = Exhausted

record window =
  started_at :: nat
  used :: u32

record rate_limit_budget =
  hourly_limit :: u32
  human_reserve :: u32
  budget_window :: window

section \<open>Operations\<close>

definition new_budget :: "nat \<Rightarrow> u32 \<Rightarrow> u32 \<Rightarrow> rate_limit_budget" where
  "new_budget now limit reserve =
     \<lparr>hourly_limit = limit, human_reserve = min reserve limit,
      budget_window = \<lparr>started_at = now, used = 0\<rparr>\<rparr>"

definition mist_default :: "nat \<Rightarrow> rate_limit_budget" where
  "mist_default now = new_budget now 5000 250"

definition standard_cap :: "rate_limit_budget \<Rightarrow> u32" where
  "standard_cap b = sat_sub (hourly_limit b) (human_reserve b)"

definition reset_if_elapsed :: "nat \<Rightarrow> nat \<Rightarrow> window \<Rightarrow> window" where
  "reset_if_elapsed t1 t2 w =
     (if t1 - started_at w \<ge> WINDOW then \<lparr>started_at = t2, used = 0\<rparr> else w)"

definition status_locked :: "rate_limit_budget \<Rightarrow> window \<Rightarrow> budget_status" where
  "status_locked b w =
     \<lparr>st_hourly_limit = hourly_limit b, st_human_reserve = human_reserve b, st_used = used w,
      st_remaining_standard = sat_sub (standard_cap b) (used w),
      st_remaining_reserved = sat_sub (hourly_limit b) (used w)\<rparr>"

definition budget_status_of :: "nat \<Rightarrow> nat \<Rightarrow> rate_limit_budget
    \<Rightarrow> rate_limit_budget \<times> budget_status" where
  "budget_status_of t1 t2 b =
     (let w = reset_if_elapsed t1 t2 (budget_window b) in
      (b\<lparr>budget_window := w\<rparr>, status_locked b w))"

definition priority_cap :: "rate_limit_budget \<Rightarrow> call_priority \<Rightarrow> u32" where
  "priority_cap b p = (case p of Standard \<Rightarrow> standard_cap b | Reserved \<Rightarrow> hourly_limit b)"

definition try_acquire :: "nat \<Rightarrow> nat \<Rightarrow> call_priority \<Rightarrow> rate_limit_budget
    \<Rightarrow> rate_limit_budget \<times> (budget_exhausted + budget_status)" where
  "try_acquire t1 t2 p b =
     (let w = reset_if_elapsed t1 t2 (budget_window b) in
      if used w \<ge> priority_cap b p then (b\<lparr>budget_window := w\<rparr>, Inl Exhausted)
      else let w' = w\<lparr>used := used w + 1\<rparr> in
           (b\<lparr>budget_window := w'\<rparr>, Inr (status_locked b w')))"

section \<open>The contract of a call budget\<close>

text \<open>
  What a client of the budget relies on: within one window a call is granted exactly when
  fewer calls than the cap of its priority have been counted, a grant counts one call and
  a denial none.
\<close>

locale call_budget =
  fixes acquire :: "'t \<Rightarrow> 'p \<Rightarrow> 'b \<Rightarrow> 'b \<times> bool"
    and counted :: "'b \<Rightarrow> nat"
    and cap :: "'b \<Rightarrow> 'p \<Rightarrow> nat"
    and open_at :: "'t \<Rightarrow> 'b \<Rightarrow> bool"
  assumes granted_iff: "open_at t b \<Longrightarrow> snd (acquire t p b) \<longleftrightarrow> counted b < cap b p"
    and counted_acquire: "open_at t b \<Longrightarrow>
      counted (fst (acquire t p b)) = (if snd (acquire t p b) then Suc (counted b) else counted b)"
    and cap_acquire: "cap (fst (acquire t p b)) = cap b"
begin

fun run_open :: "('t \<times> 'p) list \<Rightarrow> 'b \<Rightarrow> bool" where
  "run_open [] b = True"
| "run_open ((t, p) # cs) b = (open_at t b \<and> run_open cs (fst (acquire t p b)))"

fun run_end :: "('t \<times> 'p) list \<Rightarrow> 'b \<Rightarrow> 'b" where
  "run_end [] b = b"
| "run_end ((t, p) # cs) b = run_end cs (fst (acquire t p b))"

fun grants :: "'p \<Rightarrow> ('t \<times> 'p) list \<Rightarrow> 'b \<Rightarrow> nat" where
  "grants q [] b = 0"
| "grants q ((t, p) # cs) b =
     (if q = p \<and> snd (acquire t p b) then 1 else 0) + grants q cs (fst (acquire t p b))"

lemma cap_run_end: "cap (run_end cs b) = cap b"
  by (induction cs b rule: run_end.induct) (simp_all add: cap_acquire)

text \<open>No priority is granted more calls than its cap leaves.\<close>

lemma grants_bounded: "run_open cs b \<Longrightarrow> grants q cs b \<le> cap b q - counted b"
proof (induction cs b rule: run_open.induct)
  case (2 t p cs b)
  let ?b = "fst (acquire t p b)"
  have "grants q cs ?b \<le> cap b q - counted ?b" using 2 by (simp add: cap_acquire)
  with 2 show ?case by (auto simp: counted_acquire granted_iff split: if_splits)
qed simp

text \<open>The count only grows, and calls of one priority never push it past that priority's cap.\<close>

lemma counted_mono: "run_open cs b \<Longrightarrow> counted b \<le> counted (run_end cs b)"
proof (induction cs b rule: run_open.induct)
  case (2 t p cs b)
  then show ?case by (auto simp: counted_acquire split: if_splits)
qed simp

lemma counted_below_cap:
  assumes "run_open cs b" "\<forall>(t, p) \<in> set cs. cap b p \<le> m" "counted b \<le> m"
  shows "counted (run_end cs b) \<le> m"
  using assms
proof (induction cs b rule: run_open.induct)
  case (2 t p cs b)
  then show ?case by (auto simp: cap_acquire counted_acquire granted_iff)
qed simp

end

section \<open>The budget meets the contract\<close>

definition acquire_call :: "nat \<times> nat \<Rightarrow> call_priority \<Rightarrow> rate_limit_budget
    \<Rightarrow> rate_limit_budget \<times> bool" where
  "acquire_call t p b = (let (b', r) = try_acquire (fst t) (snd t) p b in (b', is_ok r))"

definition window_open :: "nat \<times> nat \<Rightarrow> rate_limit_budget \<Rightarrow> bool" where
  "window_open t b \<longleftrightarrow> fst t - started_at (budget_window b) < WINDOW"

definition used_calls :: "rate_limit_budget \<Rightarrow> nat" where
  "used_calls b = unat (used (budget_window b))"

definition cap_calls :: "rate_limit_budget \<Rightarrow> call_priority \<Rightarrow> nat" where
  "cap_calls b p = unat (priority_cap b p)"

lemma standard_cap_update [simp]:
  "standard_cap (b\<lparr>budget_window := w\<rparr>) = standard_cap b"
  "priority_cap (b\<lparr>budget_window := w\<rparr>) = priority_cap b"
  by (simp_all add: standard_cap_def priority_cap_def fun_eq_iff split: call_priority.splits)

interpretation rb: call_budget acquire_call used_calls cap_calls window_open
proof unfold_locales
  fix t p b assume "window_open t b"
  then have w: "reset_if_elapsed (fst t) (snd t) (budget_window b) = budget_window b"
    by (simp add: window_open_def reset_if_elapsed_def)
  then show "snd (acquire_call t p b) \<longleftrightarrow> used_calls b < cap_calls b p"
    by (simp add: acquire_call_def try_acquire_def used_calls_def cap_calls_def
        word_less_nat_alt word_le_nat_alt not_le Let_def)
  show "used_calls (fst (acquire_call t p b)) =
      (if snd (acquire_call t p b) then Suc (used_calls b) else used_calls b)"
    using w by (simp add: acquire_call_def try_acquire_def used_calls_def Let_def not_le
        unat_Suc_word)
next
  fix t p b show "cap_calls (fst (acquire_call t p b)) = cap_calls b"
    by (auto simp: acquire_call_def try_acquire_def cap_calls_def Let_def fun_eq_iff)
qed

section \<open>Runs of calls\<close>

text \<open>
  A run is the order in which the mutex serves the callers: each call carries its clock
  readings and its priority. \<open>run_calls\<close> collects what each call is answered.
\<close>

type_synonym budget_call = "(nat \<times> nat) \<times> call_priority"

fun run_calls :: "budget_call list \<Rightarrow> rate_limit_budget
    \<Rightarrow> rate_limit_budget \<times> (budget_exhausted + budget_status) list" where
  "run_calls [] b = (b, [])"
| "run_calls ((t, p) # cs) b =
     (let (b', r) = try_acquire (fst t) (snd t) p b; (b'', rs) = run_calls cs b' in (b'', r # rs))"

definition within_window :: "nat \<Rightarrow> budget_call list \<Rightarrow> bool" where
  "within_window t0 cs \<longleftrightarrow> list_all (\<lambda>(t, p). fst t - t0 < WINDOW) cs"

definition granted_calls :: "call_priority \<Rightarrow> budget_call list
    \<Rightarrow> (budget_exhausted + budget_status) list \<Rightarrow> nat" where
  "granted_calls p cs rs = length (filter (\<lambda>(c, r). snd c = p \<and> is_ok r) (zip cs rs))"

lemma fst_snd_acquire_call:
  "fst (acquire_call t p b) = fst (try_acquire (fst t) (snd t) p b)"
  "snd (acquire_call t p b) = is_ok (snd (try_acquire (fst t) (snd t) p b))"
  by (simp_all add: acquire_call_def split_beta)

lemma run_calls_run_end: "fst (run_calls cs b) = rb.run_end cs b"
proof (induction cs arbitrary: b)
  case (Cons c cs)
  then show ?case by (cases c) (simp add: fst_snd_acquire_call split_beta)
qed simp

lemma run_calls_grants: "granted_calls q cs (snd (run_calls cs b)) = rb.grants q cs b"
proof (induction cs arbitrary: b)
  case (Cons c cs)
  then show ?case
    by (cases c) (auto simp: granted_calls_def fst_snd_acquire_call split_beta)
qed (simp add: granted_calls_def)

lemma started_at_acquire:
  "window_open t b \<Longrightarrow>
     started_at (budget_window (fst (acquire_call t p b))) = started_at (budget_window b)"
  by (simp add: acquire_call_def try_acquire_def reset_if_elapsed_def window_open_def Let_def)

lemma within_window_open:
  "within_window (started_at (budget_window b)) cs \<Longrightarrow> rb.run_open cs b"
proof (induction cs arbitrary: b)
  case (Cons c cs)
  obtain t p where c: "c = (t, p)" by fastforce
  with Cons.prems have op: "window_open t b" by (simp add: within_window_def window_open_def)
  have "within_window (started_at (budget_window (fst (acquire_call t p b)))) cs"
    using Cons.prems by (simp add: started_at_acquire [OF op] within_window_def)
  then have "rb.run_open cs (fst (acquire_call t p b))" by (rule Cons.IH)
  with op c show ?case by simp
qed simp

section \<open>Invariant of every reachable budget\<close>

definition budget_inv :: "rate_limit_budget \<Rightarrow> bool" where
  "budget_inv b \<longleftrightarrow> human_reserve b \<le> hourly_limit b \<and> used (budget_window b) \<le> hourly_limit b"

inductive budget_step :: "rate_limit_budget \<Rightarrow> rate_limit_budget \<Rightarrow> bool" where
  acquire_step: "budget_step b (fst (try_acquire t1 t2 p b))"
| status_step: "budget_step b (fst (budget_status_of t1 t2 b))"

inductive budget_reachable :: "rate_limit_budget \<Rightarrow> bool" where
  budget_start: "budget_reachable (new_budget now limit reserve)"
| budget_next: "budget_reachable b \<Longrightarrow> budget_step b b' \<Longrightarrow> budget_reachable b'"

inductive_cases budget_stepE: "budget_step b b'"

lemma budget_inv_new: "budget_inv (new_budget now limit reserve)"
  by (simp add: budget_inv_def new_budget_def)

lemma reset_keeps_bound: "used w \<le> m \<Longrightarrow> used (reset_if_elapsed t1 t2 w) \<le> m"
  by (simp add: reset_if_elapsed_def)

lemma priority_cap_le: "priority_cap b p \<le> hourly_limit b"
  by (cases p) (simp_all add: priority_cap_def standard_cap_def word_le_nat_alt)

lemma budget_inv_acquire:
  assumes "budget_inv b"
  shows "budget_inv (fst (try_acquire t1 t2 p b))"
proof -
  let ?w = "reset_if_elapsed t1 t2 (budget_window b)"
  have "used ?w \<le> hourly_limit b"
    using assms by (intro reset_keeps_bound) (simp add: budget_inv_def)
  moreover have "used ?w + 1 \<le> hourly_limit b" if "used ?w < priority_cap b p"
    using that priority_cap_le [of b p] unat_Suc_word [OF that] by unat_arith
  ultimately show ?thesis
    using assms by (auto simp: try_acquire_def budget_inv_def Let_def not_le)
qed

lemma budget_inv_step: "budget_step b b' \<Longrightarrow> budget_inv b \<Longrightarrow> budget_inv b'"
  by (auto elim!: budget_stepE simp: budget_inv_acquire)
    (simp add: budget_status_of_def budget_inv_def Let_def reset_keeps_bound)

lemma budget_reachable_inv: "budget_reachable b \<Longrightarrow> budget_inv b"
  by (induction rule: budget_reachable.induct) (auto intro: budget_inv_new budget_inv_step)

section \<open>Properties\<close>

lemma within_window_new:
  "within_window t0 cs \<Longrightarrow> rb.run_open cs (new_budget t0 limit reserve)"
  by (rule within_window_open) (simp add: new_budget_def)

lemma cap_calls_new:
  "cap_calls (new_budget t0 limit reserve) p =
     (case p of Standard \<Rightarrow> unat limit - min (unat reserve) (unat limit) | Reserved \<Rightarrow> unat limit)"
  by (cases p) (auto simp: cap_calls_def priority_cap_def standard_cap_def new_budget_def
      min_def word_le_nat_alt)

lemma used_calls_new: "used_calls (new_budget t0 limit reserve) = 0"
  by (simp add: used_calls_def new_budget_def)

lemma hourly_limit_run_end: "hourly_limit (rb.run_end cs b) = hourly_limit b"
  using rb.cap_run_end [of cs b] by (auto simp: cap_calls_def priority_cap_def fun_eq_iff
      split: call_priority.splits intro: unsigned_word_eqI)

text \<open>Standard calls never spend the human reserve: after any number of Standard calls in
  one window of a fresh budget, a status taken at any time reports at least the (clamped)
  reserve as still available to Reserved callers.\<close>

theorem human_reserve_protected:
  assumes "within_window t0 cs" "\<forall>c \<in> set cs. snd c = Standard"
  shows "min (unat reserve) (unat limit) \<le> unat (st_remaining_reserved (snd
    (budget_status_of t1 t2 (fst (run_calls cs (new_budget t0 limit reserve))))))"
proof -
  let ?b = "rb.run_end cs (new_budget t0 limit reserve)"
  let ?m = "unat limit - min (unat reserve) (unat limit)"
  have "used_calls ?b \<le> ?m"
    using assms by (intro rb.counted_below_cap [OF within_window_new])
      (auto simp: cap_calls_new used_calls_new)
  then have "unat (used (reset_if_elapsed t1 t2 (budget_window ?b))) \<le> ?m"
    by (simp add: reset_if_elapsed_def used_calls_def)
  moreover have "hourly_limit ?b = limit" by (simp add: hourly_limit_run_end new_budget_def)
  ultimately show ?thesis
    by (simp add: run_calls_run_end budget_status_of_def status_locked_def Let_def)
qed

theorem human_reserve_protected_witness:
  "min (unat (3 :: u32)) (unat (10 :: u32)) \<le> unat (st_remaining_reserved (snd
    (budget_status_of 5 5 (fst (run_calls [((1, 1), Standard), ((2, 2), Standard)]
      (new_budget 0 10 3))))))"
  by (rule human_reserve_protected) (simp_all add: within_window_def WINDOW_def)

text \<open>In one window, no more calls of a priority are granted than its cap: at most the
  hourly limit less the clamped reserve for Standard, at most the hourly limit for Reserved,
  in whatever order the callers are served.\<close>

theorem grants_within_cap:
  assumes "within_window t0 cs"
  shows "granted_calls p cs (snd (run_calls cs (new_budget t0 limit reserve)))
    \<le> (case p of Standard \<Rightarrow> unat limit - min (unat reserve) (unat limit) | Reserved \<Rightarrow> unat limit)"
  using rb.grants_bounded [OF within_window_new [OF assms], of p limit reserve]
  by (simp add: run_calls_grants cap_calls_new used_calls_new)

theorem grants_within_cap_witness:
  "granted_calls Standard [((1, 1), Standard), ((2, 2), Reserved)]
     (snd (run_calls [((1, 1), Standard), ((2, 2), Reserved)] (new_budget 0 2 1)))
   \<le> (case Standard of Standard \<Rightarrow> unat (2 :: u32) - min (unat (1 :: u32)) (unat (2 :: u32))
       | Reserved \<Rightarrow> unat (2 :: u32))"
  by (rule grants_within_cap) (simp add: within_window_def WINDOW_def)

text \<open>Every budget reachable from a construction by any interleaving of status reads and
  acquisitions at any clock readings keeps the reserve within the limit and the count within
  the limit, and the increment of the counter never wraps: an acquisition that is granted
  reports exactly one more call than the window held.\<close>

theorem budget_invariant:
  assumes "budget_reachable b"
  shows "human_reserve b \<le> hourly_limit b \<and> used (budget_window b) \<le> hourly_limit b \<and>
    (\<forall>t1 t2 p b' st. try_acquire t1 t2 p b = (b', Inr st) \<longrightarrow>
       unat (st_used st) = Suc (unat (used (reset_if_elapsed t1 t2 (budget_window b)))))"
proof -
  have "budget_inv b" using assms by (rule budget_reachable_inv)
  moreover have "unat (st_used st) = Suc (unat (used (reset_if_elapsed t1 t2 (budget_window b))))"
    if "try_acquire t1 t2 p b = (b', Inr st)" for t1 t2 p b' st
    using that by (auto simp: try_acquire_def status_locked_def Let_def not_le unat_Suc_word
        split: if_splits)
  ultimately show ?thesis by (auto simp: budget_inv_def)
qed

theorem budget_invariant_witness:
  "let b = fst (try_acquire 1 1 Standard (new_budget 0 2 1)) in
   human_reserve b \<le> hourly_limit b \<and> used (budget_window b) \<le> hourly_limit b \<and>
    (\<forall>t1 t2 p b' st. try_acquire t1 t2 p b = (b', Inr st) \<longrightarrow>
       unat (st_used st) = Suc (unat (used (reset_if_elapsed t1 t2 (budget_window b)))))"
  unfolding Let_def
  by (rule budget_invariant) (rule budget_next [OF budget_start acquire_step])

end
