(* ===== verification/Rust_Strings.thy ===== *)
theory Rust_Strings
  imports Prelude
begin

text \<open>
  The operations of Rust's \<open>str\<close> and \<open>u8\<close> that the sources call, over UTF-8 byte
  strings: character classes, \<open>contains\<close>, \<open>split\<close>, \<open>split_once\<close>, \<open>strip_prefix\<close>,
  \<open>replace\<close>, \<open>join\<close>, decimal formatting and \<open>parse::<u64>\<close>.
\<close>

section \<open>Character classes\<close>

definition byte_of :: "char \<Rightarrow> nat" where
  "byte_of c = of_char c"

definition is_ascii_digit :: "char \<Rightarrow> bool" where
  "is_ascii_digit c \<longleftrightarrow> 48 \<le> byte_of c \<and> byte_of c \<le> 57"

definition is_ascii_lowercase :: "char \<Rightarrow> bool" where
  "is_ascii_lowercase c \<longleftrightarrow> 97 \<le> byte_of c \<and> byte_of c \<le> 122"

definition is_ascii_uppercase :: "char \<Rightarrow> bool" where
  "is_ascii_uppercase c \<longleftrightarrow> 65 \<le> byte_of c \<and> byte_of c \<le> 90"

definition is_ascii_alphabetic :: "char \<Rightarrow> bool" where
  "is_ascii_alphabetic c \<longleftrightarrow> is_ascii_lowercase c \<or> is_ascii_uppercase c"

definition is_ascii_alphanumeric :: "char \<Rightarrow> bool" where
  "is_ascii_alphanumeric c \<longleftrightarrow> is_ascii_alphabetic c \<or> is_ascii_digit c"

text \<open>\<open>(b'a'..=b'f').contains\<close>\<close>

definition is_lower_af :: "char \<Rightarrow> bool" where
  "is_lower_af c \<longleftrightarrow> 97 \<le> byte_of c \<and> byte_of c \<le> 102"

definition is_ascii_hexdigit :: "char \<Rightarrow> bool" where
  "is_ascii_hexdigit c \<longleftrightarrow>
     is_ascii_digit c \<or> is_lower_af c \<or> 65 \<le> byte_of c \<and> byte_of c \<le> 70"

definition to_ascii_lower :: "char \<Rightarrow> char" where
  "to_ascii_lower c = (if is_ascii_uppercase c then char_of (byte_of c + 32) else c)"

definition to_ascii_lowercase :: "string \<Rightarrow> string" where
  "to_ascii_lowercase s = map to_ascii_lower s"

definition eq_ignore_ascii_case :: "string \<Rightarrow> string \<Rightarrow> bool" where
  "eq_ignore_ascii_case a b \<longleftrightarrow> to_ascii_lowercase a = to_ascii_lowercase b"

lemmas char_class_defs = is_ascii_digit_def is_ascii_lowercase_def is_ascii_uppercase_def
  is_ascii_alphabetic_def is_ascii_alphanumeric_def is_lower_af_def is_ascii_hexdigit_def
  byte_of_def

lemma is_ascii_lowercase_not_uppercase: "is_ascii_lowercase c \<Longrightarrow> \<not> is_ascii_uppercase c"
  by (simp add: char_class_defs)

lemma to_ascii_lower_alphanumeric:
  "is_ascii_alphanumeric c \<Longrightarrow>
     is_ascii_lowercase (to_ascii_lower c) \<or> is_ascii_digit (to_ascii_lower c)"
  by (auto simp: to_ascii_lower_def char_class_defs of_char_of)

lemma to_ascii_lower_idem: "to_ascii_lower (to_ascii_lower c) = to_ascii_lower c"
  by (auto simp: to_ascii_lower_def char_class_defs of_char_of)

lemma to_ascii_lowercase_idem: "to_ascii_lowercase (to_ascii_lowercase s) = to_ascii_lowercase s"
  by (simp add: to_ascii_lowercase_def to_ascii_lower_idem)

lemma length_to_ascii_lowercase [simp]: "length (to_ascii_lowercase s) = length s"
  by (simp add: to_ascii_lowercase_def)

section \<open>Prefixes, searching, splitting\<close>

fun strip_prefix :: "string \<Rightarrow> string \<Rightarrow> string option" where
  "strip_prefix [] s = Some s"
| "strip_prefix (p # ps) [] = None"
| "strip_prefix (p # ps) (c # cs) = (if p = c then strip_prefix ps cs else None)"

definition starts_with :: "string \<Rightarrow> string \<Rightarrow> bool" where
  "starts_with p s \<longleftrightarrow> strip_prefix p s \<noteq> None"

definition strip_suffix_char :: "char \<Rightarrow> string \<Rightarrow> string option" where
  "strip_suffix_char c s = (if s \<noteq> [] \<and> last s = c then Some (butlast s) else None)"

fun str_contains :: "string \<Rightarrow> string \<Rightarrow> bool" where
  "str_contains n [] = (n = [])"
| "str_contains n (c # cs) = (starts_with n (c # cs) \<or> str_contains n cs)"

fun split_on :: "char \<Rightarrow> string \<Rightarrow> string list" where
  "split_on d [] = [[]]"
| "split_on d (c # cs) =
     (if c = d then [] # split_on d cs
      else (case split_on d cs of [] \<Rightarrow> [[c]] | w # ws \<Rightarrow> (c # w) # ws))"

fun split_once :: "char \<Rightarrow> string \<Rightarrow> (string \<times> string) option" where
  "split_once d [] = None"
| "split_once d (c # cs) =
     (if c = d then Some ([], cs)
      else (case split_once d cs of None \<Rightarrow> None | Some (a, b) \<Rightarrow> Some (c # a, b)))"

fun join :: "string \<Rightarrow> string list \<Rightarrow> string" where
  "join sep [] = []"
| "join sep [w] = w"
| "join sep (w # v # ws) = w @ sep @ join sep (v # ws)"

lemma strip_prefix_Some: "strip_prefix p s = Some r \<longleftrightarrow> s = p @ r"
  by (induction p s rule: strip_prefix.induct) auto

lemma starts_with_iff: "starts_with p s \<longleftrightarrow> (\<exists>r. s = p @ r)"
  using strip_prefix_Some [of p s] by (auto simp: starts_with_def)

lemma str_contains_iff: "str_contains n s \<longleftrightarrow> (\<exists>a b. s = a @ n @ b)"
proof (induction n s rule: str_contains.induct)
  case (2 n c cs)
  have "(\<exists>a b. c # cs = a @ n @ b) \<longleftrightarrow> (\<exists>b. c # cs = n @ b) \<or> (\<exists>a b. cs = a @ n @ b)"
    by (auto simp: Cons_eq_append_conv; metis append_Cons)
  then show ?case using 2 by (simp add: starts_with_iff)
qed simp

lemma split_once_SomeD: "split_once d s = Some (a, b) \<Longrightarrow> s = a @ d # b \<and> d \<notin> set a"
proof (induction s arbitrary: a)
  case (Cons c cs)
  show ?case
  proof (cases "c = d")
    case False
    with Cons.prems obtain a' where "split_once d cs = Some (a', b)" "a = c # a'"
      by (auto split: option.splits)
    with Cons.IH [of a'] False show ?thesis by simp
  qed (use Cons.prems in simp)
qed simp

lemma split_once_append: "d \<notin> set a \<Longrightarrow> split_once d (a @ d # b) = Some (a, b)"
  by (induction a) auto

lemma split_once_Some: "split_once d s = Some (a, b) \<longleftrightarrow> s = a @ d # b \<and> d \<notin> set a"
  using split_once_SomeD split_once_append by blast

lemma split_once_None: "split_once d s = None \<longleftrightarrow> d \<notin> set s"
  by (induction d s rule: split_once.induct) (auto split: option.splits)

lemma split_on_nonempty [simp]: "split_on d s \<noteq> []"
  by (cases s) (auto split: list.splits)

lemma join_Cons: "ws \<noteq> [] \<Longrightarrow> join sep (w # ws) = w @ sep @ join sep ws"
  by (cases ws) auto

lemma join_split_on: "join [d] (split_on d s) = s"
proof (induction d s rule: split_on.induct)
  case (2 d c cs)
  obtain w ws where sp: "split_on d cs = w # ws" by (cases "split_on d cs") auto
  show ?case
  proof (cases "c = d")
    case True
    with 2 show ?thesis by (simp add: join_Cons)
  next
    case False
    with 2 sp show ?thesis by (cases ws) auto
  qed
qed simp

lemma split_on_no_sep: "w \<in> set (split_on d s) \<Longrightarrow> d \<notin> set w"
proof (induction d s arbitrary: w rule: split_on.induct)
  case (2 d c cs)
  obtain v vs where "split_on d cs = v # vs" by (cases "split_on d cs") auto
  with 2 show ?case by (auto split: if_splits)
qed simp

section \<open>Replacement\<close>

text \<open>
  \<open>str::replace\<close> with a non-empty pattern: the matches are found left to right and do
  not overlap.
\<close>

function str_replace :: "string \<Rightarrow> string \<Rightarrow> string \<Rightarrow> string" where
  "str_replace from to s =
     (if from = [] then s
      else (case s of [] \<Rightarrow> []
        | c # cs \<Rightarrow> (case strip_prefix from s of
             Some rest \<Rightarrow> to @ str_replace from to rest
           | None \<Rightarrow> c # str_replace from to cs)))"
  by pat_completeness auto
termination
  by (relation "measure (\<lambda>(from, to, s). length s)") (auto simp: strip_prefix_Some)

declare str_replace.simps [simp del]

lemma str_replace_absent: "\<not> str_contains from s \<Longrightarrow> str_replace from to s = s"
proof (induction s)
  case Nil
  then show ?case by (simp add: str_replace.simps)
next
  case (Cons c cs)
  then have "strip_prefix from (c # cs) = None" "\<not> str_contains from cs"
    by (simp_all add: starts_with_def)
  with Cons.IH show ?case by (subst str_replace.simps) simp
qed

lemma str_replace_first:
  assumes "from \<noteq> []" "\<not> str_contains from (a @ butlast from)"
  shows "str_replace from to (a @ from @ b) = a @ to @ str_replace from to b"
  using assms(2)
proof (induction a)
  case Nil
  obtain f fs where from_eq: "from = f # fs" using assms(1) by (cases "from") auto
  have "strip_prefix from (from @ b) = Some b" by (simp add: strip_prefix_Some)
  with from_eq show ?case by (subst str_replace.simps) simp
next
  case (Cons c cs)
  have "strip_prefix from (c # cs @ from @ b) = None"
  proof (cases "strip_prefix from (c # cs @ from @ b)")
    case (Some r)
    then have eq: "c # cs @ from @ b = from @ r" by (simp add: strip_prefix_Some)
    have "from = take (length from) (c # cs @ from @ b)" using eq by simp
    also have "\<dots> = take (length from) (c # cs @ butlast from)"
      using assms(1) by (cases "length from") (auto simp: butlast_conv_take)
    finally have "c # cs @ butlast from = from @ drop (length from) (c # cs @ butlast from)"
      by (metis append_take_drop_id)
    then have "str_contains from ((c # cs) @ butlast from)"
      by (metis str_contains_iff append_Nil append_Cons)
    with Cons.prems show ?thesis by blast
  qed
  moreover have "str_replace from to (cs @ from @ b) = cs @ to @ str_replace from to b"
    using Cons by simp
  ultimately show ?case using assms(1) by (subst str_replace.simps) simp
qed

section \<open>Decimal numbers\<close>

definition digit_char :: "nat \<Rightarrow> char" where
  "digit_char d = char_of (48 + d)"

fun dec_nat :: "nat \<Rightarrow> string" where
  "dec_nat n = (if n < 10 then [digit_char n] else dec_nat (n div 10) @ [digit_char (n mod 10)])"

declare dec_nat.simps [simp del]

definition digits_value :: "string \<Rightarrow> nat" where
  "digits_value s = foldl (\<lambda>acc c. 10 * acc + (byte_of c - 48)) 0 s"

text \<open>
  \<open>u64::from_str\<close>: an optional plus sign, then at least one decimal digit and nothing
  else, the value at most \<open>u64::MAX\<close>.
\<close>

definition parse_u64 :: "string \<Rightarrow> u64 option" where
  "parse_u64 s =
     (let ds = (case strip_prefix ''+'' s of Some r \<Rightarrow> r | None \<Rightarrow> s) in
      if ds = [] \<or> \<not> list_all is_ascii_digit ds \<or> 2 ^ 64 \<le> digits_value ds then None
      else Some (of_nat (digits_value ds)))"

lemma digit_char_props:
  "d < 10 \<Longrightarrow> is_ascii_digit (digit_char d) \<and> byte_of (digit_char d) = 48 + d"
  by (simp add: digit_char_def char_class_defs of_char_of)

lemma dec_nat_digits: "list_all is_ascii_digit (dec_nat n)"
proof (induction n rule: dec_nat.induct)
  case (1 n)
  then show ?case by (subst dec_nat.simps) (simp add: digit_char_props)
qed

lemma dec_nat_nonempty [simp]: "dec_nat n \<noteq> []"
  by (subst dec_nat.simps) simp

lemma digits_value_dec_nat [simp]: "digits_value (dec_nat n) = n"
proof (induction n rule: dec_nat.induct)
  case (1 n)
  show ?case
  proof (cases "n < 10")
    case True
    then show ?thesis by (subst dec_nat.simps) (simp add: digits_value_def digit_char_props)
  next
    case False
    with 1 have "digits_value (dec_nat (n div 10)) = n div 10" by simp
    with False show ?thesis
      by (subst dec_nat.simps) (simp add: digits_value_def digit_char_props)
  qed
qed

lemma parse_u64_dec_nat: "n < 2 ^ 64 \<Longrightarrow> parse_u64 (dec_nat n) = Some (of_nat n)"
proof -
  assume n: "n < 2 ^ 64"
  have "strip_prefix ''+'' (dec_nat n) = None"
  proof (cases "strip_prefix ''+'' (dec_nat n)")
    case (Some r)
    then have "dec_nat n = CHR ''+'' # r" by (simp add: strip_prefix_Some)
    with dec_nat_digits [of n] have "is_ascii_digit CHR ''+''" by simp
    then show ?thesis by (simp add: char_class_defs)
  qed
  with n dec_nat_digits show ?thesis by (simp add: parse_u64_def)
qed

lemma dec_nat_inject [simp]: "dec_nat m = dec_nat n \<longleftrightarrow> m = n"
  by (metis digits_value_dec_nat)

section \<open>Whitespace\<close>

text \<open>
  \<open>char::is_whitespace\<close> is the Unicode property \<open>White_Space\<close>; \<open>ws_encodings\<close> lists the
  UTF-8 encodings of its characters beyond ASCII. UTF-8 is self-synchronising, so a valid
  string contains such a character exactly when it contains its encoding.
\<close>

definition is_ascii_ws :: "char \<Rightarrow> bool" where
  "is_ascii_ws c \<longleftrightarrow> 9 \<le> byte_of c \<and> byte_of c \<le> 13 \<or> byte_of c = 32"

definition ws_encodings :: "string list" where
  "ws_encodings = map (map char_of)
     ([[0xC2, 0x85], [0xC2, 0xA0], [0xE1, 0x9A, 0x80]]
      @ map (\<lambda>b. [0xE2, 0x80, b]) [0x80, 0x81, 0x82, 0x83, 0x84, 0x85, 0x86, 0x87, 0x88, 0x89,
          0x8A, 0xA8, 0xA9, 0xAF]
      @ [[0xE2, 0x81, 0x9F], [0xE3, 0x80, 0x80 :: nat]])"

definition contains_whitespace :: "string \<Rightarrow> bool" where
  "contains_whitespace s \<longleftrightarrow>
     list_ex is_ascii_ws s \<or> list_ex (\<lambda>w. str_contains w s) ws_encodings"

end
