(* ===== verification/Target.thy ===== *)
theory Target
  imports Rust_Strings
begin

text \<open>
  \<open>target.rs\<close>: the canonical organization and site subjects. \<open>text_printer\<close> and
  \<open>text_codec\<close> are the contracts of a type with a textual form (a printer that a parser
  reads back; a parser that accepts only printed text); \<open>dec\<close> and \<open>subj\<close> are their
  interpretations for decimal page numbers and for targets.
\<close>

section \<open>The contracts of a textual form\<close>

locale text_printer =
  fixes print :: "'a \<Rightarrow> string"
    and parse :: "string \<Rightarrow> 'e + 'a"
    and valid :: "'a \<Rightarrow> bool"
  assumes parse_print: "valid x \<Longrightarrow> parse (print x) = Inr x"
begin

lemma print_inject: "valid x \<Longrightarrow> valid y \<Longrightarrow> print x = print y \<longleftrightarrow> x = y"
  using parse_print by (metis sum.inject(2))

end

locale text_codec = text_printer +
  assumes print_parse: "parse s = Inr x \<Longrightarrow> valid x \<and> print x = s"
begin

lemma parse_ok_iff: "parse s = Inr x \<longleftrightarrow> valid x \<and> s = print x"
  using parse_print print_parse by blast

lemma parse_inject: "parse s = Inr x \<Longrightarrow> parse t = Inr x \<Longrightarrow> s = t"
  by (simp add: parse_ok_iff)

lemma parse_err_iff: "\<not> is_ok (parse s) \<longleftrightarrow> (\<forall>x. valid x \<longrightarrow> s \<noteq> print x)"
  by (auto simp: is_ok_iff parse_ok_iff)

end

interpretation dec: text_printer "\<lambda>n. dec_nat (unat n)" "\<lambda>s. ok_or () (parse_u64 s)"
    "\<lambda>_ :: u64. True"
proof unfold_locales
  fix n :: u64
  have "unat n < 2 ^ 64" using unsigned_less [of n] by simp
  then show "ok_or () (parse_u64 (dec_nat (unat n))) = Inr n"
    by (simp add: parse_u64_dec_nat)
qed

section \<open>Canonical UUIDs\<close>

fun uuid_scan :: "nat \<Rightarrow> bool \<Rightarrow> string \<Rightarrow> bool" where
  "uuid_scan i contains_nonzero [] = contains_nonzero"
| "uuid_scan i contains_nonzero (b # bs) =
     (if i = 8 \<or> i = 13 \<or> i = 18 \<or> i = 23 then
        (if b \<noteq> CHR ''-'' then False else uuid_scan (Suc i) contains_nonzero bs)
      else if \<not> is_ascii_digit b \<and> \<not> is_lower_af b then False
      else uuid_scan (Suc i) (contains_nonzero \<or> b \<noteq> CHR ''0'') bs)"

definition is_canonical_uuid :: "string \<Rightarrow> bool" where
  "is_canonical_uuid s = (if length s \<noteq> 36 then False else uuid_scan 0 False s)"

text \<open>What the scan promises: the shape 8-4-4-4-12 in lowercase hexadecimal, not nil.\<close>

definition uuid_dash :: "nat \<Rightarrow> bool" where
  "uuid_dash i \<longleftrightarrow> i = 8 \<or> i = 13 \<or> i = 18 \<or> i = 23"

definition uuid_shape :: "string \<Rightarrow> bool" where
  "uuid_shape s \<longleftrightarrow> length s = 36 \<and>
     (\<forall>i < 36. if uuid_dash i then s ! i = CHR ''-'' else is_ascii_digit (s ! i) \<or> is_lower_af (s ! i))"

definition uuid_nil :: "string \<Rightarrow> bool" where
  "uuid_nil s \<longleftrightarrow> (\<forall>i < 36. \<not> uuid_dash i \<longrightarrow> s ! i = CHR ''0'')"

definition uuid_byte_ok :: "nat \<Rightarrow> char \<Rightarrow> bool" where
  "uuid_byte_ok i b \<longleftrightarrow>
     (if uuid_dash i then b = CHR ''-'' else is_ascii_digit b \<or> is_lower_af b)"

definition uuid_byte_set :: "nat \<Rightarrow> char \<Rightarrow> bool" where
  "uuid_byte_set i b \<longleftrightarrow> \<not> uuid_dash i \<and> b \<noteq> CHR ''0''"

lemma uuid_scan_Cons:
  "uuid_scan i nz (b # bs) \<longleftrightarrow>
     uuid_byte_ok i b \<and> uuid_scan (Suc i) (nz \<or> uuid_byte_set i b) bs"
  by (simp add: uuid_byte_ok_def uuid_byte_set_def uuid_dash_def)

lemma uuid_scan_iff:
  "uuid_scan i nz s \<longleftrightarrow>
     (\<forall>j < length s. uuid_byte_ok (i + j) (s ! j)) \<and>
     (nz \<or> (\<exists>j < length s. uuid_byte_set (i + j) (s ! j)))"
proof (induction s arbitrary: i nz)
  case (Cons b bs)
  have "(\<forall>j < length (b # bs). uuid_byte_ok (i + j) ((b # bs) ! j)) \<longleftrightarrow>
      uuid_byte_ok i b \<and> (\<forall>j < length bs. uuid_byte_ok (Suc i + j) (bs ! j))"
    by (auto simp: less_Suc_eq_0_disj)
  moreover have "(\<exists>j < length (b # bs). uuid_byte_set (i + j) ((b # bs) ! j)) \<longleftrightarrow>
      uuid_byte_set i b \<or> (\<exists>j < length bs. uuid_byte_set (Suc i + j) (bs ! j))"
    by (auto simp: less_Suc_eq_0_disj)
  ultimately show ?case unfolding uuid_scan_Cons Cons.IH by blast
qed simp

lemma is_canonical_uuid_iff: "is_canonical_uuid s \<longleftrightarrow> uuid_shape s \<and> \<not> uuid_nil s"
  by (auto simp: is_canonical_uuid_def uuid_scan_iff uuid_shape_def uuid_nil_def
      uuid_byte_ok_def uuid_byte_set_def)

lemma canonical_uuid_no_slash: "is_canonical_uuid s \<Longrightarrow> CHR ''/'' \<notin> set s"
proof
  assume "is_canonical_uuid s" "CHR ''/'' \<in> set s"
  then obtain i where "i < 36" "s ! i = CHR ''/''" "uuid_shape s"
    by (auto simp: is_canonical_uuid_iff in_set_conv_nth uuid_shape_def)
  then have "is_ascii_digit CHR ''/'' \<or> is_lower_af CHR ''/''"
    by (auto simp: uuid_shape_def split: if_splits)
  then show False by (simp add: char_class_defs)
qed

section \<open>Targets\<close>

datatype mist_target_kind = KindOrg | KindSite

datatype mist_target = MistTarget mist_target_kind string

datatype mist_target_error = MistTargetError string

definition target_org :: "string \<Rightarrow> mist_target_error + mist_target" where
  "target_org i =
     (if \<not> is_canonical_uuid i
      then Inl (MistTargetError ''organization ID must be a canonical non-nil UUID'')
      else Inr (MistTarget KindOrg i))"

definition target_site :: "string \<Rightarrow> mist_target_error + mist_target" where
  "target_site i =
     (if \<not> is_canonical_uuid i
      then Inl (MistTargetError ''site ID must be a canonical non-nil UUID'')
      else Inr (MistTarget KindSite i))"

definition target_parse :: "string \<Rightarrow> mist_target_error + mist_target" where
  "target_parse subject =
     (case split_once CHR ''/'' subject of
        None \<Rightarrow> Inl (MistTargetError ''subject must have exactly one kind separator'')
      | Some (kind, i) \<Rightarrow>
          if str_contains ''/'' i
          then Inl (MistTargetError ''subject must have exactly one kind separator'')
          else if kind = ''org'' then target_org i
          else if kind = ''site'' then target_site i
          else Inl (MistTargetError ''subject kind must be org or site''))"

fun target_subject :: "mist_target \<Rightarrow> string" where
  "target_subject (MistTarget KindOrg i) = ''org/'' @ i"
| "target_subject (MistTarget KindSite i) = ''site/'' @ i"

fun target_id :: "mist_target \<Rightarrow> string" where
  "target_id (MistTarget k i) = i"

fun target_kind :: "mist_target \<Rightarrow> mist_target_kind" where
  "target_kind (MistTarget k i) = k"

text \<open>A value that \<open>org\<close>, \<open>site\<close> or \<open>parse\<close> returned: its identifier is canonical.\<close>

definition target_valid :: "mist_target \<Rightarrow> bool" where
  "target_valid t \<longleftrightarrow> is_canonical_uuid (target_id t)"

definition target_serialize :: "mist_target \<Rightarrow> mist_target_error + string" where
  "target_serialize t =
     (let subject = target_subject t in and_then (target_parse subject) (\<lambda>_. Inr subject))"

definition target_deserialize :: "string \<Rightarrow> mist_target_error + mist_target" where
  "target_deserialize subject = target_parse subject"

lemma target_org_Inr [simp]:
  "target_org i = Inr t \<longleftrightarrow> is_canonical_uuid i \<and> t = MistTarget KindOrg i"
  by (auto simp: target_org_def)

lemma target_site_Inr [simp]:
  "target_site i = Inr t \<longleftrightarrow> is_canonical_uuid i \<and> t = MistTarget KindSite i"
  by (auto simp: target_site_def)

lemma str_contains_single: "str_contains [c] s \<longleftrightarrow> c \<in> set s"
  by (auto simp: str_contains_iff in_set_conv_decomp)

lemma target_parse_subject: "target_valid t \<Longrightarrow> target_parse (target_subject t) = Inr t"
proof (cases t)
  case (MistTarget k i)
  assume "target_valid t"
  with MistTarget have i: "is_canonical_uuid i" "CHR ''/'' \<notin> set i"
    by (simp_all add: target_valid_def canonical_uuid_no_slash)
  with MistTarget show ?thesis
    by (cases k) (simp_all add: target_parse_def str_contains_single)
qed

lemma target_parse_Inr:
  "target_parse s = Inr t \<Longrightarrow> target_valid t \<and> target_subject t = s"
  by (auto simp: target_parse_def target_valid_def split_once_Some
      split: option.splits if_splits)

interpretation subj: text_codec target_subject target_parse target_valid
  by unfold_locales (auto simp: target_parse_subject dest: target_parse_Inr)

section \<open>The derived order\<close>

text \<open>\<open>derive(Ord)\<close>: by kind (\<open>Org < Site\<close>), then by identifier.\<close>

definition kind_rank :: "mist_target_kind \<Rightarrow> nat" where
  "kind_rank k = (case k of KindOrg \<Rightarrow> 0 | KindSite \<Rightarrow> 1)"

lemma kind_rank_inject [simp]: "kind_rank k = kind_rank l \<longleftrightarrow> k = l"
  by (cases k; cases l) (simp_all add: kind_rank_def)

instantiation mist_target :: linorder
begin

definition less_eq_mist_target :: "mist_target \<Rightarrow> mist_target \<Rightarrow> bool" where
  "less_eq_mist_target s t \<longleftrightarrow>
     kind_rank (target_kind s) < kind_rank (target_kind t) \<or>
     target_kind s = target_kind t \<and> target_id s \<le> target_id t"

definition less_mist_target :: "mist_target \<Rightarrow> mist_target \<Rightarrow> bool" where
  "less_mist_target s t \<longleftrightarrow>
     kind_rank (target_kind s) < kind_rank (target_kind t) \<or>
     target_kind s = target_kind t \<and> target_id s < target_id t"

instance
proof
  fix s t u :: mist_target
  note defs = less_eq_mist_target_def less_mist_target_def
  show "(s < t) = (s \<le> t \<and> \<not> t \<le> s)" by (auto simp: defs)
  show "s \<le> s" by (simp add: defs)
  show "s \<le> t \<Longrightarrow> t \<le> u \<Longrightarrow> s \<le> u" by (auto simp: defs)
  show "s \<le> t \<Longrightarrow> t \<le> s \<Longrightarrow> s = t" by (cases s; cases t) (auto simp: defs)
  show "s \<le> t \<or> t \<le> s"
    using kind_rank_inject [of "target_kind s" "target_kind t"] by (auto simp: defs)
qed

end

section \<open>Properties\<close>

text \<open>C32: The parser and the printer of authorization subjects are inverse: a subject parses
  exactly when it is the printed form of a target with a canonical identifier, and then to
  that target. No second spelling of a target is accepted.\<close>

theorem target_parse_exact:
  "target_parse s = Inr t \<longleftrightarrow> target_valid t \<and> s = target_subject t"
  by (rule subj.parse_ok_iff)

text \<open>The byte scan accepts a string exactly when it has 36 bytes, dashes at positions 8,
  13, 18 and 23, lowercase hexadecimal digits elsewhere, and at least one digit other than
  zero.\<close>

theorem canonical_uuid_spec:
  "is_canonical_uuid s \<longleftrightarrow>
     length s = 36 \<and>
     list_all (\<lambda>i. if uuid_dash i then s ! i = CHR ''-''
        else is_ascii_digit (s ! i) \<or> is_lower_af (s ! i)) [0..<36] \<and>
     list_ex (\<lambda>i. \<not> uuid_dash i \<and> s ! i \<noteq> CHR ''0'') [0..<36]"
  by (auto simp: is_canonical_uuid_iff uuid_shape_def uuid_nil_def list_all_iff list_ex_iff simp del: upt_rec_numeral)

end
