(* ===== verification/Grant.thy ===== *)
theory Grant
  imports Target
begin

text \<open>
  \<open>grant.rs\<close>: the positive allowlists of one token, and the capability classification of
  \<open>catalog.rs\<close> they name. \<open>allowlist\<close> is the contract of a lookup in such a list;
  its interpretations \<open>ops\<close>, \<open>acts\<close> and \<open>subs\<close> are the three lists of a grant.
\<close>

section \<open>Capabilities\<close>

datatype mist_capability =
  OrdinaryRead | PrivilegedRead | Create | Update | Delete | Execute

type_synonym mist_action = mist_capability

definition capability_rank :: "mist_capability \<Rightarrow> nat" where
  "capability_rank c = (case c of OrdinaryRead \<Rightarrow> 0 | PrivilegedRead \<Rightarrow> 1 | Create \<Rightarrow> 2
     | Update \<Rightarrow> 3 | Delete \<Rightarrow> 4 | Execute \<Rightarrow> 5)"

lemma capability_rank_inject [simp]: "capability_rank c = capability_rank d \<longleftrightarrow> c = d"
  by (cases c; cases d) (simp_all add: capability_rank_def)

instantiation mist_capability :: linorder
begin

definition less_eq_mist_capability :: "mist_capability \<Rightarrow> mist_capability \<Rightarrow> bool" where
  "less_eq_mist_capability c d \<longleftrightarrow> capability_rank c \<le> capability_rank d"

definition less_mist_capability :: "mist_capability \<Rightarrow> mist_capability \<Rightarrow> bool" where
  "less_mist_capability c d \<longleftrightarrow> capability_rank c < capability_rank d"

instance
  by standard (auto simp: less_eq_mist_capability_def less_mist_capability_def
      dest: antisym simp flip: capability_rank_inject)

end

section \<open>The contract of an allowlist\<close>

locale allowlist =
  fixes allows :: "'g \<Rightarrow> 'x \<Rightarrow> bool"
    and listed :: "'g \<Rightarrow> 'x list"
  assumes allows_listed: "allows g x \<longleftrightarrow> x \<in> set (listed g)"
begin

lemma deny_by_default: "listed g = [] \<Longrightarrow> \<not> allows g x"
  by (simp add: allows_listed)

lemma allows_mono: "set (listed g) \<subseteq> set (listed h) \<Longrightarrow> allows g x \<Longrightarrow> allows h x"
  by (auto simp: allows_listed)

lemma allows_finite: "finite {x. allows g x} \<and> card {x. allows g x} \<le> length (listed g)"
  by (simp add: allows_listed card_length)

end

section \<open>Grants\<close>

definition MAX_GRANT_VALUES :: nat where "MAX_GRANT_VALUES = 256"
definition MAX_OPERATION_ID_LEN :: nat where "MAX_OPERATION_ID_LEN = 256"

record mist_grant =
  allowed_operations :: "string list"
  actions :: "mist_action list"
  subjects :: "mist_target list"

datatype grant_error = GrantInvalid string

definition allows_operation :: "mist_grant \<Rightarrow> string \<Rightarrow> bool" where
  "allows_operation g operation_id = list_ex (\<lambda>allowed. allowed = operation_id) (allowed_operations g)"

definition allows_target :: "mist_grant \<Rightarrow> mist_target \<Rightarrow> bool" where
  "allows_target g t = list_ex (\<lambda>allowed. allowed = t) (subjects g)"

definition allows_action :: "mist_grant \<Rightarrow> mist_action \<Rightarrow> bool" where
  "allows_action g action = List.member (actions g) action"

definition allows_subject :: "mist_grant \<Rightarrow> string \<Rightarrow> bool" where
  "allows_subject g subject =
     (case target_parse subject of Inl _ \<Rightarrow> False | Inr target \<Rightarrow> allows_target g target)"

definition validate_list :: "string \<Rightarrow> ('a::linorder) list \<Rightarrow> grant_error + unit" where
  "validate_list name values =
     (if values = [] \<or> length values > MAX_GRANT_VALUES then
        Inl (GrantInvalid (name @ '' must contain 1-'' @ dec_nat MAX_GRANT_VALUES @ '' values''))
      else if card (set values) \<noteq> length values then
        Inl (GrantInvalid (name @ '' must not contain duplicates''))
      else Inr ())"

definition validate_operation_id :: "string \<Rightarrow> grant_error + unit" where
  "validate_operation_id operation_id =
     (if operation_id = [] \<or> length operation_id > MAX_OPERATION_ID_LEN
        \<or> str_contains [char_of (0 :: nat)] operation_id \<or> contains_whitespace operation_id
      then Inl (GrantInvalid ''operation IDs must be non-empty, at most 256 bytes, and contain no whitespace or null bytes'')
      else Inr ())"

fun target_error_text :: "mist_target_error \<Rightarrow> string" where
  "target_error_text (MistTargetError m) = ''invalid Mist target: '' @ m"

definition validate_subject :: "mist_target \<Rightarrow> grant_error + unit" where
  "validate_subject subject =
     map_err (\<lambda>e. GrantInvalid (''subjects must be canonical Mist targets: '' @ target_error_text e))
       (and_then (target_parse (target_subject subject)) (\<lambda>_. Inr ()))"

definition grant_validate :: "mist_grant \<Rightarrow> grant_error + unit" where
  "grant_validate g =
     and_then (validate_list ''allowed_operations'' (allowed_operations g)) (\<lambda>_.
     and_then (validate_list ''actions'' (actions g)) (\<lambda>_.
     and_then (validate_list ''subjects'' (subjects g)) (\<lambda>_.
     and_then (try_each validate_subject (subjects g)) (\<lambda>_.
     try_each validate_operation_id (allowed_operations g)))))"

interpretation ops: allowlist allows_operation allowed_operations
  by unfold_locales (auto simp: allows_operation_def list_ex_iff)

interpretation acts: allowlist allows_action actions
  by unfold_locales (simp add: allows_action_def)

interpretation subs: allowlist allows_target subjects
  by unfold_locales (auto simp: allows_target_def list_ex_iff)

section \<open>What validation establishes\<close>

lemma validate_list_ok_iff:
  "validate_list name values = Inr () \<longleftrightarrow>
     values \<noteq> [] \<and> length values \<le> MAX_GRANT_VALUES \<and> distinct values"
  by (auto simp: validate_list_def card_distinct distinct_card)

lemma validate_subject_ok_iff: "validate_subject t = Inr () \<longleftrightarrow> target_valid t"
proof
  assume "validate_subject t = Inr ()"
  then obtain u where "target_parse (target_subject t) = Inr u"
    by (auto simp: validate_subject_def and_then_Inr_iff)
  then have u: "target_valid u" "target_subject u = target_subject t"
    by (auto dest: target_parse_Inr)
  show "target_valid t"
  proof (cases t; cases u)
    fix k i l j assume "t = MistTarget k i" "u = MistTarget l j"
    with u show ?thesis by (cases k; cases l) (auto simp: target_valid_def)
  qed
qed (simp add: validate_subject_def target_parse_subject)

definition operation_id_ok :: "string \<Rightarrow> bool" where
  "operation_id_ok s \<longleftrightarrow> s \<noteq> [] \<and> length s \<le> MAX_OPERATION_ID_LEN \<and>
     char_of (0 :: nat) \<notin> set s \<and> \<not> contains_whitespace s"

lemma validate_operation_id_ok_iff: "validate_operation_id s = Inr () \<longleftrightarrow> operation_id_ok s"
  by (auto simp: validate_operation_id_def operation_id_ok_def str_contains_single)

lemmas grant_validation = validate_list_ok_iff validate_subject_ok_iff
  validate_operation_id_ok_iff

text \<open>Grant validation accepts exactly the grants whose three lists hold 1 to 256 distinct
  values, whose subjects are canonical targets and whose operation IDs are non-empty, at
  most 256 bytes long and free of whitespace and null bytes.\<close>

theorem grant_validate_iff:
  "grant_validate g = Inr () \<longleftrightarrow>
     allowed_operations g \<noteq> [] \<and> length (allowed_operations g) \<le> 256 \<and> distinct (allowed_operations g) \<and>
     actions g \<noteq> [] \<and> length (actions g) \<le> 256 \<and> distinct (actions g) \<and>
     subjects g \<noteq> [] \<and> length (subjects g) \<le> 256 \<and> distinct (subjects g) \<and>
     list_all target_valid (subjects g) \<and> list_all operation_id_ok (allowed_operations g)"
  by (auto simp: grant_validate_def grant_validation MAX_GRANT_VALUES_def list_all_iff)

text \<open>A textual subject is authorized by a grant exactly when it is the canonical spelling
  of a target the grant lists: no other spelling of a listed target, and no subject of a
  grant without subjects, is authorized.\<close>

theorem allows_subject_iff:
  "allows_subject g s \<longleftrightarrow> (\<exists>t \<in> set (subjects g). target_valid t \<and> s = target_subject t)"
proof -
  have "allows_subject g s \<longleftrightarrow> (\<exists>t. target_parse s = Inr t \<and> allows_target g t)"
    by (auto simp: allows_subject_def split: sum.splits)
  then show ?thesis by (auto simp: subj.parse_ok_iff subs.allows_listed)
qed

end
