(* ===== verification/BTree.thy ===== *)
theory BTree
  imports Rust_Strings
begin

text \<open>
  Maps. \<open>key_map\<close> is the contract the components rely on, of a map with an invariant,
  a lookup, an insertion and a removal. Rust's \<open>BTreeMap\<close> is the association list of its
  entries in key order, so that iterating over it (which the sources do) is the list
  itself; its interpretation \<open>bt\<close> of the contract is at the end.
\<close>

section \<open>The contract of a map\<close>

locale key_map =
  fixes emp :: "'m"
    and get :: "'m \<Rightarrow> 'k \<Rightarrow> 'v option"
    and ins :: "'k \<Rightarrow> 'v \<Rightarrow> 'm \<Rightarrow> 'm"
    and rem :: "'k \<Rightarrow> 'm \<Rightarrow> 'm"
    and entries :: "'m \<Rightarrow> ('k \<times> 'v) list"
    and wf :: "'m \<Rightarrow> bool"
  assumes wf_emp: "wf emp"
    and wf_ins: "wf m \<Longrightarrow> wf (ins k v m)"
    and wf_rem: "wf m \<Longrightarrow> wf (rem k m)"
    and get_emp: "get emp k = None"
    and get_ins: "wf m \<Longrightarrow> get (ins k v m) k' = (if k' = k then Some v else get m k')"
    and get_rem: "wf m \<Longrightarrow> get (rem k m) k' = (if k' = k then None else get m k')"
    and get_entries: "wf m \<Longrightarrow> get m k = map_of (entries m) k"
    and distinct_entries: "wf m \<Longrightarrow> distinct (map fst (entries m))"
begin

lemma get_Some_iff: "wf m \<Longrightarrow> get m k = Some v \<longleftrightarrow> (k, v) \<in> set (entries m)"
  by (simp add: get_entries distinct_entries)

lemma get_None_iff: "wf m \<Longrightarrow> get m k = None \<longleftrightarrow> k \<notin> fst ` set (entries m)"
  by (simp add: get_entries map_of_eq_None_iff)

lemma ins_ins: "wf m \<Longrightarrow> get (ins k v (ins k w m)) = get (ins k v m)"
  by (rule ext) (simp add: get_ins wf_ins)

lemma ins_commute:
  "wf m \<Longrightarrow> k \<noteq> l \<Longrightarrow> get (ins k v (ins l w m)) = get (ins l w (ins k v m))"
  by (rule ext) (simp add: get_ins wf_ins)

lemma rem_ins: "wf m \<Longrightarrow> get (rem k (ins k v m)) = get (rem k m)"
  by (rule ext) (simp add: get_ins get_rem wf_ins)

lemma entries_ins_subset:
  "wf m \<Longrightarrow> set (entries (ins k v m)) = insert (k, v) {p \<in> set (entries m). fst p \<noteq> k}"
  by (auto simp: get_Some_iff [symmetric] get_ins wf_ins split: if_splits)

lemma entries_rem_subset:
  "wf m \<Longrightarrow> set (entries (rem k m)) = {p \<in> set (entries m). fst p \<noteq> k}"
  by (auto simp: get_Some_iff [symmetric] get_rem wf_rem split: if_splits)

lemma length_entries:
  "wf m \<Longrightarrow> length (entries m) = card (fst ` set (entries m))"
  using distinct_card [OF distinct_entries] by (metis length_map set_map)

lemma length_ins:
  assumes "wf m"
  shows "length (entries (ins k v m)) =
    (if get m k = None then Suc (length (entries m)) else length (entries m))"
proof -
  have keys: "fst ` set (entries (ins k v m)) = insert k (fst ` set (entries m))"
    using assms by (force simp: entries_ins_subset)
  show ?thesis
    using assms by (simp add: length_entries wf_ins keys get_None_iff card_insert_if)
qed

end

section \<open>BTreeMap\<close>

type_synonym ('k, 'v) btree = "('k \<times> 'v) list"

definition bt_empty :: "('k, 'v) btree" where
  "bt_empty = []"

definition bt_get :: "('k, 'v) btree \<Rightarrow> 'k \<Rightarrow> 'v option" where
  "bt_get m k = map_of m k"

fun bt_insert :: "'k::linorder \<Rightarrow> 'v \<Rightarrow> ('k, 'v) btree \<Rightarrow> ('k, 'v) btree" where
  "bt_insert k v [] = [(k, v)]"
| "bt_insert k v ((l, w) # m) =
     (if k < l then (k, v) # (l, w) # m
      else if k = l then (k, v) # m
      else (l, w) # bt_insert k v m)"

definition bt_remove :: "'k \<Rightarrow> ('k, 'v) btree \<Rightarrow> ('k, 'v) btree" where
  "bt_remove k m = filter (\<lambda>p. fst p \<noteq> k) m"

definition bt_contains_key :: "('k, 'v) btree \<Rightarrow> 'k \<Rightarrow> bool" where
  "bt_contains_key m k \<longleftrightarrow> bt_get m k \<noteq> None"

definition bt_keys :: "('k, 'v) btree \<Rightarrow> 'k list" where
  "bt_keys m = map fst m"

definition bt_values :: "('k, 'v) btree \<Rightarrow> 'v list" where
  "bt_values m = map snd m"

definition bt_wf :: "('k::linorder, 'v) btree \<Rightarrow> bool" where
  "bt_wf m \<longleftrightarrow> sorted_wrt (<) (map fst m)"

text \<open>\<open>BTreeMap::from\<close> and \<open>collect\<close>: later entries replace earlier ones.\<close>

definition bt_from :: "('k::linorder \<times> 'v) list \<Rightarrow> ('k, 'v) btree" where
  "bt_from ps = fold (\<lambda>(k, v) m. bt_insert k v m) ps bt_empty"

lemma set_keys_bt_insert: "fst ` set (bt_insert k v m) = insert k (fst ` set m)"
  by (induction k v m rule: bt_insert.induct) auto

lemma bt_wf_insert: "bt_wf m \<Longrightarrow> bt_wf (bt_insert k v m)"
proof (induction k v m rule: bt_insert.induct)
  case (2 k v l w m)
  have keys: "set (map fst (bt_insert k v m)) = insert k (set (map fst m))"
    using set_keys_bt_insert [of k v m] by simp
  show ?case
    using 2 keys by (auto simp: bt_wf_def)
qed (simp add: bt_wf_def)

lemma map_of_bt_insert: "map_of (bt_insert k v m) = (map_of m)(k \<mapsto> v)"
  by (induction k v m rule: bt_insert.induct) auto

lemma map_of_bt_remove: "map_of (bt_remove k m) k' = (if k' = k then None else map_of m k')"
  by (induction m) (auto simp: bt_remove_def)

lemma bt_wf_remove: "bt_wf m \<Longrightarrow> bt_wf (bt_remove k m)"
  by (induction m) (auto simp: bt_wf_def bt_remove_def)

lemma bt_wf_distinct: "bt_wf m \<Longrightarrow> distinct (map fst m)"
  by (simp add: bt_wf_def strict_sorted_iff)

interpretation bt: key_map "bt_empty :: ('k::linorder, 'v) btree" bt_get bt_insert bt_remove
    "\<lambda>m. m" bt_wf
proof unfold_locales
  show "bt_wf (bt_empty :: ('k, 'v) btree)" by (simp add: bt_wf_def bt_empty_def)
qed (simp_all add: bt_wf_insert bt_wf_remove bt_get_def bt_empty_def map_of_bt_insert
      map_of_bt_remove bt_wf_distinct)

lemmas bt_lookup = bt.get_emp bt.get_ins bt.get_rem

lemma bt_wf_filter: "bt_wf m \<Longrightarrow> bt_wf (filter P m)"
  by (induction m) (auto simp: bt_wf_def)

lemma bt_wf_from: "bt_wf (bt_from ps)"
proof -
  have "bt_wf m \<Longrightarrow> bt_wf (fold (\<lambda>(k, v) m. bt_insert k v m) ps m)" for m :: "('a, 'b) btree"
    by (induction ps arbitrary: m) (auto intro: bt_wf_insert)
  then show ?thesis by (simp add: bt_from_def bt.wf_emp)
qed

text \<open>An ordered map is determined by its lookups.\<close>

lemma bt_eqI:
  fixes m n :: "('k::linorder, 'v) btree"
  assumes "bt_wf m" "bt_wf n" "bt_get m = bt_get n"
  shows "m = n"
proof -
  have sets: "set m = set n"
    using assms by (auto simp: bt.get_Some_iff [symmetric])
  moreover have "sorted_wrt (\<lambda>p q. fst p < fst q) m" "sorted_wrt (\<lambda>p q. fst p < fst q) n"
    using assms(1,2) by (simp_all add: bt_wf_def sorted_wrt_map)
  ultimately show ?thesis
  proof (induction m arbitrary: n)
    case (Cons p m)
    then obtain q n' where n: "n = q # n'" by (cases n) auto
    have "p = q"
      using Cons.prems n by (metis list.set_intros(1) less_asym set_ConsD sorted_wrt.simps(2))
    moreover have "set m = set n'"
    proof -
      have "p \<notin> set m" "q \<notin> set n'" using Cons.prems n by auto
      then show ?thesis using Cons.prems(1) n \<open>p = q\<close> by auto
    qed
    ultimately show ?case using Cons n by simp
  qed simp
qed

end
