(* ===== verification/Json.thy ===== *)
theory Json
  imports BTree "HOL-Library.Multiset"
begin

text \<open>
  \<open>serde_json::Value\<close>, the data that requests, responses, schemas and change sets are made
  of. The lock file resolves \<open>serde_json\<close> with \<open>indexmap\<close> (its \<open>preserve_order\<close> feature),
  so an object is the list of its members in insertion order, \<open>insert\<close> replaces in place
  or appends, \<open>remove\<close> moves the last member into the gap, and equality does not look at
  the order. A number is one of the three representations of \<open>serde_json::Number\<close>; a
  float is its IEEE bit pattern, always finite.
\<close>

section \<open>Values\<close>

datatype num = PosInt u64 | NegInt "64 word" | Float "64 word"

datatype json =
    JNull
  | JBool bool
  | JNum num
  | JStr string
  | JArr "json list"
  | JObj "(string \<times> json) list"

type_synonym jmap = "(string \<times> json) list"

fun is_null :: "json \<Rightarrow> bool" where
  "is_null JNull = True" | "is_null _ = False"

fun as_str :: "json \<Rightarrow> string option" where
  "as_str (JStr s) = Some s" | "as_str _ = None"

fun as_u64 :: "json \<Rightarrow> u64 option" where
  "as_u64 (JNum (PosInt n)) = Some n" | "as_u64 _ = None"

fun as_object :: "json \<Rightarrow> jmap option" where
  "as_object (JObj m) = Some m" | "as_object _ = None"

fun as_array :: "json \<Rightarrow> json list option" where
  "as_array (JArr xs) = Some xs" | "as_array _ = None"

fun is_object :: "json \<Rightarrow> bool" where
  "is_object (JObj _) = True" | "is_object _ = False"

lemma is_object_iff: "is_object v \<longleftrightarrow> (\<exists>m. v = JObj m)"
  by (cases v) auto

lemma as_str_Some_iff [simp]: "as_str v = Some s \<longleftrightarrow> v = JStr s"
  by (cases v) auto

lemma as_object_Some_iff [simp]: "as_object v = Some m \<longleftrightarrow> v = JObj m"
  by (cases v) auto

lemma as_array_Some_iff [simp]: "as_array v = Some xs \<longleftrightarrow> v = JArr xs"
  by (cases v) auto

lemma as_u64_Some_iff [simp]: "as_u64 v = Some n \<longleftrightarrow> v = JNum (PosInt n)"
  by (cases v rule: as_u64.cases) auto

section \<open>Objects\<close>

definition obj_get :: "jmap \<Rightarrow> string \<Rightarrow> json option" where
  "obj_get m k = map_of m k"

fun obj_insert :: "string \<Rightarrow> json \<Rightarrow> jmap \<Rightarrow> jmap" where
  "obj_insert k v [] = [(k, v)]"
| "obj_insert k v ((l, w) # m) = (if k = l then (l, v) # m else (l, w) # obj_insert k v m)"

definition swap_last :: "'a list \<Rightarrow> 'a list" where
  "swap_last xs = (case xs of [] \<Rightarrow> [] | _ \<Rightarrow> last xs # butlast xs)"

fun obj_remove :: "string \<Rightarrow> jmap \<Rightarrow> jmap" where
  "obj_remove k [] = []"
| "obj_remove k ((l, w) # m) = (if k = l then swap_last m else (l, w) # obj_remove k m)"

definition obj_contains_key :: "jmap \<Rightarrow> string \<Rightarrow> bool" where
  "obj_contains_key m k \<longleftrightarrow> obj_get m k \<noteq> None"

definition obj_wf :: "jmap \<Rightarrow> bool" where
  "obj_wf m \<longleftrightarrow> distinct (map fst m)"

text \<open>\<open>Value::get\<close> with a string index.\<close>

definition jget :: "json \<Rightarrow> string \<Rightarrow> json option" where
  "jget v k = (case v of JObj m \<Rightarrow> obj_get m k | _ \<Rightarrow> None)"

lemma mset_swap_last [simp]: "mset (swap_last xs) = mset xs"
proof (cases "xs = []")
  case False
  then have "mset (butlast xs) + {#last xs#} = mset xs"
    by (metis append_butlast_last_id mset_append mset.simps)
  with False show ?thesis by (cases xs) (auto simp: swap_last_def)
qed (simp add: swap_last_def)

lemma set_swap_last [simp]: "set (swap_last xs) = set xs"
  by (metis mset_swap_last set_mset_mset)

lemma distinct_map_swap_last [simp]:
  "distinct (map f (swap_last xs)) \<longleftrightarrow> distinct (map f xs)"
  by (rule mset_eq_imp_distinct_iff) simp

lemma keys_obj_insert: "fst ` set (obj_insert k v m) = insert k (fst ` set m)"
  by (induction k v m rule: obj_insert.induct) auto

lemma map_of_obj_insert: "map_of (obj_insert k v m) = (map_of m)(k \<mapsto> v)"
  by (induction k v m rule: obj_insert.induct) auto

lemma obj_wf_insert: "obj_wf m \<Longrightarrow> obj_wf (obj_insert k v m)"
proof (induction k v m rule: obj_insert.induct)
  case (2 k v l w m)
  then show ?case using keys_obj_insert [of k v m] by (auto simp: obj_wf_def)
qed (simp add: obj_wf_def)

lemma set_obj_remove: "obj_wf m \<Longrightarrow> set (obj_remove k m) = {p \<in> set m. fst p \<noteq> k}"
proof (induction k m rule: obj_remove.induct)
  case (2 k l w m)
  then show ?case by (force simp: obj_wf_def)
qed simp

lemma obj_wf_remove: "obj_wf m \<Longrightarrow> obj_wf (obj_remove k m)"
proof (induction k m rule: obj_remove.induct)
  case (2 k l w m)
  then show ?case
    using set_obj_remove [of m k] by (auto simp: obj_wf_def distinct_map_swap_last)
qed simp

lemma map_of_obj_remove:
  assumes "obj_wf m"
  shows "map_of (obj_remove k m) k' = (if k' = k then None else map_of m k')"
proof -
  have "map_of (obj_remove k m) k' = Some v \<longleftrightarrow> (if k' = k then None else map_of m k') = Some v" for v
    using assms obj_wf_remove [OF assms, of k] set_obj_remove [OF assms, of k]
    by (auto simp: obj_wf_def)
  then show ?thesis by (metis not_Some_eq)
qed

interpretation obj: key_map "[] :: jmap" obj_get obj_insert obj_remove "\<lambda>m. m" obj_wf
  by unfold_locales
    (auto simp: obj_get_def map_of_obj_insert map_of_obj_remove obj_wf_insert obj_wf_remove,
     auto simp: obj_wf_def)

lemmas obj_lookup = obj.get_emp obj.get_ins obj.get_rem

section \<open>Well-formed values and equality\<close>

text \<open>Every object of a \<open>Value\<close> has distinct keys; \<open>json_wf\<close> says so at every depth.\<close>

fun json_wf :: "json \<Rightarrow> bool" where
  "json_wf (JArr xs) = list_all json_wf xs"
| "json_wf (JObj m) = (obj_wf m \<and> list_all (\<lambda>(k, v). json_wf v) m)"
| "json_wf _ = True"

definition float_eq :: "64 word \<Rightarrow> 64 word \<Rightarrow> bool" where
  "float_eq a b \<longleftrightarrow> a = b \<or> push_bit 1 a = 0 \<and> push_bit 1 b = 0"

fun num_eq :: "num \<Rightarrow> num \<Rightarrow> bool" where
  "num_eq (Float a) (Float b) = float_eq a b"
| "num_eq m n = (m = n)"

text \<open>\<open>Value == Value\<close>: objects compare as maps, floats as IEEE numbers.\<close>

function (sequential) json_eq :: "json \<Rightarrow> json \<Rightarrow> bool" where
  "json_eq (JNum m) (JNum n) = num_eq m n"
| "json_eq (JArr xs) (JArr ys) =
     (length xs = length ys \<and> list_all (\<lambda>(x, y). json_eq x y) (zip xs ys))"
| "json_eq (JObj m) (JObj n) =
     (length m = length n \<and>
      list_all (\<lambda>(k, v). case map_of n k of None \<Rightarrow> False | Some w \<Rightarrow> json_eq v w) m)"
| "json_eq v w = (v = w)"
  by pat_completeness auto
termination
proof (relation "measure (\<lambda>(v, w). size v)")
  fix xs ys :: "json list" and p x y
  assume "p \<in> set (zip xs ys)" "(x, y) = p"
  then have "x \<in> set xs" by (auto dest: set_zip_leftD)
  then show "((x, y), JArr xs, JArr ys) \<in> measure (\<lambda>(v, w). size v)"
    using size_list_estimation' [of x xs "size x" size] by simp
next
  fix m n :: jmap and p k v w
  assume "p \<in> set m" "(k, v) = p"
  then have "size v \<le> size_list (size_prod (\<lambda>x. 0) size) m"
    using size_list_estimation' [of p m "size v" "size_prod (\<lambda>x. 0) size"] by auto
  then show "((v, w), JObj m, JObj n) \<in> measure (\<lambda>(v, w). size v)" by simp
qed simp

lemma num_eq_refl [simp]: "num_eq n n"
  by (cases n) (simp_all add: float_eq_def)

lemma num_eq_sym: "num_eq m n \<Longrightarrow> num_eq n m"
  by (cases m; cases n) (auto simp: float_eq_def)

lemma json_eq_refl: "json_wf v \<Longrightarrow> json_eq v v"
proof (induction v)
  case (JArr xs)
  then show ?case by (auto simp: list_all_iff set_zip)
next
  case (JObj m)
  have "case map_of m k of None \<Rightarrow> False | Some w \<Rightarrow> json_eq v w" if "(k, v) \<in> set m" for k v
  proof -
    have "map_of m k = Some v" using JObj.prems that by (simp add: obj_wf_def)
    moreover have "json_eq v v" using JObj.IH [OF that, of v] JObj.prems that
      by (auto simp: list_all_iff)
    ultimately show ?thesis by simp
  qed
  then show ?case by (auto simp: list_all_iff)
qed simp_all

text \<open>A value and all the values inside it.\<close>

fun json_parts :: "json \<Rightarrow> json list" where
  "json_parts (JArr xs) = JArr xs # concat (map json_parts xs)"
| "json_parts (JObj m) = JObj m # concat (map (\<lambda>(k, x). json_parts x) m)"
| "json_parts v = [v]"

end
