(* ===== verification/Catalog.thy ===== *)
theory Catalog
  imports Grant Json
begin

text \<open>
  \<open>catalog.rs\<close>, first part: the data of the operation catalog, the rules that one operation
  record must meet before it is used, the parse loop with its uniqueness checks and index,
  and the derivation of tool names. Reading JSON text (serde), SHA-256 and its hexadecimal
  form are code outside the repository: they are the arguments \<open>read_document\<close>,
  \<open>read_value\<close> and \<open>digest_hex\<close> of the definitions that call them.
\<close>

section \<open>Data\<close>

text \<open>The text of a wrapped \<open>serde_json::Error\<close> is kept as a string.\<close>

datatype catalog_error = CatalogJson string | CatalogInvalid string

record mist_catalog_source =
  src_url :: string
  src_revision :: string
  src_sha256 :: string
  src_openapi_version :: string
  src_api_version :: string

datatype target_selector = SelNone | SelOrg | SelSite | SelMsp

datatype pagination_mode = PagNone | PageLimit | SearchAfter

datatype verification_policy = VerNone | ApiAcknowledged | FollowUpRead

record mist_parameter =
  param_name :: string
  param_location :: string
  param_required :: bool
  param_schema :: json

type_synonym media_schemas = "(string, json) btree"

record mist_operation =
  operation_key :: string
  operation_id :: string
  op_tool :: string
  op_method :: string
  op_path :: string
  op_scope :: string
  op_summary :: string
  openapi_tags :: "string list"
  capability :: mist_capability
  op_action :: mist_action
  classification_reason :: string
  classification_source_fingerprint :: string
  parameters :: "mist_parameter list"
  target_selectors :: "target_selector list"
  request_media_types :: "string list"
  request_schemas :: media_schemas
  request_body_required :: bool
  response_media_types :: "string list"
  responses :: "(string, media_schemas) btree"
  pagination :: pagination_mode
  verification :: verification_policy
  follow_up_operation_id :: "string option"
  verification_predicate :: "string option"
  verification_reason :: "string option"
  op_transport :: string
  source_fingerprint :: string

record media_accounting =
  json_only_operations :: u16
  multipart_only_operations :: u8
  mixed_media_operations :: u8
  json_media_entries :: u16
  multipart_media_entries :: u8

record catalog_audit =
  reference_commit :: string
  operation_wrappers :: u16
  meta_tools :: u8
  missing_current_operations :: u8
  stale_unmatched_wrappers :: u8
  stale_wrapper_tools :: "string list"
  audit_media_accounting :: media_accounting

record catalog_document =
  catalog_version :: u8
  doc_platform :: string
  doc_source :: mist_catalog_source
  doc_components :: json
  doc_operations :: "mist_operation list"
  doc_audit :: catalog_audit

text \<open>
  A loaded catalog. The lazily computed \<open>relaxed_components\<close> and the validator cache are
  not part of its identity; they are modelled in \<open>Relax\<close>.
\<close>

record catalog =
  cat_source :: mist_catalog_source
  cat_components :: json
  cat_operations :: "mist_operation list"
  cat_audit :: catalog_audit
  operation_index :: "(string, nat) btree"

section \<open>The rules for one operation record\<close>

definition is_lower_hex_digest :: "string \<Rightarrow> bool" where
  "is_lower_hex_digest v \<longleftrightarrow> length v = 64 \<and> list_all (\<lambda>c. is_ascii_digit c \<or> is_lower_af c) v"

definition safe_segment :: "string \<Rightarrow> bool" where
  "safe_segment segment =
     (if segment = [] \<or> segment = ''.'' \<or> segment = ''..'' then False
      else case (case strip_prefix ''{'' segment of None \<Rightarrow> None
                 | Some s \<Rightarrow> strip_suffix_char (CHR ''}'') s) of
        Some parameter \<Rightarrow>
          parameter \<noteq> [] \<and> is_ascii_alphabetic (hd parameter)
          \<and> list_all (\<lambda>c. is_ascii_alphanumeric c \<or> c = CHR ''_'') parameter
      | None \<Rightarrow> CHR ''{'' \<notin> set segment \<and> CHR ''}'' \<notin> set segment)"

definition safe_path :: "string \<Rightarrow> bool" where
  "safe_path path =
     (case strip_prefix ''/api/v1/'' path of
        None \<Rightarrow> False
      | Some rest \<Rightarrow> rest \<noteq> [] \<and> CHR ''?'' \<notin> set path \<and> CHR ''#'' \<notin> set path
          \<and> list_all safe_segment (split_on (CHR ''/'') rest))"

definition scope_for_path :: "string \<Rightarrow> string option" where
  "scope_for_path path =
     (case strip_prefix ''/api/v1/'' path of None \<Rightarrow> None
      | Some rest \<Rightarrow> Some (hd (split_on (CHR ''/'') rest)))"

definition targets_for_path :: "string \<Rightarrow> target_selector list" where
  "targets_for_path path =
     (let targets =
        (if str_contains ''{org_id}'' path then [SelOrg] else [])
        @ (if str_contains ''{site_id}'' path then [SelSite] else [])
        @ (if str_contains ''{msp_id}'' path then [SelMsp] else [])
      in if targets = [] then [SelNone] else targets)"

definition method_allows_action :: "string \<Rightarrow> mist_action \<Rightarrow> bool" where
  "method_allows_action m action =
     (if m = ''GET'' then
        action = OrdinaryRead \<or> action = PrivilegedRead \<or> action = Update \<or> action = Execute
      else if m = ''PUT'' \<or> m = ''PATCH'' then action = Update \<or> action = Execute
      else if m = ''DELETE'' then action = Delete
      else if m = ''POST'' then
        action = Create \<or> action = Update \<or> action = Delete \<or> action = Execute
      else False)"

definition canonical_request_media :: "media_schemas \<Rightarrow> catalog_error + string list" where
  "canonical_request_media schemas =
     (let media = bt_keys schemas in
      if list_ex (\<lambda>m. m \<noteq> ''application/json'' \<and> m \<noteq> ''multipart/form-data'') media
      then Inl (CatalogInvalid ''unsupported request media'')
      else Inr media)"

definition transport_for_media :: "string list \<Rightarrow> catalog_error + string" where
  "transport_for_media media =
     (if media = [] then Inr ''none''
      else if media = [''application/json''] then Inr ''json''
      else if media = [''multipart/form-data''] then Inr ''multipart''
      else if media = [''application/json'', ''multipart/form-data''] then Inr ''content_type_select''
      else Inl (CatalogInvalid ''unsupported request-media combination''))"

definition pagination_for_parameters :: "mist_parameter list \<Rightarrow> pagination_mode" where
  "pagination_for_parameters ps =
     (let names = map param_name (filter (\<lambda>p. param_location p = ''query'') ps) in
      if ''search_after'' \<in> set names then SearchAfter
      else if ''page'' \<in> set names \<or> ''limit'' \<in> set names then PageLimit
      else PagNone)"

definition response_media :: "(string, media_schemas) btree \<Rightarrow> string list" where
  "response_media rs = sorted_list_of_set (set (concat (map bt_keys (bt_values rs))))"

section \<open>Tool names\<close>

text \<open>
  \<open>Catalog::tool_name\<close>. The identifier is ASCII once the guard has passed, so \<open>chars\<close> are
  bytes. The loop carries the previous character and the word so far; \<open>quoted\<close> stands for
  the \<open>Debug\<close> form of a string, whose escapes are not modelled.
\<close>

definition quoted :: "string \<Rightarrow> string" where
  "quoted s = char_of (34 :: nat) # s @ [char_of (34 :: nat)]"

definition word_replacements :: "(string \<times> string) list" where
  "word_replacements =
     [(''OAuth2'', ''Oauth2''), (''OAUTH2'', ''Oauth2''), (''WiFi'', ''Wifi''), (''WIFI'', ''Wifi''),
      (''IoT'', ''Iot''), (''IOT'', ''Iot''), (''AOSCX'', ''Aoscx'')]"

definition normalize_words :: "string \<Rightarrow> string" where
  "normalize_words i = fold (\<lambda>(from, to) s. str_replace from to s) word_replacements i"

definition word_boundary :: "char option \<Rightarrow> char \<Rightarrow> char option \<Rightarrow> bool" where
  "word_boundary previous character following =
     (is_ascii_uppercase character \<and>
      (case previous of None \<Rightarrow> False
       | Some v \<Rightarrow> is_ascii_lowercase v \<or> is_ascii_digit v
           \<or> is_ascii_uppercase v \<and> (case following of None \<Rightarrow> False | Some f \<Rightarrow> is_ascii_lowercase f)))"

fun tool_words :: "char option \<Rightarrow> string \<Rightarrow> string list \<Rightarrow> string \<Rightarrow> string list" where
  "tool_words previous word words [] =
     (if word \<noteq> [] then words @ [to_ascii_lowercase word] else words)"
| "tool_words previous word words (c # cs) =
     (if word_boundary previous c (case cs of [] \<Rightarrow> None | f # _ \<Rightarrow> Some f)
      then tool_words (Some c) [c] (words @ [to_ascii_lowercase word]) cs
      else tool_words (Some c) (word @ [c]) words cs)"

definition safe_operation_id :: "string \<Rightarrow> bool" where
  "safe_operation_id i \<longleftrightarrow> i \<noteq> [] \<and> is_ascii_alphabetic (hd i) \<and> list_all is_ascii_alphanumeric i"

definition tool_name :: "string \<Rightarrow> catalog_error + string" where
  "tool_name i =
     (if \<not> safe_operation_id i then Inl (CatalogInvalid (''unsafe operation ID: '' @ quoted i))
      else let name = ''mist_'' @ join ''_'' (tool_words None [] [] (normalize_words i)) in
        if \<not> list_all (\<lambda>c. is_ascii_lowercase c \<or> is_ascii_digit c \<or> c = CHR ''_'') name
        then Inl (CatalogInvalid (''unsafe derived tool name: '' @ quoted name))
        else Inr name)"

section \<open>Validation and the parse loop\<close>

definition expected_audit_media :: media_accounting where
  "expected_audit_media = \<lparr>json_only_operations = 337, multipart_only_operations = 16,
     mixed_media_operations = 7, json_media_entries = 344, multipart_media_entries = 23\<rparr>"

definition validate_document :: "catalog_document \<Rightarrow> catalog_error + unit" where
  "validate_document document =
     (if catalog_version document \<noteq> 1
        \<or> doc_platform document \<noteq> ''mist''
        \<or> src_url (doc_source document)
            \<noteq> ''https://raw.githubusercontent.com/mistsys/mist_openapi/master/mist.openapi.json''
        \<or> src_revision (doc_source document) \<noteq> ''feeb569a409dcc5119c4d8935c99cc46d482d770''
        \<or> src_sha256 (doc_source document)
            \<noteq> ''22f55432535ab38f6c0539392a729b8fd515a9ccae9df693fbd4ff23d40b8fac''
        \<or> src_openapi_version (doc_source document) \<noteq> ''3.1.0''
        \<or> src_api_version (doc_source document) \<noteq> ''2609.1.0''
        \<or> length (doc_operations document) \<noteq> 1072
      then Inl (CatalogInvalid ''unexpected catalog source or operation count'')
      else let audit = doc_audit document in
        if reference_commit audit \<noteq> ''2b91700b9049c2c27ce6a811a272f2ddfa8091e5''
          \<or> operation_wrappers audit \<noteq> 1050
          \<or> meta_tools audit \<noteq> 3
          \<or> missing_current_operations audit \<noteq> 25
          \<or> stale_unmatched_wrappers audit \<noteq> 3
          \<or> stale_wrapper_tools audit
              \<noteq> [''mist_count_site_client_fingerprints'', ''mist_get_org_aos_register_cmd'',
                 ''mist_search_site_client_fingerprints'']
          \<or> audit_media_accounting audit \<noteq> expected_audit_media
          \<or> \<not> is_object (doc_components document)
        then Inl (CatalogInvalid ''unexpected frozen audit or components registry'')
        else Inr ())"

definition invalid_operation :: "mist_operation \<Rightarrow> catalog_error" where
  "invalid_operation p = CatalogInvalid (''invalid operation record: '' @ operation_id p)"

definition validate_operation :: "mist_operation \<Rightarrow> string option \<Rightarrow> catalog_error + unit" where
  "validate_operation p previous_key =
     (let invalid = Inl (invalid_operation p) in
      if (case previous_key of None \<Rightarrow> False | Some previous \<Rightarrow> previous \<ge> operation_key p)
        \<or> \<not> safe_path (op_path p)
        \<or> operation_key p \<noteq> op_method p @ '' '' @ op_path p
        \<or> scope_for_path (op_path p) \<noteq> Some (op_scope p)
      then invalid
      else and_then (tool_name (operation_id p)) (\<lambda>name.
      if name \<noteq> op_tool p
        \<or> op_method p \<notin> {''GET'', ''POST'', ''PUT'', ''PATCH'', ''DELETE''}
        \<or> capability p \<noteq> op_action p
        \<or> classification_reason p = []
        \<or> \<not> is_lower_hex_digest (classification_source_fingerprint p)
        \<or> \<not> method_allows_action (op_method p) (op_action p)
        \<or> target_selectors p \<noteq> targets_for_path (op_path p)
      then invalid
      else and_then (canonical_request_media (request_schemas p)) (\<lambda>media.
      if request_media_types p \<noteq> media
        \<or> request_body_required p \<and> request_media_types p = []
      then invalid
      else and_then (transport_for_media (request_media_types p)) (\<lambda>transport.
      if op_transport p \<noteq> transport
        \<or> pagination p \<noteq> pagination_for_parameters (parameters p)
        \<or> response_media (responses p) \<noteq> response_media_types p
        \<or> list_ex (\<lambda>q. \<not> is_object (param_schema q)) (parameters p)
        \<or> list_ex (\<lambda>schema. \<not> is_object schema) (bt_values (request_schemas p))
        \<or> list_ex (\<lambda>media. list_ex (\<lambda>schema. \<not> is_object schema) (bt_values media))
            (bt_values (responses p))
      then invalid
      else if \<not> is_lower_hex_digest (source_fingerprint p)
      then Inl (CatalogInvalid (''invalid source fingerprint syntax: '' @ operation_id p))
      else Inr ()))))"

definition list_get :: "'a list \<Rightarrow> nat \<Rightarrow> 'a option" where
  "list_get xs i = (if i < length xs then Some (xs ! i) else None)"

definition index_get :: "(string, nat) btree \<Rightarrow> 'a list \<Rightarrow> string \<Rightarrow> 'a option" where
  "index_get ix xs i = (case bt_get ix i of None \<Rightarrow> None | Some n \<Rightarrow> list_get xs n)"

definition verify_operation ::
  "mist_operation list \<Rightarrow> (string, nat) btree \<Rightarrow> mist_operation \<Rightarrow> catalog_error + unit" where
  "verify_operation operations index p =
     (if verification p = VerNone \<and> (op_action p = OrdinaryRead \<or> op_action p = PrivilegedRead)
        \<and> follow_up_operation_id p = None \<and> verification_predicate p = None
        \<and> verification_reason p = None
      then Inr ()
      else if verification p = FollowUpRead \<and> verification_reason p = None
        \<and> verification_predicate p = Some ''request_projection_equals_response''
      then
        and_then (ok_or (CatalogInvalid (''missing follow-up read for '' @ operation_id p))
          (follow_up_operation_id p)) (\<lambda>follow_up_id.
        and_then (ok_or (CatalogInvalid (''unknown follow-up read for '' @ operation_id p))
          (index_get index operations follow_up_id)) (\<lambda>follow_up.
        if op_method follow_up \<noteq> ''GET''
        then Inl (CatalogInvalid (''non-read follow-up for '' @ operation_id p))
        else Inr ()))
      else if verification p = ApiAcknowledged \<and> follow_up_operation_id p = None
        \<and> verification_predicate p = None
        \<and> (case verification_reason p of None \<Rightarrow> False | Some reason \<Rightarrow> reason \<noteq> [])
      then Inr ()
      else Inl (CatalogInvalid (''invalid verification policy for '' @ operation_id p)))"

definition validate_verification ::
  "mist_operation list \<Rightarrow> (string, nat) btree \<Rightarrow> catalog_error + unit" where
  "validate_verification operations index = try_each (verify_operation operations index) operations"

section \<open>Fingerprints\<close>

text \<open>\<open>canonical_json\<close> rebuilds every object through a \<open>BTreeMap\<close>: its members in key order.\<close>

fun canonical_json :: "json \<Rightarrow> json" where
  "canonical_json (JArr xs) = JArr (map canonical_json xs)"
| "canonical_json (JObj m) = JObj (bt_from (map (\<lambda>(k, v). (k, canonical_json v)) m))"
| "canonical_json v = v"

text \<open>
  \<open>raw_operation_fingerprint\<close>. \<open>to_vec\<close> is \<open>serde_json::to_vec\<close>, \<open>digest_hex\<close> the
  hexadecimal SHA-256 of a byte string.
\<close>

definition raw_operation_fingerprint ::
  "(json \<Rightarrow> string) \<Rightarrow> (string \<Rightarrow> string) \<Rightarrow> json \<Rightarrow> catalog_error + string" where
  "raw_operation_fingerprint to_vec digest_hex operation =
     and_then (ok_or (CatalogInvalid ''operation serialization is not an object'')
       (as_object operation)) (\<lambda>m.
     let canonical = to_vec (canonical_json (JObj (obj_remove ''source_fingerprint'' m)))
     in Inr (digest_hex (canonical @ [char_of (10 :: nat)])))"

text \<open>The check of one operation against the raw document, when there is one.\<close>

definition check_fingerprint ::
  "(json \<Rightarrow> string) \<Rightarrow> (string \<Rightarrow> string) \<Rightarrow> json option \<Rightarrow> nat \<Rightarrow> mist_operation \<Rightarrow> catalog_error + unit" where
  "check_fingerprint to_vec digest_hex raw index p =
     (case raw of
        None \<Rightarrow> Inr ()
      | Some document \<Rightarrow>
          and_then (ok_or (CatalogInvalid ''raw operation record is absent'')
            (case jget document ''operations'' of
               Some (JArr ps) \<Rightarrow> list_get ps index
             | _ \<Rightarrow> None)) (\<lambda>raw_operation.
          and_then (raw_operation_fingerprint to_vec digest_hex raw_operation) (\<lambda>fingerprint.
          if fingerprint \<noteq> source_fingerprint p
          then Inl (CatalogInvalid (''invalid source fingerprint: '' @ operation_id p @ '' expected ''
                 @ source_fingerprint p @ '' got '' @ fingerprint))
          else Inr ())))"

section \<open>The parse loop\<close>

record parse_state =
  seen_ids :: "string set"
  seen_keys :: "string set"
  seen_tools :: "string set"
  previous_key :: "string option"
  built_index :: "(string, nat) btree"

definition parse_start :: parse_state where
  "parse_start = \<lparr>seen_ids = {}, seen_keys = {}, seen_tools = {}, previous_key = None,
     built_index = bt_empty\<rparr>"

definition parse_step ::
  "(nat \<Rightarrow> mist_operation \<Rightarrow> catalog_error + unit) \<Rightarrow> nat \<Rightarrow> mist_operation \<Rightarrow> parse_state
    \<Rightarrow> catalog_error + parse_state" where
  "parse_step check index p st =
     (if operation_id p \<in> seen_ids st \<or> operation_key p \<in> seen_keys st \<or> op_tool p \<in> seen_tools st
      then Inl (CatalogInvalid ''operation IDs, keys, and tools must be unique'')
      else and_then (validate_operation p (previous_key st)) (\<lambda>_.
        and_then (check index p) (\<lambda>_.
        Inr \<lparr>seen_ids = insert (operation_id p) (seen_ids st),
             seen_keys = insert (operation_key p) (seen_keys st),
             seen_tools = insert (op_tool p) (seen_tools st),
             previous_key = Some (operation_key p),
             built_index = bt_insert (operation_id p) index (built_index st)\<rparr>)))"

fun parse_loop ::
  "(nat \<Rightarrow> mist_operation \<Rightarrow> catalog_error + unit) \<Rightarrow> nat \<Rightarrow> mist_operation list \<Rightarrow> parse_state
    \<Rightarrow> catalog_error + parse_state" where
  "parse_loop check index [] st = Inr st"
| "parse_loop check index (p # ps) st =
     and_then (parse_step check index p st) (parse_loop check (Suc index) ps)"

definition index_operations ::
  "(nat \<Rightarrow> mist_operation \<Rightarrow> catalog_error + unit) \<Rightarrow> mist_operation list
    \<Rightarrow> catalog_error + (string, nat) btree" where
  "index_operations check ps =
     and_then (parse_loop check 0 ps parse_start) (\<lambda>st.
     and_then (validate_verification ps (built_index st)) (\<lambda>_. Inr (built_index st)))"

datatype fingerprints = VerifyFingerprints | TrustFingerprints

definition catalog_parse ::
  "(string \<Rightarrow> string + catalog_document) \<Rightarrow> (string \<Rightarrow> string + json) \<Rightarrow> (json \<Rightarrow> string)
    \<Rightarrow> (string \<Rightarrow> string) \<Rightarrow> string \<Rightarrow> fingerprints \<Rightarrow> catalog_error + catalog" where
  "catalog_parse read_document read_value to_vec digest_hex text fps =
     and_then (map_err CatalogJson (read_document text)) (\<lambda>document.
     and_then (validate_document document) (\<lambda>_.
     and_then (case fps of
         VerifyFingerprints \<Rightarrow> map_err CatalogJson (and_then (read_value text) (\<lambda>v. Inr (Some v)))
       | TrustFingerprints \<Rightarrow> Inr None) (\<lambda>raw.
     and_then (index_operations (check_fingerprint to_vec digest_hex raw) (doc_operations document))
       (\<lambda>index.
     Inr \<lparr>cat_source = doc_source document, cat_components = doc_components document,
          cat_operations = doc_operations document, cat_audit = doc_audit document,
          operation_index = index\<rparr>))))"

definition from_json ::
  "(string \<Rightarrow> string + catalog_document) \<Rightarrow> (string \<Rightarrow> string + json) \<Rightarrow> (json \<Rightarrow> string)
    \<Rightarrow> (string \<Rightarrow> string) \<Rightarrow> string \<Rightarrow> catalog_error + catalog" where
  "from_json read_document read_value to_vec digest_hex text =
     catalog_parse read_document read_value to_vec digest_hex text VerifyFingerprints"

definition embedded ::
  "(string \<Rightarrow> string + catalog_document) \<Rightarrow> (string \<Rightarrow> string + json) \<Rightarrow> (json \<Rightarrow> string)
    \<Rightarrow> (string \<Rightarrow> string) \<Rightarrow> string \<Rightarrow> catalog_error + catalog" where
  "embedded read_document read_value to_vec digest_hex embedded_catalog_json =
     catalog_parse read_document read_value to_vec digest_hex embedded_catalog_json TrustFingerprints"

definition catalog_operation :: "catalog \<Rightarrow> string \<Rightarrow> mist_operation option" where
  "catalog_operation c i = index_get (operation_index c) (cat_operations c) i"

section \<open>What the loop establishes\<close>

text \<open>
  The invariant of the loop after it has consumed \<open>done\<close>: the three sets are the
  identifiers, keys and tools seen, without repetition, the keys are strictly increasing, every
  record is valid, and the index sends each identifier to its position.
\<close>

definition op_valid :: "mist_operation \<Rightarrow> bool" where
  "op_valid p \<longleftrightarrow> validate_operation p None = Inr ()"

definition index_ok :: "mist_operation list \<Rightarrow> (string, nat) btree \<Rightarrow> bool" where
  "index_ok ps ix \<longleftrightarrow> bt_wf ix \<and>
     (\<forall>i n. bt_get ix i = Some n \<longleftrightarrow> n < length ps \<and> operation_id (ps ! n) = i)"

definition loop_inv :: "mist_operation list \<Rightarrow> parse_state \<Rightarrow> bool" where
  "loop_inv seen st \<longleftrightarrow>
     seen_ids st = operation_id ` set seen \<and> distinct (map operation_id seen) \<and>
     seen_keys st = operation_key ` set seen \<and> seen_tools st = op_tool ` set seen \<and>
     distinct (map op_tool seen) \<and> sorted_wrt (<) (map operation_key seen) \<and>
     previous_key st = (if seen = [] then None else Some (operation_key (last seen))) \<and>
     list_all op_valid seen \<and> index_ok seen (built_index st)"

lemma validate_operation_previous:
  "validate_operation p prev = Inr () \<longleftrightarrow>
     op_valid p \<and> (case prev of None \<Rightarrow> True | Some k \<Rightarrow> k < operation_key p)"
  by (cases prev) (auto simp: op_valid_def validate_operation_def Let_def not_le)

lemma sorted_wrt_snoc_last:
  fixes xs :: "('a::linorder) list"
  assumes "sorted_wrt (<) xs" "xs \<noteq> [] \<Longrightarrow> last xs < x"
  shows "sorted_wrt (<) (xs @ [x])"
proof -
  show ?thesis
  proof (cases "xs = []")
    case False
    obtain ys z where xs: "xs = ys @ [z]" using False by (cases xs rule: rev_cases) auto
    then have "z < x" "\<forall>y \<in> set ys. y < z" using assms by (auto simp: sorted_wrt_append)
    with assms(1) xs show ?thesis by (auto simp: sorted_wrt_append)
  qed simp
qed

lemma index_ok_snoc:
  assumes "index_ok ps ix" "operation_id p \<notin> operation_id ` set ps"
  shows "index_ok (ps @ [p]) (bt_insert (operation_id p) (length ps) ix)"
proof -
  have "bt_wf ix" using assms(1) by (simp add: index_ok_def)
  moreover have "operation_id (ps ! n) \<noteq> operation_id p" if "n < length ps" for n
    using assms(2) that by (metis image_eqI nth_mem)
  ultimately show ?thesis
    using assms(1) by (auto simp: index_ok_def bt_lookup bt.wf_ins nth_append less_Suc_eq)
qed

lemma loop_inv_step:
  assumes inv: "loop_inv seen st" and step: "parse_step check (length seen) p st = Inr st'"
  shows "loop_inv (seen @ [p]) st' \<and> check (length seen) p = Inr ()"
proof -
  from step have new: "operation_id p \<notin> seen_ids st" "operation_key p \<notin> seen_keys st"
      "op_tool p \<notin> seen_tools st"
    and valid: "validate_operation p (previous_key st) = Inr ()"
    and chk: "check (length seen) p = Inr ()"
    and st': "st' = \<lparr>seen_ids = insert (operation_id p) (seen_ids st),
        seen_keys = insert (operation_key p) (seen_keys st),
        seen_tools = insert (op_tool p) (seen_tools st), previous_key = Some (operation_key p),
        built_index = bt_insert (operation_id p) (length seen) (built_index st)\<rparr>"
    by (auto simp: parse_step_def split: if_splits)
  have "sorted_wrt (<) (map operation_key seen @ [operation_key p])"
    using inv valid by (intro sorted_wrt_snoc_last)
      (auto simp: loop_inv_def validate_operation_previous last_map)
  with inv new valid chk index_ok_snoc [of seen "built_index st" p] show ?thesis
    by (auto simp: loop_inv_def st' validate_operation_previous)
qed

lemma loop_inv_loop:
  "parse_loop check (length seen) ps st = Inr st' \<Longrightarrow> loop_inv seen st \<Longrightarrow>
     loop_inv (seen @ ps) st' \<and> (\<forall>n < length ps. check (length seen + n) (ps ! n) = Inr ())"
proof (induction ps arbitrary: seen st)
  case (Cons p ps)
  then obtain st1 where st1: "parse_step check (length seen) p st = Inr st1"
      "parse_loop check (Suc (length seen)) ps st1 = Inr st'"
    by (auto simp: and_then_Inr_iff)
  from loop_inv_step [OF Cons.prems(2) st1(1)]
  have inv1: "loop_inv (seen @ [p]) st1" and c: "check (length seen) p = Inr ()" by auto
  have "parse_loop check (length (seen @ [p])) ps st1 = Inr st'" using st1(2) by simp
  from Cons.IH [OF this inv1] c show ?case
    by (auto simp: less_Suc_eq_0_disj)
qed simp

lemma loop_inv_start: "loop_inv [] parse_start"
  by (simp add: loop_inv_def parse_start_def index_ok_def bt.wf_emp bt_lookup)

lemma index_operations_Inr:
  assumes "index_operations check ps = Inr ix"
  shows "index_ok ps ix" "distinct (map operation_id ps)" "distinct (map op_tool ps)"
    "sorted_wrt (<) (map operation_key ps)" "list_all op_valid ps"
    "validate_verification ps ix = Inr ()" "n < length ps \<Longrightarrow> check n (ps ! n) = Inr ()"
proof -
  obtain st where st: "parse_loop check 0 ps parse_start = Inr st" "ix = built_index st"
      "validate_verification ps ix = Inr ()"
    using assms by (auto simp: index_operations_def and_then_Inr_iff)
  have "loop_inv ps st \<and> (\<forall>n < length ps. check n (ps ! n) = Inr ())"
    using loop_inv_loop [of check "[]" ps parse_start st] st(1) loop_inv_start by simp
  with st show "index_ok ps ix" "distinct (map operation_id ps)" "distinct (map op_tool ps)"
    "sorted_wrt (<) (map operation_key ps)" "list_all op_valid ps"
    "validate_verification ps ix = Inr ()" "n < length ps \<Longrightarrow> check n (ps ! n) = Inr ()"
    by (auto simp: loop_inv_def)
qed

lemma index_get_iff:
  assumes "index_ok ps ix"
  shows "index_get ix ps i = Some p \<longleftrightarrow> p \<in> set ps \<and> operation_id p = i"
proof
  assume "index_get ix ps i = Some p"
  then show "p \<in> set ps \<and> operation_id p = i"
    using assms by (auto simp: index_get_def index_ok_def list_get_def split: option.splits if_splits)
next
  assume "p \<in> set ps \<and> operation_id p = i"
  then obtain n where n: "n < length ps" "ps ! n = p" "operation_id (ps ! n) = i"
    by (auto simp: in_set_conv_nth)
  then have "bt_get ix i = Some n" using assms unfolding index_ok_def by blast
  with n show "index_get ix ps i = Some p" by (simp add: index_get_def list_get_def)
qed

section \<open>Tool names, paths and media\<close>

lemma str_replace_list_all:
  "list_all P s \<Longrightarrow> list_all P to \<Longrightarrow> list_all P (str_replace from to s)"
proof (induction s rule: length_induct)
  case (1 s)
  show ?case
  proof (cases "from = [] \<or> s = []")
    case True
    with 1 show ?thesis by (subst str_replace.simps) (auto split: list.splits)
  next
    case False
    then obtain c cs where s: "s = c # cs" "from \<noteq> []" by (cases s) auto
    show ?thesis
    proof (cases "strip_prefix from s")
      case None
      with 1 s show ?thesis by (subst str_replace.simps) auto
    next
      case (Some rest)
      then have rest: "s = from @ rest" by (simp add: strip_prefix_Some)
      with s(2) have "length rest < length s" by (cases "from") auto
      moreover have "list_all P rest" using 1(2) rest by simp
      ultimately have "list_all P (str_replace from to rest)" using 1 by blast
      with 1(3) s Some show ?thesis by (subst str_replace.simps) auto
    qed
  qed
qed

lemma fold_replace_list_all:
  "list_all (\<lambda>p. list_all P (snd p)) ps \<Longrightarrow> list_all P s \<Longrightarrow>
     list_all P (fold (\<lambda>(from, to) s. str_replace from to s) ps s)"
proof (induction ps arbitrary: s)
  case (Cons p ps)
  have "list_all P (str_replace (fst p) (snd p) s)"
    using Cons.prems by (intro str_replace_list_all) simp_all
  with Cons show ?case by (simp add: case_prod_beta)
qed simp

lemma normalize_words_alphanumeric:
  assumes "list_all is_ascii_alphanumeric i"
  shows "list_all is_ascii_alphanumeric (normalize_words i)"
proof -
  have "list_all (\<lambda>p. list_all is_ascii_alphanumeric (snd p)) word_replacements"
    by (simp add: word_replacements_def char_class_defs)
  then show ?thesis unfolding normalize_words_def using assms by (rule fold_replace_list_all)
qed

lemma concat_tool_words:
  "concat (tool_words previous word words cs) = concat words @ to_ascii_lowercase (word @ cs)"
  by (induction previous word words cs rule: tool_words.induct) (auto simp: to_ascii_lowercase_def)

lemma tool_words_nonempty:
  "(previous \<noteq> None \<longrightarrow> word \<noteq> []) \<Longrightarrow> [] \<notin> set words \<Longrightarrow>
     [] \<notin> set (tool_words previous word words cs)"
  by (induction previous word words cs rule: tool_words.induct)
    (auto simp: to_ascii_lowercase_def word_boundary_def split: option.splits)

definition tool_char :: "char \<Rightarrow> bool" where
  "tool_char c \<longleftrightarrow> is_ascii_lowercase c \<or> is_ascii_digit c"

lemma list_all_join:
  "list_all P sep \<and> list_all P (concat ws) \<Longrightarrow> list_all P (join sep ws)"
  by (induction sep ws rule: join.induct) auto

lemma tool_words_chars:
  assumes "list_all is_ascii_alphanumeric i"
  shows "list_all tool_char (concat (tool_words None [] [] (normalize_words i)))"
  using normalize_words_alphanumeric [OF assms]
  by (auto simp: concat_tool_words to_ascii_lowercase_def list_all_iff tool_char_def
      dest: to_ascii_lower_alphanumeric)

lemma tool_name_safe:
  assumes "safe_operation_id i"
  shows "tool_name i = Inr (''mist_'' @ join ''_'' (tool_words None [] [] (normalize_words i)))"
proof -
  let ?ok = "\<lambda>c. is_ascii_lowercase c \<or> is_ascii_digit c \<or> c = CHR ''_''"
  have "list_all ?ok (concat (tool_words None [] [] (normalize_words i)))"
    using tool_words_chars [of i] assms
    by (auto simp: safe_operation_id_def list_all_iff tool_char_def)
  then have "list_all ?ok (join ''_'' (tool_words None [] [] (normalize_words i)))"
    by (intro list_all_join) simp
  moreover have "list_all ?ok ''mist_''" by (simp add: char_class_defs)
  ultimately show ?thesis using assms by (simp add: tool_name_def Let_def)
qed

lemma tool_name_unsafe: "\<not> safe_operation_id i \<Longrightarrow> \<not> is_ok (tool_name i)"
  by (simp add: tool_name_def)

lemma safe_path_segments:
  "safe_path path \<longleftrightarrow>
     (\<exists>rest. path = ''/api/v1/'' @ rest \<and> rest \<noteq> [] \<and> CHR ''?'' \<notin> set path \<and> CHR ''#'' \<notin> set path
        \<and> (\<forall>segment \<in> set (split_on (CHR ''/'') rest). safe_segment segment))"
  unfolding safe_path_def list_all_iff
  by (simp only: strip_prefix_Some [symmetric]) (auto split: option.splits)

lemma safe_segment_cases:
  assumes "safe_segment s"
  shows "s \<noteq> [] \<and> s \<noteq> ''.'' \<and> s \<noteq> ''..'' \<and>
    (CHR ''{'' \<notin> set s \<and> CHR ''}'' \<notin> set s \<or>
     (\<exists>v. s = CHR ''{'' # v @ ''}'' \<and> v \<noteq> [] \<and> is_ascii_alphabetic (hd v) \<and>
        list_all (\<lambda>c. is_ascii_alphanumeric c \<or> c = CHR ''_'') v))"
proof -
  have ne: "s \<noteq> []" "s \<noteq> ''.''" "s \<noteq> ''..''"
    using assms unfolding safe_segment_def by (simp_all split: if_splits)
  let ?param = "case strip_prefix ''{'' s of None \<Rightarrow> None | Some s \<Rightarrow> strip_suffix_char (CHR ''}'') s"
  show ?thesis
  proof (cases ?param)
    case None
    with assms ne show ?thesis unfolding safe_segment_def by simp
  next
    case (Some v)
    then obtain r where r: "s = ''{'' @ r" "r \<noteq> []" "last r = CHR ''}''" "v = butlast r"
      by (auto simp: strip_prefix_Some strip_suffix_char_def split: option.splits if_splits)
    then have "r = v @ ''}''" by (metis append_butlast_last_id)
    moreover have "v \<noteq> [] \<and> is_ascii_alphabetic (hd v) \<and>
        list_all (\<lambda>c. is_ascii_alphanumeric c \<or> c = CHR ''_'') v"
      using assms ne Some unfolding safe_segment_def by simp
    ultimately show ?thesis using ne r(1) by (intro conjI disjI2 exI [of _ v]) simp_all
  qed
qed

section \<open>The rules for a record, by what they ask\<close>

text \<open>A segment is a name without braces, or one parameter in braces.\<close>

definition segment_shape :: "string \<Rightarrow> bool" where
  "segment_shape s \<longleftrightarrow> s \<noteq> [] \<and> s \<noteq> ''.'' \<and> s \<noteq> ''..'' \<and>
     (CHR ''{'' \<notin> set s \<and> CHR ''}'' \<notin> set s \<or>
      (\<exists>v. s = CHR ''{'' # v @ ''}'' \<and> v \<noteq> [] \<and> is_ascii_alphabetic (hd v) \<and>
         list_all (\<lambda>c. is_ascii_alphanumeric c \<or> c = CHR ''_'') v))"

lemma safe_segment_iff: "safe_segment s \<longleftrightarrow> segment_shape s"
proof
  assume "safe_segment s" then show "segment_shape s" unfolding segment_shape_def by (rule safe_segment_cases)
next
  assume ok: "segment_shape s"
  let ?param = "case strip_prefix ''{'' s of None \<Rightarrow> None | Some s \<Rightarrow> strip_suffix_char (CHR ''}'') s"
  show "safe_segment s"
  proof (cases "CHR ''{'' \<in> set s")
    case True
    with ok obtain v where v: "s = CHR ''{'' # v @ ''}''" "v \<noteq> []" "is_ascii_alphabetic (hd v)"
        "list_all (\<lambda>c. is_ascii_alphanumeric c \<or> c = CHR ''_'') v"
      unfolding segment_shape_def by blast
    then have "?param = Some v" by (simp add: strip_suffix_char_def)
    with v show ?thesis by (simp add: safe_segment_def)
  next
    case False
    with ok have "s \<noteq> []" "s \<noteq> ''.''" "s \<noteq> ''..''" "CHR ''}'' \<notin> set s" by (auto simp: segment_shape_def)
    moreover have "strip_prefix ''{'' s = None"
      using False by (cases "strip_prefix ''{'' s") (auto simp: strip_prefix_Some)
    ultimately show ?thesis using False by (simp add: safe_segment_def)
  qed
qed

lemma split_on_join:
  "ws \<noteq> [] \<Longrightarrow> list_all (\<lambda>w. d \<notin> set w) ws \<Longrightarrow> split_on d (join [d] ws) = ws"
proof (induction ws)
  case (Cons w ws)
  have end_word: "d \<notin> set w \<Longrightarrow> split_on d w = [w]" for w by (induction w) auto
  have step: "d \<notin> set w \<Longrightarrow> split_on d (w @ d # s) = w # split_on d s" for w s by (induction w) auto
  show ?case using Cons by (cases ws) (simp_all add: end_word step)
qed simp

definition digest_ok :: "string \<Rightarrow> bool" where
  "digest_ok v \<longleftrightarrow> length v = 64 \<and> (\<forall>c \<in> set v. is_ascii_digit c \<or> is_lower_af c)"

definition query_parameter :: "mist_operation \<Rightarrow> string \<Rightarrow> bool" where
  "query_parameter p n \<longleftrightarrow> (\<exists>q \<in> set (parameters p). param_location q = ''query'' \<and> param_name q = n)"

text \<open>The path is \<open>/api/v1/\<close> and such segments, the first of which is the scope.\<close>

definition path_ok :: "mist_operation \<Rightarrow> bool" where
  "path_ok p \<longleftrightarrow> (\<exists>segments. op_path p = ''/api/v1/'' @ join ''/'' segments \<and> segments \<noteq> [] \<and>
     list_all (\<lambda>s. segment_shape s \<and> CHR ''/'' \<notin> set s) segments \<and>
     CHR ''?'' \<notin> set (op_path p) \<and> CHR ''#'' \<notin> set (op_path p) \<and> op_scope p = hd segments)"

definition action_ok :: "mist_operation \<Rightarrow> bool" where
  "action_ok p \<longleftrightarrow> (op_method p, op_action p) \<in> set
     [(''GET'', OrdinaryRead), (''GET'', PrivilegedRead), (''GET'', Update), (''GET'', Execute),
      (''PUT'', Update), (''PUT'', Execute), (''PATCH'', Update), (''PATCH'', Execute), (''DELETE'', Delete),
      (''POST'', Create), (''POST'', Update), (''POST'', Delete), (''POST'', Execute)]"

text \<open>The media are those of the schemas, in the combinations that have a transport.\<close>

definition media_ok :: "mist_operation \<Rightarrow> bool" where
  "media_ok p \<longleftrightarrow> request_media_types p = map fst (request_schemas p) \<and>
     (request_media_types p, op_transport p) \<in> set
       [([], ''none''), ([''application/json''], ''json''), ([''multipart/form-data''], ''multipart''),
        ([''application/json'', ''multipart/form-data''], ''content_type_select'')] \<and>
     (request_body_required p \<longrightarrow> request_media_types p \<noteq> []) \<and>
     sorted_wrt (<) (response_media_types p) \<and>
     set (response_media_types p) = (\<Union>(status, media) \<in> set (responses p). fst ` set media)"

definition schemas_ok :: "mist_operation \<Rightarrow> bool" where
  "schemas_ok p \<longleftrightarrow> list_all (\<lambda>q. is_object (param_schema q)) (parameters p) \<and>
     list_all (\<lambda>(media, schema). is_object schema) (request_schemas p) \<and>
     list_all (\<lambda>(status, medias). list_all (\<lambda>(media, schema). is_object schema) medias) (responses p)"

text \<open>Key, tool, targets and pagination are derived from identifier, method, path and parameters.\<close>

definition derived_ok :: "mist_operation \<Rightarrow> bool" where
  "derived_ok p \<longleftrightarrow>
     operation_key p = op_method p @ '' '' @ op_path p \<and> tool_name (operation_id p) = Inr (op_tool p) \<and>
     capability p = op_action p \<and>
     (let named = [s. (v, s) \<leftarrow> [(''{org_id}'', SelOrg), (''{site_id}'', SelSite), (''{msp_id}'', SelMsp)],
            str_contains v (op_path p)]
      in target_selectors p = (if named = [] then [SelNone] else named)) \<and>
     pagination p = (if query_parameter p ''search_after'' then SearchAfter
       else if query_parameter p ''page'' \<or> query_parameter p ''limit'' then PageLimit else PagNone)"

definition record_ok :: "mist_operation \<Rightarrow> bool" where
  "record_ok p \<longleftrightarrow> path_ok p \<and> action_ok p \<and> media_ok p \<and> schemas_ok p \<and> derived_ok p \<and>
     classification_reason p \<noteq> [] \<and> digest_ok (classification_source_fingerprint p) \<and>
     digest_ok (source_fingerprint p)"

lemma path_ok_iff: "safe_path (op_path p) \<and> scope_for_path (op_path p) = Some (op_scope p) \<longleftrightarrow> path_ok p"
proof
  assume "safe_path (op_path p) \<and> scope_for_path (op_path p) = Some (op_scope p)"
  then obtain rest where "op_path p = ''/api/v1/'' @ rest" "rest \<noteq> []" "CHR ''?'' \<notin> set (op_path p)"
      "CHR ''#'' \<notin> set (op_path p)" "\<forall>s \<in> set (split_on (CHR ''/'') rest). safe_segment s"
      "op_scope p = hd (split_on (CHR ''/'') rest)"
    unfolding safe_path_segments scope_for_path_def by auto
  then show "path_ok p"
    unfolding path_ok_def
    by (intro exI [of _ "split_on (CHR ''/'') rest"])
      (auto simp: join_split_on list_all_iff safe_segment_iff [symmetric] dest: split_on_no_sep)
next
  assume "path_ok p"
  then obtain segments where p: "op_path p = ''/api/v1/'' @ join ''/'' segments" "segments \<noteq> []"
      "list_all (\<lambda>s. segment_shape s \<and> CHR ''/'' \<notin> set s) segments" "CHR ''?'' \<notin> set (op_path p)"
      "CHR ''#'' \<notin> set (op_path p)" "op_scope p = hd segments"
    unfolding path_ok_def by blast
  then have split: "split_on (CHR ''/'') (join ''/'' segments) = segments"
    by (intro split_on_join) (auto simp: list_all_iff)
  have "join ''/'' segments \<noteq> []"
  proof
    assume "join ''/'' segments = []"
    with split have "segments = [[]]" by simp
    with p(3) show False by (simp add: segment_shape_def)
  qed
  with p split show "safe_path (op_path p) \<and> scope_for_path (op_path p) = Some (op_scope p)"
    unfolding safe_path_segments scope_for_path_def
    by (auto simp: list_all_iff safe_segment_iff)
qed

lemma action_ok_iff:
  "op_method p \<in> {''GET'', ''POST'', ''PUT'', ''PATCH'', ''DELETE''} \<and> method_allows_action (op_method p) (op_action p) \<longleftrightarrow> action_ok p"
  by (auto simp: action_ok_def method_allows_action_def)

lemma targets_iff:
  "targets_for_path path = (let named = [s. (v, s) \<leftarrow> [(''{org_id}'', SelOrg), (''{site_id}'', SelSite), (''{msp_id}'', SelMsp)],
     str_contains v path] in if named = [] then [SelNone] else named)"
  by (simp add: targets_for_path_def Let_def)

lemma pagination_iff:
  "pagination_for_parameters (parameters p) = (if query_parameter p ''search_after'' then SearchAfter
     else if query_parameter p ''page'' \<or> query_parameter p ''limit'' then PageLimit else PagNone)"
proof -
  have "n \<in> set (map param_name (filter (\<lambda>q. param_location q = ''query'') (parameters p))) \<longleftrightarrow> query_parameter p n" for n
    by (auto simp: query_parameter_def)
  then show ?thesis by (simp only: pagination_for_parameters_def Let_def)
qed

lemma response_media_iff:
  "response_media (responses p) = ts \<longleftrightarrow>
     sorted_wrt (<) ts \<and> set ts = (\<Union>(status, media) \<in> set (responses p). fst ` set media)"
proof -
  let ?M = "set (concat (map bt_keys (bt_values (responses p))))"
  have "?M = (\<Union>(status, media) \<in> set (responses p). fst ` set media)"
    by (force simp: bt_keys_def bt_values_def)
  moreover have "sorted_list_of_set ?M = ts \<longleftrightarrow> sorted_wrt (<) ts \<and> set ts = ?M"
    by (metis List.finite_set set_sorted_list_of_set sorted_list_of_set.idem_if_sorted_distinct
        strict_sorted_iff strict_sorted_list_of_set)
  ultimately show ?thesis by (simp only: response_media_def)
qed

lemma media_iff:
  "(\<exists>media. canonical_request_media (request_schemas p) = Inr media \<and> request_media_types p = media) \<and>
   transport_for_media (request_media_types p) = Inr (op_transport p) \<longleftrightarrow>
   request_media_types p = map fst (request_schemas p) \<and>
     (request_media_types p, op_transport p) \<in> set
       [([], ''none''), ([''application/json''], ''json''), ([''multipart/form-data''], ''multipart''),
        ([''application/json'', ''multipart/form-data''], ''content_type_select'')]"
  by (auto simp: canonical_request_media_def transport_for_media_def bt_keys_def Let_def list_ex_iff split: if_splits)

lemma schemas_iff:
  "\<not> list_ex (\<lambda>q. \<not> is_object (param_schema q)) (parameters p) \<and>
   \<not> list_ex (\<lambda>schema. \<not> is_object schema) (bt_values (request_schemas p)) \<and>
   \<not> list_ex (\<lambda>media. list_ex (\<lambda>schema. \<not> is_object schema) (bt_values media)) (bt_values (responses p)) \<longleftrightarrow> schemas_ok p"
  by (simp add: schemas_ok_def list_ex_iff list_all_iff bt_values_def case_prod_unfold)

lemma op_valid_iff: "op_valid p \<longleftrightarrow> record_ok p"
proof -
  have digest: "is_lower_hex_digest v \<longleftrightarrow> digest_ok v" for v
    by (simp add: is_lower_hex_digest_def digest_ok_def list_all_iff)
  have "op_valid p \<longleftrightarrow>
      (safe_path (op_path p) \<and> scope_for_path (op_path p) = Some (op_scope p)) \<and>
      (op_method p \<in> {''GET'', ''POST'', ''PUT'', ''PATCH'', ''DELETE''} \<and> method_allows_action (op_method p) (op_action p)) \<and>
      ((\<exists>media. canonical_request_media (request_schemas p) = Inr media \<and> request_media_types p = media) \<and>
       transport_for_media (request_media_types p) = Inr (op_transport p)) \<and>
      (request_body_required p \<longrightarrow> request_media_types p \<noteq> []) \<and>
      response_media (responses p) = response_media_types p \<and>
      (\<not> list_ex (\<lambda>q. \<not> is_object (param_schema q)) (parameters p) \<and>
       \<not> list_ex (\<lambda>schema. \<not> is_object schema) (bt_values (request_schemas p)) \<and>
       \<not> list_ex (\<lambda>media. list_ex (\<lambda>schema. \<not> is_object schema) (bt_values media)) (bt_values (responses p))) \<and>
      operation_key p = op_method p @ '' '' @ op_path p \<and> tool_name (operation_id p) = Inr (op_tool p) \<and>
      capability p = op_action p \<and> target_selectors p = targets_for_path (op_path p) \<and>
      pagination p = pagination_for_parameters (parameters p) \<and>
      classification_reason p \<noteq> [] \<and> is_lower_hex_digest (classification_source_fingerprint p) \<and>
      is_lower_hex_digest (source_fingerprint p)"
    unfolding op_valid_def validate_operation_def Let_def
    by (auto simp: and_then_Inr_iff simp del: insert_iff split: if_splits)
  then show ?thesis
    unfolding path_ok_iff action_ok_iff media_iff response_media_iff schemas_iff digest pagination_iff targets_iff
    by (auto simp: record_ok_def derived_ok_def media_ok_def)
qed

text \<open>What a verification policy needs; the follow-up read is a GET operation of the same catalog.\<close>

definition policy_ok :: "mist_operation list \<Rightarrow> mist_operation \<Rightarrow> bool" where
  "policy_ok ps p \<longleftrightarrow>
     (case verification p of
        VerNone \<Rightarrow> op_action p \<in> {OrdinaryRead, PrivilegedRead} \<and> follow_up_operation_id p = None \<and>
          verification_predicate p = None \<and> verification_reason p = None
      | FollowUpRead \<Rightarrow> verification_reason p = None \<and>
          verification_predicate p = Some ''request_projection_equals_response'' \<and>
          (\<exists>q \<in> set ps. follow_up_operation_id p = Some (operation_id q) \<and> op_method q = ''GET'')
      | ApiAcknowledged \<Rightarrow> follow_up_operation_id p = None \<and> verification_predicate p = None \<and>
          (\<exists>reason. verification_reason p = Some reason \<and> reason \<noteq> []))"

lemma verify_operation_iff:
  assumes "index_ok ps ix"
  shows "verify_operation ps ix p = Inr () \<longleftrightarrow> policy_ok ps p"
proof (cases "verification p")
  case FollowUpRead
  with index_get_iff [OF assms] show ?thesis
    by (auto simp: verify_operation_def policy_ok_def and_then_Inr_iff)
qed (auto simp: verify_operation_def policy_ok_def split: option.splits)

text \<open>Nothing else is checked: the loop goes through where the rules hold.\<close>

lemma parse_loop_ok:
  assumes "loop_inv seen st"
    and "distinct (map operation_id (seen @ ps))" "distinct (map op_tool (seen @ ps))"
    and "sorted_wrt (<) (map operation_key (seen @ ps))" "list_all op_valid ps"
    and "\<And>n. n < length ps \<Longrightarrow> check (length seen + n) (ps ! n) = Inr ()"
  shows "\<exists>st'. parse_loop check (length seen) ps st = Inr st'"
  using assms
proof (induction ps arbitrary: seen st)
  case (Cons p ps)
  have key: "operation_key q < operation_key p" if "q \<in> set seen" for q
    using Cons.prems(4) that by (auto simp: sorted_wrt_append)
  have "validate_operation p (previous_key st) = Inr ()"
    using Cons.prems(1,5) key by (auto simp: validate_operation_previous loop_inv_def)
  moreover have "operation_key p \<notin> operation_key ` set seen" using key by force
  then have "operation_id p \<notin> seen_ids st" "operation_key p \<notin> seen_keys st" "op_tool p \<notin> seen_tools st"
    using Cons.prems(1-3) by (auto simp: loop_inv_def)
  moreover have "check (length seen) p = Inr ()" using Cons.prems(6) [of 0] by simp
  ultimately obtain st1 where st1: "parse_step check (length seen) p st = Inr st1"
    by (simp add: parse_step_def)
  have "\<exists>st'. parse_loop check (length (seen @ [p])) ps st1 = Inr st'"
  proof (rule Cons.IH)
    show "loop_inv (seen @ [p]) st1" using loop_inv_step [OF Cons.prems(1) st1] by blast
    show "check (length (seen @ [p]) + n) (ps ! n) = Inr ()" if "n < length ps" for n
      using Cons.prems(6) [of "Suc n"] that by simp
  qed (use Cons.prems in simp_all)
  with st1 show ?case by simp
qed simp

section \<open>Properties\<close>

text \<open>Two records of the catalog, for the witnesses.\<close>

definition get_self :: mist_operation where
  "get_self = \<lparr>operation_key = ''GET /api/v1/self'', operation_id = ''getSelf'', op_tool = ''mist_get_self'',
     op_method = ''GET'', op_path = ''/api/v1/self'', op_scope = ''self'', op_summary = ''getSelf'',
     openapi_tags = [''Self Account''], capability = PrivilegedRead, op_action = PrivilegedRead,
     classification_reason = ''Reviewed exact operation-key security classification'',
     classification_source_fingerprint = ''54bbe86f9432cb14800a6186dd88269ed4ccf72fcff50bc18ceaf71987017c99'',
     parameters = [], target_selectors = [SelNone], request_media_types = [], request_schemas = bt_empty,
     request_body_required = False, response_media_types = [], responses = [(''200'', bt_empty)], pagination = PagNone,
     verification = VerNone, follow_up_operation_id = None, verification_predicate = None,
     verification_reason = None, op_transport = ''none'',
     source_fingerprint = ''658f81688371928778a701f5703cfbcc0316380cf9a9559679876b148d1b6f79''\<rparr>"

definition update_self :: mist_operation where
  "update_self = \<lparr>operation_key = ''PUT /api/v1/self'', operation_id = ''updateSelf'',
     op_tool = ''mist_update_self'', op_method = ''PUT'', op_path = ''/api/v1/self'', op_scope = ''self'',
     op_summary = ''updateSelf'', openapi_tags = [''Self Account''], capability = Update, op_action = Update,
     classification_reason = ''Reviewed exact operation-key security classification'',
     classification_source_fingerprint = ''ec9c566564770ca6530374d24c334a87cf203b5e050962d2932ac3c0ae1371f0'',
     parameters = [], target_selectors = [SelNone], request_media_types = [''application/json''],
     request_schemas = [(''application/json'', JObj [(''$ref'', JStr ''#/components/schemas/admin'')])],
     request_body_required = False, response_media_types = [], responses = bt_empty, pagination = PagNone,
     verification = FollowUpRead, follow_up_operation_id = Some ''getSelf'',
     verification_predicate = Some ''request_projection_equals_response'',
     verification_reason = None, op_transport = ''json'',
     source_fingerprint = ''7ad3fec3cb64128c0492e9afccb66cfa0bc8893b72fe94e8a5f28cd886685278''\<rparr>"

lemma self_records_indexed:
  "index_operations (\<lambda>_ _. Inr ()) [get_self, update_self] = Inr [(''getSelf'', 0), (''updateSelf'', 1)]"
  by code_simp

text \<open>C16: In a catalog that loads, looking an operation identifier up returns exactly the one
  record that has it: no identifier is ambiguous, none is lost, and no index entry points
  to another record.\<close>

theorem catalog_lookup_exact:
  assumes "index_operations check ps = Inr ix"
  shows "index_get ix ps i = Some p \<longleftrightarrow> p \<in> set ps \<and> operation_id p = i"
  by (rule index_get_iff) (rule index_operations_Inr(1) [OF assms])

theorem catalog_lookup_exact_witness:
  "index_get [(''getSelf'', 0), (''updateSelf'', 1)] [get_self, update_self] ''updateSelf'' = Some update_self"
  using catalog_lookup_exact [OF self_records_indexed, of "''updateSelf''" update_self]
  by (simp add: update_self_def)

text \<open>C17: A list of operation records is indexed exactly when identifiers and tool names are unique, the
  keys increase, and every record passes its fingerprint check and all rules: a safe path with its scope, an action
  its HTTP method allows, the derived key, tool name, capability, targets, pagination, transport and media
  types, schemas that are objects, a reason and two digests for the classification, and a consistent verification
  policy whose follow-up read is a GET operation of the same catalog.\<close>

theorem catalog_accepted_iff:
  "is_ok (index_operations check ps) \<longleftrightarrow>
     distinct (map operation_id ps) \<and> distinct (map op_tool ps) \<and> sorted_wrt (<) (map operation_key ps) \<and>
     list_all record_ok ps \<and> list_all (policy_ok ps) ps \<and>
     list_all (\<lambda>(n, p). check n p = Inr ()) (enumerate 0 ps)"
proof
  assume "is_ok (index_operations check ps)"
  then obtain ix where ix: "index_operations check ps = Inr ix" by (auto simp: is_ok_iff)
  note facts = index_operations_Inr [OF ix]
  show "distinct (map operation_id ps) \<and> distinct (map op_tool ps) \<and> sorted_wrt (<) (map operation_key ps) \<and>
     list_all record_ok ps \<and> list_all (policy_ok ps) ps \<and> list_all (\<lambda>(n, p). check n p = Inr ()) (enumerate 0 ps)"
    using facts verify_operation_iff [OF facts(1)]
    by (auto simp: validate_verification_def op_valid_iff list_all_iff in_set_enumerate_eq)
next
  assume ok: "distinct (map operation_id ps) \<and> distinct (map op_tool ps) \<and> sorted_wrt (<) (map operation_key ps) \<and>
     list_all record_ok ps \<and> list_all (policy_ok ps) ps \<and> list_all (\<lambda>(n, p). check n p = Inr ()) (enumerate 0 ps)"
  have "check n (ps ! n) = Inr ()" if "n < length ps" for n
    using ok that by (force simp: list_all_iff in_set_enumerate_eq)
  then obtain st where st: "parse_loop check 0 ps parse_start = Inr st"
    using parse_loop_ok [OF loop_inv_start, of ps check] ok op_valid_iff by (auto simp: list_all_iff)
  then have "index_ok ps (built_index st)"
    using loop_inv_loop [of check "[]" ps parse_start st] loop_inv_start by (simp add: loop_inv_def)
  with ok have "validate_verification ps (built_index st) = Inr ()"
    by (simp add: validate_verification_def verify_operation_iff list_all_iff)
  with st show "is_ok (index_operations check ps)" by (simp add: index_operations_def)
qed

text \<open>A tool name exists for every alphanumeric identifier that starts with a letter: the
  second safety check never refuses. It is \<open>mist_\<close> and then non-empty words of lowercase
  letters and digits joined by underscores, which spell the normalised identifier.\<close>

theorem tool_name_words:
  assumes "safe_operation_id i"
  shows "\<exists>ws. tool_name i = Inr (''mist_'' @ join ''_'' ws) \<and> [] \<notin> set ws \<and>
    concat ws = to_ascii_lowercase (normalize_words i) \<and>
    list_all (\<lambda>c. is_ascii_lowercase c \<or> is_ascii_digit c) (concat ws)"
proof -
  let ?ws = "tool_words None [] [] (normalize_words i)"
  have "[] \<notin> set ?ws" by (rule tool_words_nonempty) simp_all
  moreover have "list_all (\<lambda>c. is_ascii_lowercase c \<or> is_ascii_digit c) (concat ?ws)"
    using tool_words_chars [of i] assms
    by (auto simp: safe_operation_id_def tool_char_def list_all_iff)
  ultimately show ?thesis
    using tool_name_safe [OF assms] concat_tool_words [of None "[]" "[]" "normalize_words i"]
    by (intro exI [of _ ?ws]) simp
qed

theorem tool_name_words_witness:
  "\<exists>ws. tool_name ''getOrgAOSCXWiFi6'' = Inr (''mist_'' @ join ''_'' ws) \<and> [] \<notin> set ws"
proof -
  have "safe_operation_id ''getOrgAOSCXWiFi6''" by (simp add: safe_operation_id_def char_class_defs)
  from tool_name_words [OF this] show ?thesis by blast
qed

text \<open>A safe path is \<open>/api/v1/\<close> and then segments none of which is empty, \<open>.\<close> or
  \<open>..\<close>; a brace occurs only as a whole \<open>{parameter}\<close> segment; there is no query or fragment.\<close>

theorem safe_path_no_traversal:
  assumes "safe_path path"
  shows "\<exists>segments. path = ''/api/v1/'' @ join ''/'' segments \<and> segments \<noteq> [] \<and>
    CHR ''?'' \<notin> set path \<and> CHR ''#'' \<notin> set path \<and>
    (\<forall>s \<in> set segments. CHR ''/'' \<notin> set s \<and> s \<noteq> [] \<and> s \<noteq> ''.'' \<and> s \<noteq> ''..'' \<and>
       (CHR ''{'' \<notin> set s \<and> CHR ''}'' \<notin> set s \<or>
        (\<exists>v. s = CHR ''{'' # v @ ''}'' \<and> v \<noteq> [] \<and> is_ascii_alphabetic (hd v) \<and>
           list_all (\<lambda>c. is_ascii_alphanumeric c \<or> c = CHR ''_'') v)))"
proof -
  obtain rest where rest: "path = ''/api/v1/'' @ rest" "CHR ''?'' \<notin> set path" "CHR ''#'' \<notin> set path"
      "\<forall>s \<in> set (split_on (CHR ''/'') rest). safe_segment s"
    using assms unfolding safe_path_segments by blast
  then show ?thesis
    using join_split_on [of "CHR ''/''" rest] split_on_no_sep safe_segment_cases
    by (intro exI [of _ "split_on (CHR ''/'') rest"]) auto
qed

theorem safe_path_no_traversal_witness:
  "\<exists>segments. ''/api/v1/orgs/{org_id}'' = ''/api/v1/'' @ join ''/'' segments \<and> segments \<noteq> []"
proof -
  have "safe_path ''/api/v1/orgs/{org_id}''" by code_simp
  from safe_path_no_traversal [OF this] show ?thesis by blast
qed

end
