(* ===== verification/Relax.thy ===== *)
theory Relax
  imports Catalog
begin

text \<open>
  \<open>catalog.rs\<close>, second part: the relaxation of component schemas for responses, and the
  memo of compiled validators. \<open>memo\<close> is the contract of such a memo; its interpretation
  \<open>vc\<close> is the validator cache of the catalog. Compiling a schema is \<open>jsonschema\<close>'s work: it
  is the argument \<open>compile\<close>.
\<close>

section \<open>Relaxation\<close>

text \<open>
  \<open>widen_type_to_admit_null\<close>, \<open>widen_integer_to_admit_number\<close>: both read the declared
  \<open>type\<close>, decide whether a type is added, and write the widened one back.
\<close>

definition names_type :: "string \<Rightarrow> json list \<Rightarrow> bool" where
  "names_type t names = list_ex (\<lambda>n. as_str n = Some t) names"

definition widen_type_to_admit_null :: "jmap \<Rightarrow> jmap" where
  "widen_type_to_admit_null m =
     (case obj_get m ''type'' of
        None \<Rightarrow> m
      | Some declared \<Rightarrow>
          let widened = (case declared of
              JStr name \<Rightarrow> if name \<noteq> ''null'' then Some (JArr [JStr name, JStr ''null'']) else None
            | JArr names \<Rightarrow>
                if \<not> names_type ''null'' names then Some (JArr (names @ [JStr ''null''])) else None
            | _ \<Rightarrow> None)
          in case widened of Some w \<Rightarrow> obj_insert ''type'' w m | None \<Rightarrow> m)"

definition widen_integer_to_admit_number :: "jmap \<Rightarrow> jmap" where
  "widen_integer_to_admit_number m =
     (case obj_get m ''type'' of
        None \<Rightarrow> m
      | Some declared \<Rightarrow>
          let widened = (case declared of
              JStr name \<Rightarrow> if name = ''integer'' then Some (JArr [JStr ''integer'', JStr ''number'']) else None
            | JArr names \<Rightarrow>
                if names_type ''integer'' names \<and> \<not> names_type ''number'' names
                then Some (JArr (names @ [JStr ''number''])) else None
            | _ \<Rightarrow> None)
          in case widened of Some w \<Rightarrow> obj_insert ''type'' w m | None \<Rightarrow> m)"

text \<open>The part of \<open>relax_for_responses\<close> that works on one object's own members.\<close>

definition relax_members :: "jmap \<Rightarrow> jmap" where
  "relax_members m =
     (let m = obj_remove ''enum'' m;
          m = obj_remove ''required'' m;
          m = (if obj_get m ''additionalProperties'' = Some (JBool False)
               then obj_remove ''additionalProperties'' m else m);
          m = (case obj_get m ''oneOf'' of
                 Some one_of \<Rightarrow> obj_insert ''anyOf'' one_of (obj_remove ''oneOf'' m)
               | None \<Rightarrow> m);
          m = widen_type_to_admit_null m
      in widen_integer_to_admit_number m)"

text \<open>
  The recursion visits the members of the rewritten object. It ends because the rewriting
  adds nothing but type names: \<open>relax_depth\<close>, which gives a list of names less than any
  object, does not grow.
\<close>

fun relax_depth :: "json \<Rightarrow> nat" where
  "relax_depth (JArr xs) = Suc (foldr max (map relax_depth xs) 0)"
| "relax_depth (JObj m) = Suc (Suc (foldr max (map (\<lambda>(k, v). relax_depth v) m) 0))"
| "relax_depth _ = 0"

lemma foldr_max_less: "foldr max xs 0 < (n :: nat) \<longleftrightarrow> 0 < n \<and> (\<forall>x \<in> set xs. x < n)"
  by (induction xs) auto

lemma relax_depth_JArr_less:
  "relax_depth (JArr xs) < Suc n \<longleftrightarrow> 0 < n \<and> (\<forall>x \<in> set xs. relax_depth x < n)"
  by (simp add: foldr_max_less)

lemma relax_depth_JObj_less:
  "relax_depth (JObj m) < Suc (Suc n) \<longleftrightarrow> 0 < n \<and> (\<forall>(k, v) \<in> set m. relax_depth v < n)"
  by (auto simp: foldr_max_less)

lemma set_obj_remove_subset: "set (obj_remove k m) \<subseteq> set m"
  by (induction k m rule: obj_remove.induct) auto

lemma set_obj_insert_subset: "set (obj_insert k v m) \<subseteq> insert (k, v) (set m)"
  by (induction k v m rule: obj_insert.induct) auto

text \<open>Where the members of a rewritten object come from.\<close>

definition values_below :: "nat \<Rightarrow> jmap \<Rightarrow> bool" where
  "values_below n m \<longleftrightarrow> (\<forall>p \<in> set m. relax_depth (snd p) < n)"

lemma values_below_remove: "values_below n m \<Longrightarrow> values_below n (obj_remove k m)"
  using set_obj_remove_subset by (fastforce simp: values_below_def)

lemma values_below_insert: "values_below n m \<Longrightarrow> relax_depth v < n \<Longrightarrow> values_below n (obj_insert k v m)"
  using set_obj_insert_subset by (fastforce simp: values_below_def)

lemma values_below_get: "values_below n m \<Longrightarrow> obj_get m k = Some v \<Longrightarrow> relax_depth v < n"
  by (force simp: values_below_def obj_get_def dest: map_of_SomeD)

lemma values_below_widen_null:
  "values_below n m \<Longrightarrow> 2 \<le> n \<Longrightarrow> values_below n (widen_type_to_admit_null m)"
  by (cases n) (auto simp: widen_type_to_admit_null_def Let_def foldr_max_less
      intro!: values_below_insert dest: values_below_get split: option.splits json.splits)

lemma values_below_widen_integer:
  "values_below n m \<Longrightarrow> 2 \<le> n \<Longrightarrow> values_below n (widen_integer_to_admit_number m)"
  by (cases n) (auto simp: widen_integer_to_admit_number_def Let_def foldr_max_less
      intro!: values_below_insert dest: values_below_get split: option.splits json.splits)

lemma values_below_relax_members:
  assumes "values_below n m" "2 \<le> n"
  shows "values_below n (relax_members m)"
proof -
  let ?m = "obj_remove ''required'' (obj_remove ''enum'' m)"
  let ?n = "if obj_get ?m ''additionalProperties'' = Some (JBool False)
    then obj_remove ''additionalProperties'' ?m else ?m"
  have n: "values_below n ?n" using assms(1) by (simp add: values_below_remove)
  have "values_below n (case obj_get ?n ''oneOf'' of
      Some one_of \<Rightarrow> obj_insert ''anyOf'' one_of (obj_remove ''oneOf'' ?n) | None \<Rightarrow> ?n)"
  proof (cases "obj_get ?n ''oneOf''")
    case (Some v)
    show ?thesis using values_below_get [OF n Some] n Some
      by (simp add: values_below_insert values_below_remove)
  qed (use n in simp)
  with assms(2) show ?thesis
    unfolding relax_members_def Let_def
    by (intro values_below_widen_integer values_below_widen_null)
qed

function (sequential) relax_for_responses :: "json \<Rightarrow> json" where
  "relax_for_responses (JObj m) = JObj (map (\<lambda>(k, v). (k, relax_for_responses v)) (relax_members m))"
| "relax_for_responses (JArr items) = JArr (map relax_for_responses items)"
| "relax_for_responses v = v"
  by pat_completeness auto
termination
proof (relation "measure relax_depth")
  fix m :: jmap and p k v
  assume p: "p \<in> set (relax_members m)" "(k, v) = p"
  have "values_below (Suc (foldr max (map (\<lambda>(k, v). relax_depth v) m) 1)) (relax_members m)"
  proof (rule values_below_relax_members)
    show "values_below (Suc (foldr max (map (\<lambda>(k, v). relax_depth v) m) 1)) m"
      unfolding values_below_def
      by (induction m) (auto simp: less_Suc_eq_le intro: le_max_iff_disj [THEN iffD2])
    show "2 \<le> Suc (foldr max (map (\<lambda>(k, v). relax_depth v) m) 1)"
      by (induction m) auto
  qed
  moreover have "foldr max (map (\<lambda>(k, v). relax_depth v) m) 1 \<le>
      Suc (foldr max (map (\<lambda>(k, v). relax_depth v) m) 0)"
    by (induction m) auto
  ultimately show "(v, JObj m) \<in> measure relax_depth" using p by (force simp: values_below_def)
next
  fix items :: "json list" and x
  assume "x \<in> set items"
  then have "relax_depth x \<le> foldr max (map relax_depth items) 0"
    by (induction items) auto
  then show "(x, JArr items) \<in> measure relax_depth" by simp
qed simp

section \<open>What relaxation does to one object\<close>

definition add_null :: "json \<Rightarrow> json" where
  "add_null t = (case t of
      JStr name \<Rightarrow> if name \<noteq> ''null'' then JArr [JStr name, JStr ''null''] else t
    | JArr names \<Rightarrow> if \<not> names_type ''null'' names then JArr (names @ [JStr ''null'']) else t
    | _ \<Rightarrow> t)"

definition add_number :: "json \<Rightarrow> json" where
  "add_number t = (case t of
      JStr name \<Rightarrow> if name = ''integer'' then JArr [JStr ''integer'', JStr ''number''] else t
    | JArr names \<Rightarrow> if names_type ''integer'' names \<and> \<not> names_type ''number'' names
        then JArr (names @ [JStr ''number'']) else t
    | _ \<Rightarrow> t)"

lemma obj_insert_same: "obj_get m k = Some v \<Longrightarrow> obj_insert k v m = m"
  by (induction m) (auto simp: obj_get_def)

lemma widen_null_eq:
  "widen_type_to_admit_null m = (case obj_get m ''type'' of None \<Rightarrow> m
     | Some t \<Rightarrow> obj_insert ''type'' (add_null t) m)"
  by (auto simp: widen_type_to_admit_null_def add_null_def obj_insert_same split: option.splits json.splits)

lemma widen_integer_eq:
  "widen_integer_to_admit_number m = (case obj_get m ''type'' of None \<Rightarrow> m
     | Some t \<Rightarrow> obj_insert ''type'' (add_number t) m)"
  by (auto simp: widen_integer_to_admit_number_def add_number_def obj_insert_same
      split: option.splits json.splits)

lemma obj_wf_widen [simp]:
  "obj_wf m \<Longrightarrow> obj_wf (widen_type_to_admit_null m)"
  "obj_wf m \<Longrightarrow> obj_wf (widen_integer_to_admit_number m)"
  by (simp_all add: widen_null_eq widen_integer_eq obj.wf_ins split: option.split)

lemma obj_get_widen:
  assumes "obj_wf m"
  shows "obj_get (widen_type_to_admit_null m) k =
      (if k = ''type'' then map_option add_null (obj_get m k) else obj_get m k)"
    "obj_get (widen_integer_to_admit_number m) k =
      (if k = ''type'' then map_option add_number (obj_get m k) else obj_get m k)"
  using assms by (auto simp: widen_null_eq widen_integer_eq obj_lookup split: option.splits)

definition relaxed_member :: "jmap \<Rightarrow> string \<Rightarrow> json option" where
  "relaxed_member m k =
     (if k = ''enum'' \<or> k = ''required'' \<or> k = ''oneOf'' then None
      else if k = ''additionalProperties'' \<and> obj_get m k = Some (JBool False) then None
      else if k = ''anyOf'' \<and> obj_get m ''oneOf'' \<noteq> None then obj_get m ''oneOf''
      else if k = ''type'' then map_option (add_number \<circ> add_null) (obj_get m k)
      else obj_get m k)"

lemma relax_members_wf_get:
  assumes "obj_wf m"
  shows "obj_wf (relax_members m) \<and> obj_get (relax_members m) k = relaxed_member m k"
proof -
  define m2 where "m2 = obj_remove ''required'' (obj_remove ''enum'' m)"
  define m3 where "m3 = (if obj_get m2 ''additionalProperties'' = Some (JBool False)
    then obj_remove ''additionalProperties'' m2 else m2)"
  define m4 where "m4 = (case obj_get m3 ''oneOf'' of
    Some one_of \<Rightarrow> obj_insert ''anyOf'' one_of (obj_remove ''oneOf'' m3) | None \<Rightarrow> m3)"
  have "obj_wf m2" and g2: "obj_get m2 j = (if j = ''enum'' \<or> j = ''required'' then None else obj_get m j)" for j
    using assms by (auto simp: m2_def obj.wf_rem obj_lookup)
  then have "obj_wf m3" and g3: "obj_get m3 j =
      (if j = ''additionalProperties'' \<and> obj_get m j = Some (JBool False) then None else obj_get m2 j)" for j
    by (auto simp: m3_def obj.wf_rem obj_lookup)
  then have w4: "obj_wf m4" and g4: "obj_get m4 j = (if j = ''oneOf'' then None
      else if j = ''anyOf'' \<and> obj_get m3 ''oneOf'' \<noteq> None then obj_get m3 ''oneOf'' else obj_get m3 j)" for j
    by (auto simp: m4_def obj.wf_rem obj.wf_ins obj_lookup split: option.splits)
  have rm: "relax_members m = widen_integer_to_admit_number (widen_type_to_admit_null m4)"
    unfolding relax_members_def Let_def m4_def m3_def m2_def by (rule refl)
  show ?thesis
    using w4 by (auto simp: rm obj_get_widen g4 g3 g2 relaxed_member_def option.map_comp)
qed

lemmas obj_wf_relax_members = relax_members_wf_get [THEN conjunct1]
lemmas obj_get_relax_members = relax_members_wf_get [THEN conjunct2]

text \<open>An object on which \<open>relax_members\<close> has nothing left to do.\<close>

definition members_stable :: "jmap \<Rightarrow> bool" where
  "members_stable m \<longleftrightarrow>
     obj_get m ''enum'' = None \<and> obj_get m ''required'' = None \<and> obj_get m ''oneOf'' = None \<and>
     obj_get m ''additionalProperties'' \<noteq> Some (JBool False) \<and>
     (\<forall>t. obj_get m ''type'' = Some t \<longrightarrow> add_null t = t \<and> add_number t = t)"

lemma obj_remove_absent: "obj_get m k = None \<Longrightarrow> obj_remove k m = m"
  by (induction m) (auto simp: obj_get_def split: if_splits)

lemma relax_members_stable: "members_stable m \<Longrightarrow> relax_members m = m"
  by (auto simp: relax_members_def members_stable_def obj_remove_absent widen_null_eq
      widen_integer_eq obj_insert_same split: option.splits)

lemma names_type_append [simp]:
  "names_type t (xs @ ys) \<longleftrightarrow> names_type t xs \<or> names_type t ys"
  "names_type t [] = False" "names_type t (JStr u # ys) \<longleftrightarrow> u = t \<or> names_type t ys"
  by (auto simp: names_type_def)

lemma widened_type_stable:
  "add_null (add_number (add_null t)) = add_number (add_null t)"
  "add_number (add_number t) = add_number t"
  by (cases t; auto simp: add_null_def add_number_def)+

lemma members_stable_relax: "obj_wf m \<Longrightarrow> members_stable (relax_members m)"
  by (auto simp: members_stable_def obj_get_relax_members relaxed_member_def widened_type_stable)

section \<open>What relaxation does at every depth\<close>

lemma map_values_get: "obj_get (map (\<lambda>(k, v). (k, f v)) m) k = map_option f (obj_get m k)"
  by (induction m) (auto simp: obj_get_def)

lemma obj_wf_map_values [simp]: "obj_wf (map (\<lambda>(k, v). (k, f v)) m) \<longleftrightarrow> obj_wf m"
  by (simp add: obj_wf_def comp_def case_prod_beta)

lemma as_str_relax [simp]: "as_str (relax_for_responses v) = as_str v"
  by (cases v) auto

lemma relax_JBool_iff [simp]: "relax_for_responses v = JBool b \<longleftrightarrow> v = JBool b"
  by (cases v) auto

lemma names_type_relax [simp]: "names_type t (map relax_for_responses xs) = names_type t xs"
  by (simp add: names_type_def list_ex_iff del: as_str_Some_iff)

lemma stable_type_relax:
  "add_null t = t \<Longrightarrow> add_null (relax_for_responses t) = relax_for_responses t"
  "add_number t = t \<Longrightarrow> add_number (relax_for_responses t) = relax_for_responses t"
  by (cases t; auto simp: add_null_def add_number_def split: if_splits)+

lemma members_stable_map:
  "members_stable m \<Longrightarrow> members_stable (map (\<lambda>(k, v). (k, relax_for_responses v)) m)"
  by (auto simp: members_stable_def map_values_get stable_type_relax)

lemma json_wf_get: "json_wf (JObj m) \<Longrightarrow> obj_get m k = Some v \<Longrightarrow> json_wf v"
  by (auto simp: list_all_iff obj_get_def dest!: map_of_SomeD)

lemma json_wf_widened: "json_wf t \<Longrightarrow> json_wf (add_number (add_null t))"
  by (cases t) (auto simp: add_null_def add_number_def)

lemma json_wf_relax_members:
  assumes "json_wf (JObj m)" "(k, v) \<in> set (relax_members m)"
  shows "json_wf v"
proof -
  have wf: "obj_wf m" using assms(1) by simp
  then have "relaxed_member m k = Some v"
    using assms(2) obj.get_Some_iff [OF obj_wf_relax_members [OF wf]]
    by (simp add: obj_get_relax_members)
  then show ?thesis
    using json_wf_get [OF assms(1)]
    by (auto simp: relaxed_member_def json_wf_widened split: if_splits)
qed

lemma json_wf_relax: "json_wf v \<Longrightarrow> json_wf (relax_for_responses v)"
proof (induction v rule: relax_for_responses.induct)
  case (1 m)
  then show ?case
    using json_wf_relax_members [OF 1(2)] by (force simp: list_all_iff obj_wf_relax_members)
qed (auto simp: list_all_iff)

section \<open>Properties\<close>

text \<open>C33: The member of a relaxed object at a key is the relaxed member of the rewritten one:
  \<open>enum\<close>, \<open>required\<close>, \<open>oneOf\<close> and a closing \<open>additionalProperties\<close> are gone, \<open>oneOf\<close>
  has become \<open>anyOf\<close>, \<open>type\<close> admits null and, where it was integer, number, and every other
  member keeps its (relaxed) value.\<close>

theorem relax_lookup:
  assumes "obj_wf m"
  shows "jget (relax_for_responses (JObj m)) k =
    map_option relax_for_responses
      (if k = ''enum'' \<or> k = ''required'' \<or> k = ''oneOf'' then None
       else if k = ''additionalProperties'' \<and> obj_get m k = Some (JBool False) then None
       else if k = ''anyOf'' \<and> obj_get m ''oneOf'' \<noteq> None then obj_get m ''oneOf''
       else if k = ''type'' then map_option (\<lambda>t. add_number (add_null t)) (obj_get m k)
       else obj_get m k)"
proof -
  have "jget (relax_for_responses (JObj m)) k = map_option relax_for_responses (relaxed_member m k)"
    using assms by (simp add: jget_def map_values_get obj_get_relax_members)
  then show ?thesis unfolding relaxed_member_def comp_def .
qed

theorem relax_lookup_witness:
  "jget (relax_for_responses (JObj [(''type'', JStr ''integer''), (''enum'', JArr [])])) ''type'' =
     Some (JArr [JStr ''integer'', JStr ''null'', JStr ''number''])"
  using relax_lookup [of "[(''type'', JStr ''integer''), (''enum'', JArr [])]" "''type''"]
  by (simp add: obj_wf_def obj_get_def add_null_def add_number_def names_type_def)

text \<open>Relaxing is idempotent: what it produces needs no further relaxation at any depth.\<close>

theorem relax_idempotent:
  assumes "json_wf v"
  shows "relax_for_responses (relax_for_responses v) = relax_for_responses v"
  using assms
proof (induction v rule: relax_for_responses.induct)
  case (1 m)
  let ?r = "map (\<lambda>(k, v). (k, relax_for_responses v)) (relax_members m)"
  have "members_stable ?r"
    using 1(2) by (simp add: members_stable_map members_stable_relax)
  then have "relax_members ?r = ?r" by (rule relax_members_stable)
  moreover have "relax_for_responses (relax_for_responses v) = relax_for_responses v"
    if "(k, v) \<in> set (relax_members m)" for k v
    using 1(1) [OF that refl] json_wf_relax_members [OF 1(2) that] by simp
  ultimately show ?case by auto
qed (auto simp: list_all_iff)

theorem relax_idempotent_witness:
  "relax_for_responses (relax_for_responses (JObj [(''type'', JStr ''string'')])) =
     relax_for_responses (JObj [(''type'', JStr ''string'')])"
  by (rule relax_idempotent) (simp add: obj_wf_def)

text \<open>The recursion also visits the map of a schema's properties, so a property whose name
  is \<open>required\<close> loses its declaration, and with it the check of its type.\<close>

theorem relax_drops_property_named_required:
  "relax_for_responses (JObj [(''properties'', JObj [(''required'', JObj [(''type'', JStr ''boolean'')])])]) =
     JObj [(''properties'', JObj [])]"
  by (simp add: relax_members_def widen_type_to_admit_null_def widen_integer_to_admit_number_def
      obj_get_def swap_last_def Let_def)

section \<open>The validator cache\<close>

datatype schema_slot =
    RequestBody
  | RequestParameter string string
  | ResponseBody string string

type_synonym validator_key = "string \<times> schema_slot"

type_synonym 'v validator_cache = "validator_key \<rightharpoonup> 'v"

text \<open>
  The contract of a memo table: what is looked up after a store. \<open>compute\<close> is the function it
  remembers, which may fail; \<open>consistent\<close> says that every entry is a value of it.
\<close>

locale memo =
  fixes look :: "'c \<Rightarrow> 'k \<Rightarrow> 'v option"
    and store :: "'k \<Rightarrow> 'v \<Rightarrow> 'c \<Rightarrow> 'c"
  assumes look_store: "look (store k v c) k' =
    (if k' = k \<and> look c k = None then Some v else look c k')"
begin

definition consistent :: "('k \<Rightarrow> 'v option) \<Rightarrow> 'c \<Rightarrow> bool" where
  "consistent compute c \<longleftrightarrow> (\<forall>k v. look c k = Some v \<longrightarrow> compute k = Some v)"

lemma consistent_store:
  "consistent compute c \<Longrightarrow> compute k = Some v \<Longrightarrow> consistent compute (store k v c)"
  by (simp add: consistent_def look_store)

lemma store_keeps: "look c k = Some v \<Longrightarrow> look (store l w c) k = Some v"
  by (auto simp: look_store)

lemma consistent_hit: "consistent compute c \<Longrightarrow> look c k = Some v \<Longrightarrow> compute k = Some v"
  by (simp add: consistent_def)

end

definition or_insert :: "validator_key \<Rightarrow> 'v \<Rightarrow> 'v validator_cache \<Rightarrow> 'v validator_cache" where
  "or_insert key v cache = (case cache key of Some _ \<Rightarrow> cache | None \<Rightarrow> cache(key \<mapsto> v))"

interpretation vc: memo "\<lambda>c :: 'v validator_cache. c" or_insert
  by unfold_locales (auto simp: or_insert_def split: option.split)

text \<open>
  \<open>cached_validator\<close>. The read and the write take the lock separately, and other threads may
  store in between: \<open>cache1\<close> is the table at the read, \<open>cache2\<close> at the write. The result is
  the table after the call and the validator.
\<close>

definition cached_validator ::
  "(json \<Rightarrow> 'v option) \<Rightarrow> 'v validator_cache \<Rightarrow> 'v validator_cache \<Rightarrow> string \<Rightarrow> schema_slot
    \<Rightarrow> json \<Rightarrow> 'v validator_cache \<times> (unit + 'v)" where
  "cached_validator compile cache1 cache2 operation slot root =
     (let key = (operation, slot) in
      case cache1 key of
        Some hit \<Rightarrow> (cache1, Inr hit)
      | None \<Rightarrow> (case compile root of
            None \<Rightarrow> (cache1, Inl ())
          | Some validator \<Rightarrow> (or_insert key validator cache2, Inr validator)))"

text \<open>The components registry of response validation, computed once.\<close>

definition relaxed_components :: "catalog \<Rightarrow> json" where
  "relaxed_components c = relax_for_responses (cat_components c)"

text \<open>C34: Caching is transparent: while every entry was compiled from the schema its key names,
  a call returns what compiling that schema returns, whatever other threads stored in the
  meantime, and leaves every entry right and every entry of the table it wrote to in place.\<close>

theorem cached_validator_transparent:
  assumes "\<forall>k v. cache1 k = Some v \<longrightarrow> compile (roots k) = Some v"
    and "\<forall>k v. cache2 k = Some v \<longrightarrow> compile (roots k) = Some v"
    and "cached_validator compile cache1 cache2 operation slot (roots (operation, slot)) = (cache', r)"
  shows "r = ok_or () (compile (roots (operation, slot))) \<and>
    (\<forall>k v. cache' k = Some v \<longrightarrow> compile (roots k) = Some v) \<and>
    (cache1 (operation, slot) = None \<longrightarrow> r \<noteq> Inl () \<longrightarrow> cache2 \<subseteq>\<^sub>m cache')"
proof -
  let ?compute = "\<lambda>k. compile (roots k)"
  have c: "vc.consistent ?compute cache1" "vc.consistent ?compute cache2"
    using assms(1,2) by (simp_all add: vc.consistent_def)
  show ?thesis
  proof (cases "cache1 (operation, slot)")
    case (Some v)
    with assms(1,3) show ?thesis by (auto simp: cached_validator_def)
  next
    case None
    show ?thesis
    proof (cases "compile (roots (operation, slot))")
      case (Some v)
      with None assms(3) have "cache' = or_insert (operation, slot) v cache2" "r = Inr v"
        by (auto simp: cached_validator_def)
      with Some vc.consistent_store [OF c(2), of "(operation, slot)" v]
        vc.store_keeps [of cache2 _ _ "(operation, slot)" v]
      show ?thesis by (auto simp: vc.consistent_def map_le_def)
    qed (use None assms(1,3) in \<open>auto simp: cached_validator_def\<close>)
  qed
qed

theorem cached_validator_transparent_witness:
  "fst (cached_validator (\<lambda>_. Some (7 :: nat)) (\<lambda>_. None) (\<lambda>_. None) ''getSelf'' RequestBody JNull)
     (''getSelf'', RequestBody) = Some 7 \<and>
   snd (cached_validator (\<lambda>_. Some (7 :: nat)) (\<lambda>_. None) (\<lambda>_. None) ''getSelf'' RequestBody JNull) = Inr 7"
  using cached_validator_transparent [of "\<lambda>_. None" "\<lambda>_. Some (7 :: nat)" "\<lambda>_. JNull" "\<lambda>_. None"
      "''getSelf''" RequestBody "[(''getSelf'', RequestBody) \<mapsto> 7]" "Inr 7"]
  by (simp add: cached_validator_def or_insert_def)

section \<open>Fingerprints do not depend on member order\<close>

lemma bt_get_fold_insert:
  "bt_wf b \<Longrightarrow> bt_get (fold (\<lambda>(k, v) m. bt_insert k v m) ps b) k =
     (case map_of (rev ps) k of Some v \<Rightarrow> Some v | None \<Rightarrow> bt_get b k)"
  by (induction ps arbitrary: b) (auto simp: bt.wf_ins bt_lookup map_add_def split: option.splits)

lemma bt_get_from: "distinct (map fst ps) \<Longrightarrow> bt_get (bt_from ps) = map_of ps"
proof
  fix k
  assume d: "distinct (map fst ps)"
  then have "map_of (rev ps) = map_of ps"
    by (subst map_of_inject_set) (simp_all add: rev_map [symmetric])
  then show "bt_get (bt_from ps) k = map_of ps k"
    by (simp add: bt_from_def bt_get_fold_insert bt.wf_emp bt_lookup split: option.split)
qed

definition canonical_members :: "jmap \<Rightarrow> jmap" where
  "canonical_members m = map (\<lambda>(k, v). (k, canonical_json v)) m"

lemma canonical_members_get:
  "map_of (canonical_members m) k = map_option canonical_json (obj_get m k)"
  using map_values_get [of canonical_json m k] by (simp add: canonical_members_def obj_get_def)

lemma distinct_canonical_members: "obj_wf m \<Longrightarrow> distinct (map fst (canonical_members m))"
  using obj_wf_map_values [of canonical_json m] unfolding obj_wf_def canonical_members_def by simp

lemma canonical_json_JObj: "canonical_json (JObj m) = JObj (bt_from (canonical_members m))"
  by (simp add: canonical_members_def)

lemma canonical_json_cong:
  assumes "obj_wf m" "obj_wf n" "\<And>k. obj_get m k = obj_get n k"
  shows "canonical_json (JObj m) = canonical_json (JObj n)"
proof -
  have "bt_get (bt_from (canonical_members m)) = bt_get (bt_from (canonical_members n))"
    using assms by (auto simp: bt_get_from distinct_canonical_members canonical_members_get fun_eq_iff)
  then have "bt_from (canonical_members m) = bt_from (canonical_members n)"
    by (intro bt_eqI bt_wf_from)
  then show ?thesis unfolding canonical_json_JObj by simp
qed

text \<open>The fingerprint of a raw record depends on its members as a map, not on the order they
  are written in, and not on the fingerprint stored in the record itself.\<close>

theorem fingerprint_order_insensitive:
  assumes "obj_wf m" and "obj_wf n"
    and "\<forall>k. k \<noteq> ''source_fingerprint'' \<longrightarrow> obj_get m k = obj_get n k"
  shows "raw_operation_fingerprint to_vec digest_hex (JObj m) =
    raw_operation_fingerprint to_vec digest_hex (JObj n)"
proof -
  let ?strip = "obj_remove ''source_fingerprint''"
  have "canonical_json (JObj (?strip m)) = canonical_json (JObj (?strip n))"
    using assms by (intro canonical_json_cong) (auto simp: obj.wf_rem obj_lookup)
  then show ?thesis unfolding raw_operation_fingerprint_def by simp
qed

theorem fingerprint_order_insensitive_witness:
  "raw_operation_fingerprint to_vec digest_hex
     (JObj [(''tool'', JStr ''t''), (''source_fingerprint'', JStr ''f''), (''path'', JNull)]) =
   raw_operation_fingerprint to_vec digest_hex (JObj [(''path'', JNull), (''tool'', JStr ''t'')])"
  by (rule fingerprint_order_insensitive) (auto simp: obj_wf_def obj_get_def)

end
