(* ===== verification/Config.thy ===== *)
theory Config
  imports Target
begin

text \<open>
  \<open>config.rs\<close>: the strict profile of one Mist tenant and the validator of API endpoints.
  The \<open>url\<close> crate is the argument \<open>parse_url\<close>, whose result is the record of what the code
  reads of a parsed URL; the file system is the arguments \<open>read_file\<close> and \<open>lstat\<close>; reading
  the profile's JSON text is \<open>read_config\<close>.
\<close>

section \<open>Data\<close>

datatype config_error =
    ConfigRead string
  | ConfigParse string
  | CredentialMetadata string
  | ConfigInvalid string

datatype url_host = HostDomain string | HostAddress string

record url =
  url_scheme :: string
  url_username :: string
  url_password :: "string option"
  url_host_of :: "url_host option"
  url_port :: "u16 option"
  url_path :: string
  url_query :: "string option"
  url_fragment :: "string option"
  url_as_str :: string

record file_metadata =
  meta_is_symlink :: bool
  meta_is_file :: bool
  meta_mode :: u32

definition CONFIG_VERSION :: u32 where "CONFIG_VERSION = 1"
definition MAX_ALLOWED_ORGS :: nat where "MAX_ALLOWED_ORGS = 256"

record mist_config =
  config_version :: u32
  endpoint :: string
  credential_file :: string
  allowed_orgs :: "string list"

section \<open>Operations\<close>

definition is_mist_regional_host :: "string \<Rightarrow> bool" where
  "is_mist_regional_host host =
     (if eq_ignore_ascii_case host ''api.mist.com'' then True
      else let labels = split_on (CHR ''.'') host in
        length labels = 4
        \<and> eq_ignore_ascii_case (labels ! 0) ''api''
        \<and> labels ! 1 \<noteq> []
        \<and> eq_ignore_ascii_case (labels ! 2) ''mist''
        \<and> eq_ignore_ascii_case (labels ! 3) ''com'')"

definition validate_mist_endpoint ::
  "(string \<Rightarrow> url option) \<Rightarrow> string \<Rightarrow> config_error + url" where
  "validate_mist_endpoint parse_url e =
     (case parse_url e of
        None \<Rightarrow> Inl (ConfigInvalid ''endpoint must be a valid URL'')
      | Some u \<Rightarrow>
          if url_scheme u \<noteq> ''https'' \<or> url_username u \<noteq> [] \<or> url_password u \<noteq> None
            \<or> url_query u \<noteq> None \<or> url_fragment u \<noteq> None \<or> url_path u \<noteq> ''/'' \<or> url_port u \<noteq> None
          then Inl (ConfigInvalid ''endpoint must be an HTTPS Mist API root'')
          else (case url_host_of u of
              Some (HostDomain host) \<Rightarrow>
                if \<not> is_mist_regional_host host
                then Inl (ConfigInvalid ''endpoint host must be a Mist API regional domain'')
                else Inr u
            | _ \<Rightarrow> Inl (ConfigInvalid ''endpoint host must be a Mist API domain'')))"

text \<open>\<open>Path::is_absolute\<close> on Unix, where the mode check is compiled in.\<close>

definition path_is_absolute :: "string \<Rightarrow> bool" where
  "path_is_absolute p = starts_with ''/'' p"

definition validate_credential_file ::
  "(string \<Rightarrow> string + file_metadata) \<Rightarrow> string \<Rightarrow> config_error + unit" where
  "validate_credential_file lstat path =
     (if \<not> path_is_absolute path
      then Inl (ConfigInvalid ''credential file must be an absolute path'')
      else and_then (map_err CredentialMetadata (lstat path)) (\<lambda>metadata.
        if meta_is_symlink metadata \<or> \<not> meta_is_file metadata
        then Inl (ConfigInvalid ''credential file must be a regular non-symlink file'')
        else if and (meta_mode metadata) 0x1FF \<noteq> 0x180
        then Inl (ConfigInvalid ''credential file permissions must be exactly 0600'')
        else Inr ()))"

fun allowed_orgs_loop :: "string list \<Rightarrow> string set \<Rightarrow> config_error + unit" where
  "allowed_orgs_loop [] seen = Inr ()"
| "allowed_orgs_loop (org # orgs) seen =
     (if \<not> is_canonical_uuid org
      then Inl (ConfigInvalid ''allowed_orgs must contain canonical non-nil UUIDs'')
      else if org \<in> seen
      then Inl (ConfigInvalid ''allowed_orgs must not contain duplicates'')
      else allowed_orgs_loop orgs (insert org seen))"

definition validate_allowed_orgs :: "string list \<Rightarrow> config_error + unit" where
  "validate_allowed_orgs orgs =
     (if orgs = [] \<or> length orgs > MAX_ALLOWED_ORGS
      then Inl (ConfigInvalid ''allowed_orgs must contain 1-256 organizations'')
      else allowed_orgs_loop orgs {})"

definition config_base_url :: "(string \<Rightarrow> url option) \<Rightarrow> mist_config \<Rightarrow> config_error + url" where
  "config_base_url parse_url c = validate_mist_endpoint parse_url (endpoint c)"

definition config_validate ::
  "(string \<Rightarrow> url option) \<Rightarrow> (string \<Rightarrow> string + file_metadata) \<Rightarrow> mist_config \<Rightarrow> config_error + unit" where
  "config_validate parse_url lstat c =
     (if config_version c \<noteq> CONFIG_VERSION
      then Inl (ConfigInvalid ''unsupported config version'')
      else and_then (config_base_url parse_url c) (\<lambda>_.
        and_then (validate_credential_file lstat (credential_file c)) (\<lambda>_.
        validate_allowed_orgs (allowed_orgs c))))"

definition config_from_path ::
  "(string \<Rightarrow> string + string) \<Rightarrow> (string \<Rightarrow> string + mist_config) \<Rightarrow> (string \<Rightarrow> url option)
    \<Rightarrow> (string \<Rightarrow> string + file_metadata) \<Rightarrow> string \<Rightarrow> config_error + mist_config" where
  "config_from_path read_file read_config parse_url lstat path =
     and_then (map_err ConfigRead (read_file path)) (\<lambda>bytes.
     and_then (map_err ConfigParse (read_config bytes)) (\<lambda>config.
     and_then (config_validate parse_url lstat config) (\<lambda>_. Inr config)))"

section \<open>Lemmas\<close>

lemma allowed_orgs_loop_ok:
  "allowed_orgs_loop orgs seen = Inr () \<longleftrightarrow>
     list_all is_canonical_uuid orgs \<and> distinct orgs \<and> set orgs \<inter> seen = {}"
  by (induction orgs arbitrary: seen) auto

lemma to_ascii_lower_dot: "to_ascii_lower c = CHR ''.'' \<longleftrightarrow> c = CHR ''.''"
proof -
  have "to_ascii_lower c \<noteq> CHR ''.''" if "is_ascii_uppercase c"
  proof
    assume "to_ascii_lower c = CHR ''.''"
    then have "byte_of (char_of (byte_of c + 32)) = 46"
      using that by (simp add: to_ascii_lower_def byte_of_def)
    moreover have "byte_of (char_of (byte_of c + 32)) = byte_of c + 32"
      using that by (simp add: char_class_defs is_ascii_uppercase_def of_char_of)
    ultimately show False using that by (simp add: is_ascii_uppercase_def)
  qed
  moreover have "\<not> is_ascii_uppercase CHR ''.''" by (simp add: char_class_defs)
  ultimately show ?thesis by (cases "is_ascii_uppercase c") (auto simp: to_ascii_lower_def)
qed

lemma split_on_lowercase:
  "split_on (CHR ''.'') (to_ascii_lowercase s) = map to_ascii_lowercase (split_on (CHR ''.'') s)"
proof (induction s)
  case (Cons c cs)
  obtain w ws where "split_on (CHR ''.'') cs = w # ws" by (cases "split_on (CHR ''.'') cs") auto
  with Cons show ?case by (simp add: to_ascii_lowercase_def to_ascii_lower_dot)
qed (simp add: to_ascii_lowercase_def)

lemma split_on_append:
  "d \<notin> set a \<Longrightarrow> split_on d (a @ d # b) = a # split_on d b"
  by (induction a) auto

lemma split_on_absent: "d \<notin> set a \<Longrightarrow> split_on d a = [a]"
  by (induction a) auto

lemma four_labels:
  "split_on (CHR ''.'') s = [''api'', r, ''mist'', ''com''] \<longleftrightarrow>
     CHR ''.'' \<notin> set r \<and> s = ''api.'' @ r @ ''.mist.com''"
proof
  assume sp: "split_on (CHR ''.'') s = [''api'', r, ''mist'', ''com'']"
  then show "CHR ''.'' \<notin> set r \<and> s = ''api.'' @ r @ ''.mist.com''"
    using join_split_on [of "CHR ''.''" s] split_on_no_sep [of r "CHR ''.''" s] by simp
next
  assume "CHR ''.'' \<notin> set r \<and> s = ''api.'' @ r @ ''.mist.com''"
  then show "split_on (CHR ''.'') s = [''api'', r, ''mist'', ''com'']"
    using split_on_append [of "CHR ''.''" "''api''" "r @ ''.mist.com''"]
      split_on_append [of "CHR ''.''" r "''mist.com''"] by simp
qed

lemma length_four: "length xs = 4 \<Longrightarrow> xs = [xs ! 0, xs ! 1, xs ! 2, xs ! 3]"
  by (simp add: list_eq_iff_nth_eq) (auto simp: less_Suc_eq numeral_eq_Suc)

lemma lowercase_nonempty [simp]: "to_ascii_lowercase s = [] \<longleftrightarrow> s = []"
  by (simp add: to_ascii_lowercase_def)

section \<open>Properties\<close>

text \<open>Only \<open>api.mist.com\<close> and \<open>api.<region>.mist.com\<close> with one non-empty label for the
  region are Mist hosts, whatever the case of the letters: no suffix or further label can
  make a foreign host pass.\<close>

theorem regional_host_spec:
  "is_mist_regional_host host \<longleftrightarrow>
     to_ascii_lowercase host = ''api.mist.com'' \<or>
     (\<exists>region. region \<noteq> [] \<and> CHR ''.'' \<notin> set region \<and>
        to_ascii_lowercase host = ''api.'' @ region @ ''.mist.com'')"
proof -
  let ?l = "split_on (CHR ''.'') host"
  have lower: "to_ascii_lowercase ''api.mist.com'' = ''api.mist.com''"
    "to_ascii_lowercase ''api'' = ''api''" "to_ascii_lowercase ''mist'' = ''mist''"
    "to_ascii_lowercase ''com'' = ''com''"
    by code_simp+
  have "(\<exists>region. region \<noteq> [] \<and> CHR ''.'' \<notin> set region \<and>
        to_ascii_lowercase host = ''api.'' @ region @ ''.mist.com'') \<longleftrightarrow>
      (\<exists>region. region \<noteq> [] \<and> map to_ascii_lowercase ?l = [''api'', region, ''mist'', ''com''])"
    by (simp only: four_labels [symmetric] split_on_lowercase)
  also have "\<dots> \<longleftrightarrow> length ?l = 4 \<and> to_ascii_lowercase (?l ! 0) = ''api'' \<and> ?l ! 1 \<noteq> [] \<and>
      to_ascii_lowercase (?l ! 2) = ''mist'' \<and> to_ascii_lowercase (?l ! 3) = ''com''"
    (is "?ex \<longleftrightarrow> ?idx")
  proof
    assume ?ex
    then obtain a b c d where "?l = [a, b, c, d]" "b \<noteq> []" "to_ascii_lowercase a = ''api''"
        "to_ascii_lowercase c = ''mist''" "to_ascii_lowercase d = ''com''"
      by (auto simp: map_eq_Cons_conv)
    then show ?idx by simp
  next
    assume i: ?idx
    then have "map to_ascii_lowercase ?l = [''api'', to_ascii_lowercase (?l ! 1), ''mist'', ''com'']"
      by (subst length_four) simp_all
    with i show ?ex by auto
  qed
  finally show ?thesis
    by (simp add: is_mist_regional_host_def eq_ignore_ascii_case_def lower Let_def)
qed

text \<open>A profile is accepted exactly when its version is 1, its endpoint is an HTTPS root of
  a Mist host with no credentials, port, query or fragment, its credential file is an
  absolute path to a regular file that is no symbolic link and has mode 0600, and it lists
  1 to 256 distinct canonical organizations.\<close>

theorem config_validate_iff:
  "config_validate parse_url lstat c = Inr () \<longleftrightarrow>
     config_version c = 1 \<and>
     (\<exists>u host. parse_url (endpoint c) = Some u \<and> url_scheme u = ''https'' \<and> url_username u = [] \<and>
        url_password u = None \<and> url_query u = None \<and> url_fragment u = None \<and> url_path u = ''/'' \<and>
        url_port u = None \<and> url_host_of u = Some (HostDomain host) \<and> is_mist_regional_host host) \<and>
     (\<exists>rest. credential_file c = CHR ''/'' # rest) \<and>
     (\<exists>meta. lstat (credential_file c) = Inr meta \<and> \<not> meta_is_symlink meta \<and> meta_is_file meta \<and>
        and (meta_mode meta) 0x1FF = 0x180) \<and>
     allowed_orgs c \<noteq> [] \<and> length (allowed_orgs c) \<le> 256 \<and> distinct (allowed_orgs c) \<and>
     list_all is_canonical_uuid (allowed_orgs c)"
proof -
  have "is_ok (config_base_url parse_url c) \<longleftrightarrow>
      (\<exists>u host. parse_url (endpoint c) = Some u \<and> url_scheme u = ''https'' \<and> url_username u = [] \<and>
        url_password u = None \<and> url_query u = None \<and> url_fragment u = None \<and> url_path u = ''/'' \<and>
        url_port u = None \<and> url_host_of u = Some (HostDomain host) \<and> is_mist_regional_host host)"
    by (auto simp: config_base_url_def validate_mist_endpoint_def split: option.splits url_host.splits)
  moreover have "validate_credential_file lstat p = Inr () \<longleftrightarrow> (\<exists>rest. p = CHR ''/'' # rest) \<and>
      (\<exists>meta. lstat p = Inr meta \<and> \<not> meta_is_symlink meta \<and> meta_is_file meta \<and>
        and (meta_mode meta) 0x1FF = 0x180)" for p
    by (auto simp: validate_credential_file_def and_then_Inr_iff path_is_absolute_def starts_with_iff)
  moreover have "validate_allowed_orgs orgs = Inr () \<longleftrightarrow> orgs \<noteq> [] \<and> length orgs \<le> 256 \<and>
      distinct orgs \<and> list_all is_canonical_uuid orgs" for orgs
    by (auto simp: validate_allowed_orgs_def allowed_orgs_loop_ok MAX_ALLOWED_ORGS_def)
  moreover have "config_validate parse_url lstat c = Inr () \<longleftrightarrow> config_version c = 1 \<and>
      is_ok (config_base_url parse_url c) \<and> validate_credential_file lstat (credential_file c) = Inr () \<and>
      validate_allowed_orgs (allowed_orgs c) = Inr ()"
    by (auto simp: config_validate_def and_then_Inr_iff is_ok_iff CONFIG_VERSION_def)
  ultimately show ?thesis by simp
qed

end
