(* ===== verification/Pagination.thy ===== *)
theory Pagination
  imports Catalog Config
begin

text \<open>
  \<open>pagination.rs\<close> and the error type of \<open>client.rs\<close>: cursors bound to an operation, an origin
  and a pagination mode, their wire form and the request context they carry. Serializing a
  cursor is the argument \<open>cursor_json\<close>, which may fail; \<open>CursorWire\<close> has the document it writes.
\<close>

section \<open>Errors of the dispatch seam\<close>

datatype mist_error =
    UnknownOperation string
  | InvalidRequest string string
  | InvalidResponse string string
  | InvalidCursor string
  | RateLimited "u64 option"
  | TransportUnavailable
  | EndpointRetired string
  | Service string
  | BudgetExhausted u32 u32 u32

section \<open>Cursors\<close>

definition MAX_OPERATION_ID_BYTES :: nat where "MAX_OPERATION_ID_BYTES = 256"
definition MAX_CURSOR_BYTES :: nat where "MAX_CURSOR_BYTES = 4096"
definition MAX_ENCODED_CURSOR_BYTES :: nat where "MAX_ENCODED_CURSOR_BYTES = 262144"

record cursor_context =
  ctx_path :: "(string, string) btree"
  ctx_query :: "(string, json) btree"
  ctx_target :: "mist_target option"

record mist_cursor =
  cur_operation_id :: string
  cur_origin :: string
  cur_mode :: pagination_mode
  cur_value :: string
  cur_context :: "cursor_context option"

record mist_cursor_wire =
  wire_operation_id :: string
  wire_origin :: string
  wire_mode :: pagination_mode
  wire_value :: string
  wire_context :: "cursor_context option"

definition cursor_new ::
  "string \<Rightarrow> url \<Rightarrow> pagination_mode \<Rightarrow> string \<Rightarrow> mist_error + mist_cursor" where
  "cursor_new i origin mode v =
     (if i = [] \<or> length i > MAX_OPERATION_ID_BYTES
      then Inl (InvalidCursor ''operation ID must contain 1-256 bytes'')
      else if mode = PagNone
      then Inl (InvalidCursor ''pagination mode must not be none'')
      else if v = [] \<or> length v > MAX_CURSOR_BYTES
      then Inl (InvalidCursor ''cursor value must contain 1-4096 bytes'')
      else if mode = PageLimit \<and> (case parse_u64 v of None \<Rightarrow> True | Some n \<Rightarrow> n = 0)
      then Inl (InvalidCursor ''page-limit cursor value must be a positive integer'')
      else Inr \<lparr>cur_operation_id = i, cur_origin = url_as_str origin, cur_mode = mode,
                cur_value = v, cur_context = None\<rparr>)"

definition validate_encoded_size :: "(mist_cursor \<Rightarrow> string option) \<Rightarrow> mist_cursor \<Rightarrow> mist_error + unit" where
  "validate_encoded_size cursor_json c =
     (case cursor_json c of
        None \<Rightarrow> Inl (InvalidCursor ''cursor could not be serialized'')
      | Some serialized \<Rightarrow>
          if min (length serialized * 2) (2 ^ 64 - 1) > MAX_ENCODED_CURSOR_BYTES
          then Inl (InvalidCursor ''encoded cursor exceeds the 262144-byte bound'')
          else Inr ())"

definition with_request_context ::
  "(mist_cursor \<Rightarrow> string option) \<Rightarrow> (string, string) btree \<Rightarrow> (string, json) btree
    \<Rightarrow> mist_target option \<Rightarrow> mist_cursor \<Rightarrow> mist_error + mist_cursor" where
  "with_request_context cursor_json path query target c =
     (let c = c\<lparr>cur_context := Some \<lparr>ctx_path = path, ctx_query = query, ctx_target = target\<rparr>\<rparr>
      in and_then (validate_encoded_size cursor_json c) (\<lambda>_. Inr c))"

definition request_context ::
  "mist_cursor \<Rightarrow> ((string, string) btree \<times> (string, json) btree \<times> mist_target option) option" where
  "request_context c =
     map_option (\<lambda>ctx. (ctx_path ctx, ctx_query ctx, ctx_target ctx)) (cur_context c)"

definition cursor_validate_for :: "mist_cursor \<Rightarrow> mist_operation \<Rightarrow> url \<Rightarrow> mist_error + unit" where
  "cursor_validate_for c p origin =
     (if cur_operation_id c \<noteq> operation_id p
      then Inl (InvalidCursor ''cursor operation does not match request operation'')
      else if cur_origin c \<noteq> url_as_str origin
      then Inl (InvalidCursor ''cursor origin does not match request origin'')
      else if cur_mode c \<noteq> pagination p
      then Inl (InvalidCursor ''cursor pagination mode does not match request operation'')
      else Inr ())"

text \<open>\<open>TryFrom<MistCursorWire>\<close>, which deserializing a cursor runs; its error is only text.\<close>

definition cursor_try_from ::
  "(string \<Rightarrow> url option) \<Rightarrow> (mist_cursor \<Rightarrow> string option) \<Rightarrow> mist_cursor_wire \<Rightarrow> mist_error + mist_cursor" where
  "cursor_try_from parse_url cursor_json w =
     (case parse_url (wire_origin w) of
        None \<Rightarrow> Inl (InvalidCursor ''origin must be a URL'')
      | Some origin \<Rightarrow>
          and_then (cursor_new (wire_operation_id w) origin (wire_mode w) (wire_value w)) (\<lambda>c.
          let c = c\<lparr>cur_context := wire_context w\<rparr> in
          and_then (validate_encoded_size cursor_json c) (\<lambda>_. Inr c)))"

section \<open>Page information\<close>

record page_info =
  pi_page :: "u64 option"
  pi_limit :: "u64 option"
  pi_total :: "u64 option"

definition page_info_is_empty :: "page_info \<Rightarrow> bool" where
  "page_info_is_empty i \<longleftrightarrow> pi_page i = None \<and> pi_limit i = None \<and> pi_total i = None"

section \<open>Properties\<close>

lemma cursor_new_Inr:
  "cursor_new i origin mode v = Inr c \<longleftrightarrow>
     i \<noteq> [] \<and> length i \<le> 256 \<and> mode \<noteq> PagNone \<and> v \<noteq> [] \<and> length v \<le> 4096 \<and>
     (mode = PageLimit \<longrightarrow> (\<exists>n. parse_u64 v = Some n \<and> n \<noteq> 0)) \<and>
     c = \<lparr>cur_operation_id = i, cur_origin = url_as_str origin, cur_mode = mode,
          cur_value = v, cur_context = None\<rparr>"
  by (auto simp: cursor_new_def MAX_OPERATION_ID_BYTES_def MAX_CURSOR_BYTES_def split: option.splits)

lemma validate_encoded_size_Inr:
  "validate_encoded_size cursor_json c = Inr () \<Longrightarrow> \<exists>s. cursor_json c = Some s"
  by (auto simp: validate_encoded_size_def split: option.splits)

text \<open>A cursor continues a request exactly when it names the request's operation, the
  configured origin and the operation's pagination mode; so a cursor that was issued for one
  operation, origin or mode is refused for any other.\<close>

theorem cursor_bound_to_request:
  assumes "cursor_new i origin mode v = Inr c"
  shows "cursor_validate_for c p origin' = Inr () \<longleftrightarrow>
    operation_id p = i \<and> url_as_str origin' = url_as_str origin \<and> pagination p = mode"
proof -
  have "c = \<lparr>cur_operation_id = i, cur_origin = url_as_str origin, cur_mode = mode,
      cur_value = v, cur_context = None\<rparr>"
    using assms by (simp add: cursor_new_Inr)
  then show ?thesis by (auto simp: cursor_validate_for_def)
qed

definition example_origin :: url where
  "example_origin = \<lparr>url_scheme = ''https'', url_username = [], url_password = None,
     url_host_of = Some (HostDomain ''api.mist.com''), url_port = None, url_path = ''/'',
     url_query = None, url_fragment = None, url_as_str = ''https://api.mist.com/''\<rparr>"

lemma example_page_cursor:
  "cursor_new ''listOrgSites'' example_origin PageLimit ''2'' =
     Inr \<lparr>cur_operation_id = ''listOrgSites'', cur_origin = ''https://api.mist.com/'',
          cur_mode = PageLimit, cur_value = ''2'', cur_context = None\<rparr>"
  by (auto simp: cursor_new_Inr example_origin_def parse_u64_def digits_value_def char_class_defs Let_def)

theorem cursor_bound_to_request_witness:
  "cursor_validate_for \<lparr>cur_operation_id = ''listOrgSites'', cur_origin = ''https://api.mist.com/'',
     cur_mode = PageLimit, cur_value = ''2'', cur_context = None\<rparr> get_self example_origin \<noteq> Inr ()"
  using cursor_bound_to_request [OF example_page_cursor, of get_self example_origin]
  by (simp add: get_self_def)

end
