(* ===== verification/Request.thy ===== *)
theory Request
  imports Relax Pagination
begin

text \<open>
  \<open>request.rs\<close>: requests and responses, and their validation against the catalog. The
  \<open>jsonschema\<close> crate is the record \<open>json_schema\<close>: compiling a schema, and the errors a
  compiled validator reports for a value, in the crate's own shape. \<open>js_cache\<close> is the
  validator cache as the calls find it; the cache property of the theory Relax says that what a
  consistent cache holds does not matter. Serializing a response is \<open>response_json\<close>.
\<close>

section \<open>Data\<close>

definition MAX_PATH_VALUES :: nat where "MAX_PATH_VALUES = 8"
definition MAX_QUERY_VALUES :: nat where "MAX_QUERY_VALUES = 64"
definition MAX_VALUE_DEPTH :: nat where "MAX_VALUE_DEPTH = 32"
definition MAX_VALUE_MEMBERS :: nat where "MAX_VALUE_MEMBERS = 1024"
definition MAX_VALUE_STRING_BYTES :: nat where "MAX_VALUE_STRING_BYTES = 32768"
definition MAX_RESPONSE_BODY_BYTES :: nat where "MAX_RESPONSE_BODY_BYTES = 524288"
definition MAX_RESPONSE_SERIALIZED_BYTES :: nat where "MAX_RESPONSE_SERIALIZED_BYTES = 1048576"

record mist_request =
  req_operation_id :: string
  req_path :: "(string, string) btree"
  req_query :: "(string, json) btree"
  req_json :: "json option"
  req_cursor :: "mist_cursor option"

datatype response_body = BodyJson json | BodyText string | BodyBinary "u8 list" | BodyEmpty

record mist_response =
  resp_operation_id :: string
  resp_status :: u16
  resp_body :: response_body
  resp_cursor :: "mist_cursor option"
  resp_page :: "page_info option"

text \<open>
  \<open>jsonschema::error\<close>, as far as the code looks at it. Limits are kept in their printed form;
  \<open>OtherKind\<close> is every kind the code formats by its keyword alone.
\<close>

datatype type_kind = TypeSingle string | TypeMultiple "string list"

datatype error_kind =
    ErrType type_kind
  | ErrEnum json
  | ErrAdditionalProperties "string list"
  | ErrRequired string
  | ErrFormat string
  | ErrPattern string
  | ErrMinLength string
  | ErrMaxLength string
  | ErrMinimum string
  | ErrMaximum string
  | ErrMinItems string
  | ErrMaxItems string
  | ErrUniqueItems
  | ErrMinProperties string
  | ErrMaxProperties string
  | OtherKind string

record schema_error =
  err_instance_path :: string
  err_instance :: json
  err_kind :: error_kind

record 'v json_schema =
  js_compile :: "json \<Rightarrow> 'v option"
  js_errors :: "'v \<Rightarrow> json \<Rightarrow> schema_error list"
  js_cache :: "'v validator_cache"

section \<open>Bounds\<close>

definition invalid :: "mist_request \<Rightarrow> string \<Rightarrow> mist_error + 'a" where
  "invalid r reason = Inl (InvalidRequest (req_operation_id r) reason)"

definition invalid_response :: "mist_response \<Rightarrow> string \<Rightarrow> mist_error + 'a" where
  "invalid_response r reason = Inl (InvalidResponse (resp_operation_id r) reason)"

fun validate_value_bounds :: "json \<Rightarrow> nat \<Rightarrow> string + unit" where
  "validate_value_bounds v depth =
     (if depth > MAX_VALUE_DEPTH then Inl ''JSON value exceeds the Mist input depth bound of 32''
      else (case v of
          JStr s \<Rightarrow> if length s > MAX_VALUE_STRING_BYTES
            then Inl ''JSON strings must not exceed 32768 bytes'' else Inr ()
        | JArr vs \<Rightarrow> if length vs > MAX_VALUE_MEMBERS
            then Inl ''JSON arrays must not exceed 1024 members''
            else try_each (\<lambda>w. validate_value_bounds w (depth + 1)) vs
        | JObj m \<Rightarrow> if length m > MAX_VALUE_MEMBERS
            then Inl ''JSON objects must not exceed 1024 members''
            else try_each (\<lambda>(name, w). if length name > MAX_OPERATION_ID_BYTES
              then Inl ''JSON object keys must not exceed 256 bytes''
              else validate_value_bounds w (depth + 1)) m
        | _ \<Rightarrow> Inr ()))"

declare validate_value_bounds.simps [simp del]

definition validate_request_bounds :: "mist_request \<Rightarrow> mist_error + unit" where
  "validate_request_bounds r =
     (if req_operation_id r = [] \<or> length (req_operation_id r) > MAX_OPERATION_ID_BYTES
      then invalid r ''operation ID must contain 1-256 bytes''
      else if length (req_path r) > MAX_PATH_VALUES
      then invalid r ''path values exceed the Mist input bound of 8''
      else if length (req_query r) > MAX_QUERY_VALUES
      then invalid r ''query values exceed the Mist input bound of 64''
      else
        and_then (try_each (\<lambda>(name, v).
            if name = [] \<or> length name > MAX_OPERATION_ID_BYTES
            then invalid r ''path parameter names must contain 1-256 bytes''
            else if length v > MAX_VALUE_STRING_BYTES
            then invalid r ''path values must not exceed 32768 bytes''
            else Inr ()) (req_path r)) (\<lambda>_.
        and_then (try_each (\<lambda>name.
            if name = [] \<or> length name > MAX_OPERATION_ID_BYTES
            then invalid r ''query parameter names must contain 1-256 bytes''
            else Inr ()) (bt_keys (req_query r))) (\<lambda>_.
        and_then (case req_json r of
            None \<Rightarrow> Inr ()
          | Some v \<Rightarrow> map_err (InvalidRequest (req_operation_id r)) (validate_value_bounds v 0)) (\<lambda>_.
        try_each (\<lambda>v. map_err (InvalidRequest (req_operation_id r)) (validate_value_bounds v 0))
          (bt_values (req_query r))))))"

section \<open>Schema errors\<close>

fun json_type_name :: "json \<Rightarrow> string" where
  "json_type_name JNull = ''null''"
| "json_type_name (JBool _) = ''boolean''"
| "json_type_name (JNum _) = ''number''"
| "json_type_name (JStr _) = ''string''"
| "json_type_name (JArr _) = ''array''"
| "json_type_name (JObj _) = ''object''"

definition dq :: string where "dq = [char_of (34 :: nat)]"
definition nl :: string where "nl = [char_of (10 :: nat)]"

fun format_validation_error_kind :: "error_kind \<Rightarrow> string \<Rightarrow> string" where
  "format_validation_error_kind (ErrType k) actual =
     (let expected = (case k of
          TypeSingle t \<Rightarrow> ''['' @ dq @ t @ dq @ '']''
        | TypeMultiple ts \<Rightarrow> ''['' @ join '', '' (map (\<lambda>t. dq @ t @ dq) ts) @ '']'')
      in ''expected one of '' @ expected @ '', got '' @ actual)"
| "format_validation_error_kind (ErrEnum options) actual =
     (let count = (case as_array options of None \<Rightarrow> 0 | Some a \<Rightarrow> length a) in
      ''value ('' @ actual @ '') not in enum (expected one of '' @ dec_nat count @ '' options)'')"
| "format_validation_error_kind (ErrAdditionalProperties unexpected) actual =
     ''unexpected properties: '' @ join '', '' (map (\<lambda>s. dq @ s @ dq) unexpected)"
| "format_validation_error_kind (ErrRequired property) actual =
     ''missing required property '' @ dq @ property @ dq"
| "format_validation_error_kind (ErrFormat f) actual =
     ''value ('' @ actual @ '') does not match format '' @ dq @ f @ dq"
| "format_validation_error_kind (ErrPattern p) actual =
     ''value (string) does not match pattern '' @ dq @ p @ dq"
| "format_validation_error_kind (ErrMinLength l) actual = ''string length below minimum '' @ l"
| "format_validation_error_kind (ErrMaxLength l) actual = ''string length exceeds maximum '' @ l"
| "format_validation_error_kind (ErrMinimum l) actual = ''number below minimum '' @ l"
| "format_validation_error_kind (ErrMaximum l) actual = ''number exceeds maximum '' @ l"
| "format_validation_error_kind (ErrMinItems l) actual = ''array has fewer than '' @ l @ '' items''"
| "format_validation_error_kind (ErrMaxItems l) actual = ''array has more than '' @ l @ '' items''"
| "format_validation_error_kind ErrUniqueItems actual = ''array contains duplicate items''"
| "format_validation_error_kind (ErrMinProperties l) actual =
     ''object has fewer than '' @ l @ '' properties''"
| "format_validation_error_kind (ErrMaxProperties l) actual =
     ''object has more than '' @ l @ '' properties''"
| "format_validation_error_kind (OtherKind keyword) actual =
     ''validation failed: '' @ keyword @ '' (type: '' @ actual @ '')''"

datatype direction = Outbound | Inbound

definition MAX_ERRORS_SHOWN :: nat where "MAX_ERRORS_SHOWN = 5"

definition schema_root :: "catalog \<Rightarrow> json \<Rightarrow> direction \<Rightarrow> json" where
  "schema_root c schema d = (case d of
      Outbound \<Rightarrow> JObj [(''components'', cat_components c), (''allOf'', JArr [schema])]
    | Inbound \<Rightarrow> JObj [(''components'', relaxed_components c),
                      (''allOf'', JArr [relax_for_responses schema])])"

definition describe_error :: "schema_error \<Rightarrow> string" where
  "describe_error e =
     (let path = (if err_instance_path e = [] then ''(root)'' else err_instance_path e);
          actual_type = json_type_name (err_instance e);
          description = format_validation_error_kind (err_kind e) actual_type
      in ''  - field '' @ path @ '': '' @ description)"

definition schema_matches ::
  "'v json_schema \<Rightarrow> catalog \<Rightarrow> string \<Rightarrow> schema_slot \<Rightarrow> json \<Rightarrow> json \<Rightarrow> direction
    \<Rightarrow> unit + (string + unit)" where
  "schema_matches js c operation slot schema v d =
     and_then (snd (cached_validator (js_compile js) (js_cache js) (js_cache js) operation slot
       (schema_root c schema d))) (\<lambda>validator.
     let errors = js_errors js validator v in
     if errors = [] then Inr (Inr ())
     else
       let error_list = map describe_error (take MAX_ERRORS_SHOWN errors);
           message = join nl error_list;
           message = (if length error_list = MAX_ERRORS_SHOWN
             then message @ nl @ ''  ... (showing first '' @ dec_nat MAX_ERRORS_SHOWN
                  @ '' of potentially more errors)''
             else message)
       in Inr (Inl message))"

section \<open>Requests\<close>

definition validate_schema ::
  "'v json_schema \<Rightarrow> mist_request \<Rightarrow> catalog \<Rightarrow> string \<Rightarrow> schema_slot \<Rightarrow> json \<Rightarrow> json
    \<Rightarrow> mist_error + unit" where
  "validate_schema js r c operation slot schema v =
     (case schema_matches js c operation slot schema v Outbound of
        Inr (Inr _) \<Rightarrow> Inr ()
      | Inr (Inl details) \<Rightarrow> invalid r (''value violates catalog schema:'' @ nl @ details)
      | Inl _ \<Rightarrow> invalid r ''catalog schema compilation failed'')"

text \<open>
  \<open>validate_parameter_set\<close> is called with the locations \<open>path\<close> and \<open>query\<close> only; the values
  it looks up are \<open>supplied_value\<close>. The set difference is sorted, as the map's keys are.
\<close>

datatype parameter_location = PathParam | QueryParam

definition location_name :: "parameter_location \<Rightarrow> string" where
  "location_name l = (case l of PathParam \<Rightarrow> ''path'' | QueryParam \<Rightarrow> ''query'')"

definition supplied_names :: "mist_request \<Rightarrow> parameter_location \<Rightarrow> string list" where
  "supplied_names r l = (case l of PathParam \<Rightarrow> bt_keys (req_path r) | QueryParam \<Rightarrow> bt_keys (req_query r))"

definition supplied_value :: "mist_request \<Rightarrow> parameter_location \<Rightarrow> string \<Rightarrow> json option" where
  "supplied_value r l name = (case l of
      PathParam \<Rightarrow> map_option JStr (bt_get (req_path r) name)
    | QueryParam \<Rightarrow> bt_get (req_query r) name)"

definition declared_parameters :: "mist_operation \<Rightarrow> parameter_location \<Rightarrow> mist_parameter list" where
  "declared_parameters p l = filter (\<lambda>q. param_location q = location_name l) (parameters p)"

definition validate_parameter_set ::
  "'v json_schema \<Rightarrow> mist_request \<Rightarrow> mist_operation \<Rightarrow> catalog \<Rightarrow> parameter_location
    \<Rightarrow> mist_error + unit" where
  "validate_parameter_set js r p c l =
     (let declared = map param_name (declared_parameters p l) in
      case find (\<lambda>name. name \<notin> set declared) (supplied_names r l) of
        Some extra \<Rightarrow> invalid r (''undeclared '' @ location_name l @ '' parameter: '' @ extra)
      | None \<Rightarrow> try_each (\<lambda>q. case supplied_value r l (param_name q) of
            Some v \<Rightarrow> validate_schema js r c (operation_key p)
              (RequestParameter (location_name l) (param_name q)) (param_schema q) v
          | None \<Rightarrow> if param_required q
              then invalid r (''missing required '' @ location_name l @ '' parameter: '' @ param_name q)
              else Inr ()) (declared_parameters p l))"

definition validate_parameters ::
  "'v json_schema \<Rightarrow> mist_request \<Rightarrow> mist_operation \<Rightarrow> catalog \<Rightarrow> mist_error + unit" where
  "validate_parameters js r p c =
     and_then (validate_parameter_set js r p c PathParam) (\<lambda>_. validate_parameter_set js r p c QueryParam)"

definition validate_json_body ::
  "'v json_schema \<Rightarrow> mist_request \<Rightarrow> mist_operation \<Rightarrow> catalog \<Rightarrow> mist_error + unit" where
  "validate_json_body js r p c =
     (case req_json r of
        None \<Rightarrow> if request_body_required p
          then invalid r ''operation requires an application/json request body'' else Inr ()
      | Some v \<Rightarrow> (case bt_get (request_schemas p) ''application/json'' of
            None \<Rightarrow> invalid r ''operation does not declare an application/json request body''
          | Some schema \<Rightarrow> validate_schema js r c (operation_key p) RequestBody schema v))"

definition request_validate ::
  "'v json_schema \<Rightarrow> catalog \<Rightarrow> url \<Rightarrow> mist_request \<Rightarrow> mist_error + mist_request" where
  "request_validate js c origin r =
     and_then (validate_request_bounds r) (\<lambda>_.
     and_then (ok_or (UnknownOperation (req_operation_id r)) (catalog_operation c (req_operation_id r))) (\<lambda>p.
     and_then (validate_parameters js r p c) (\<lambda>_.
     and_then (validate_json_body js r p c) (\<lambda>_.
     and_then (case req_cursor r of None \<Rightarrow> Inr () | Some cur \<Rightarrow> cursor_validate_for cur p origin) (\<lambda>_.
     Inr r)))))"

section \<open>Responses\<close>

definition is_json_media :: "string \<Rightarrow> bool" where
  "is_json_media media \<longleftrightarrow> starts_with ''application/'' media \<and> str_contains ''json'' media"

definition validate_response_bounds ::
  "(mist_response \<Rightarrow> string option) \<Rightarrow> mist_response \<Rightarrow> mist_error + unit" where
  "validate_response_bounds response_json r =
     (if resp_operation_id r = [] \<or> length (resp_operation_id r) > MAX_OPERATION_ID_BYTES
      then invalid_response r ''operation ID must contain 1-256 bytes''
      else
        and_then (case resp_body r of
            BodyJson v \<Rightarrow> map_err (InvalidResponse (resp_operation_id r)) (validate_value_bounds v 0)
          | BodyText t \<Rightarrow> if length t > MAX_RESPONSE_BODY_BYTES
              then invalid_response r ''text body exceeds the 524288-byte DTO bound'' else Inr ()
          | BodyBinary b \<Rightarrow> if length b > MAX_RESPONSE_BODY_BYTES
              then invalid_response r ''binary body exceeds the 524288-byte DTO bound'' else Inr ()
          | BodyEmpty \<Rightarrow> Inr ()) (\<lambda>_.
        and_then (ok_or (InvalidResponse (resp_operation_id r) ''response DTO could not be serialized'')
          (response_json r)) (\<lambda>serialized.
        if length serialized > MAX_RESPONSE_SERIALIZED_BYTES
        then invalid_response r ''response exceeds the 1048576-byte serialized DTO bound''
        else Inr ())))"

text \<open>
  The loop over the JSON media of a status: the first schema that accepts ends it; the
  messages of the others are collected.
\<close>

fun response_schema_loop ::
  "(string \<Rightarrow> json \<Rightarrow> unit + (string + unit)) \<Rightarrow> (string \<times> json) list \<Rightarrow> string list
    \<Rightarrow> string list + unit" where
  "response_schema_loop match [] all_errors = Inl all_errors"
| "response_schema_loop match ((media, schema) # rest) all_errors =
     (case match media schema of
        Inr (Inr _) \<Rightarrow> Inr ()
      | Inr (Inl details) \<Rightarrow> response_schema_loop match rest
          (all_errors @ [''Schema for '' @ media @ '':'' @ nl @ details])
      | Inl _ \<Rightarrow> response_schema_loop match rest
          (all_errors @ [''Schema for '' @ media @ '': compilation failed'']))"

definition json_body_result ::
  "(string \<Rightarrow> json \<Rightarrow> unit + (string + unit)) \<Rightarrow> media_schemas \<Rightarrow> string + unit" where
  "json_body_result match rs =
     (let schemas = filter (\<lambda>(media, _). is_json_media media) rs in
      if schemas = [] then Inl ''JSON body does not match declared response media''
      else (case response_schema_loop match schemas [] of
          Inr _ \<Rightarrow> Inr ()
        | Inl all_errors \<Rightarrow>
            if all_errors = []
            then Inl ''JSON body violates declared response schema (no details available)''
            else Inl (''JSON body violates declared response schema:'' @ nl @ join (nl @ nl) all_errors)))"

definition validate_response_body ::
  "'v json_schema \<Rightarrow> mist_response \<Rightarrow> media_schemas \<Rightarrow> catalog \<Rightarrow> mist_error + unit" where
  "validate_response_body js r rs c =
     (if rs = [] then
        (if resp_body r = BodyEmpty then Inr ()
         else invalid_response r ''declared no-content status requires an empty body'')
      else map_err (InvalidResponse (resp_operation_id r)) (case resp_body r of
          BodyEmpty \<Rightarrow> Inl ''declared response media requires a body''
        | BodyJson v \<Rightarrow> json_body_result (\<lambda>media schema.
            schema_matches js c (resp_operation_id r)
              (ResponseBody (dec_nat (unat (resp_status r))) media) schema v Inbound) rs
        | BodyText _ \<Rightarrow> if list_ex (starts_with ''text/'') (bt_keys rs) then Inr ()
            else Inl ''text body does not match declared response media''
        | BodyBinary _ \<Rightarrow> if bt_contains_key rs ''application/octet-stream'' then Inr ()
            else Inl ''binary body does not match declared response media''))"

definition response_validate ::
  "'v json_schema \<Rightarrow> (mist_response \<Rightarrow> string option) \<Rightarrow> catalog \<Rightarrow> url \<Rightarrow> mist_response
    \<Rightarrow> mist_error + mist_response" where
  "response_validate js response_json c origin r =
     and_then (ok_or (UnknownOperation (resp_operation_id r)) (catalog_operation c (resp_operation_id r))) (\<lambda>p.
     let status = dec_nat (unat (resp_status r)) in
     and_then (ok_or (InvalidResponse (resp_operation_id r) ''status is not declared for operation'')
       (bt_get (responses p) status)) (\<lambda>rs.
     and_then (validate_response_bounds response_json r) (\<lambda>_.
     and_then (validate_response_body js r rs c) (\<lambda>_.
     and_then (case resp_cursor r of None \<Rightarrow> Inr () | Some cur \<Rightarrow> cursor_validate_for cur p origin) (\<lambda>_.
     Inr r)))))"

section \<open>What the bounds mean\<close>

fun json_depth :: "json \<Rightarrow> nat" where
  "json_depth (JArr xs) = foldr (\<lambda>x n. max (Suc (json_depth x)) n) xs 0"
| "json_depth (JObj m) = foldr (\<lambda>(k, x) n. max (Suc (json_depth x)) n) m 0"
| "json_depth _ = 0"

fun part_ok :: "json \<Rightarrow> bool" where
  "part_ok (JStr s) = (length s \<le> 32768)"
| "part_ok (JArr xs) = (length xs \<le> 1024)"
| "part_ok (JObj m) = (length m \<le> 1024 \<and> list_all (\<lambda>(k, x). length k \<le> 256) m)"
| "part_ok _ = True"

lemma foldr_depth_le:
  "n + foldr (\<lambda>x k. max (Suc (f x)) k) xs 0 \<le> (b :: nat) \<longleftrightarrow>
     n \<le> b \<and> (\<forall>x \<in> set xs. Suc n + f x \<le> b)"
  by (induction xs) auto

lemma depth_JArr: "n + json_depth (JArr xs) \<le> b \<longleftrightarrow> n \<le> b \<and> (\<forall>x \<in> set xs. Suc n + json_depth x \<le> b)"
  by (simp only: json_depth.simps foldr_depth_le)

lemma depth_JObj:
  "n + json_depth (JObj m) \<le> b \<longleftrightarrow> n \<le> b \<and> (\<forall>p \<in> set m. Suc n + json_depth (snd p) \<le> b)"
  by (simp only: json_depth.simps foldr_depth_le case_prod_unfold)

lemma value_bounds_spec:
  "validate_value_bounds v d = Inr () \<longleftrightarrow> d + json_depth v \<le> 32 \<and> list_all part_ok (json_parts v)"
proof (induction v arbitrary: d)
  case (JArr xs)
  have "(\<forall>x \<in> set xs. validate_value_bounds x (Suc d) = Inr ()) \<longleftrightarrow>
      (\<forall>x \<in> set xs. Suc d + json_depth x \<le> 32) \<and> (\<forall>x \<in> set xs. list_all part_ok (json_parts x))"
    using JArr by blast
  then show ?case unfolding depth_JArr
    by (subst validate_value_bounds.simps)
      (auto simp: MAX_VALUE_DEPTH_def MAX_VALUE_MEMBERS_def list_all_iff)
next
  case (JObj m)
  have "(\<forall>p \<in> set m. validate_value_bounds (snd p) (Suc d) = Inr ()) \<longleftrightarrow>
      (\<forall>p \<in> set m. Suc d + json_depth (snd p) \<le> 32) \<and> (\<forall>p \<in> set m. list_all part_ok (json_parts (snd p)))"
    using JObj by (meson snds.intros surjective_pairing)
  then show ?case unfolding depth_JObj
    by (subst validate_value_bounds.simps)
      (auto simp: MAX_VALUE_DEPTH_def MAX_VALUE_MEMBERS_def MAX_OPERATION_ID_BYTES_def list_all_iff
        case_prod_beta)
qed (subst validate_value_bounds.simps; auto simp: MAX_VALUE_DEPTH_def MAX_VALUE_STRING_BYTES_def)+

section \<open>What validation establishes\<close>

definition schema_accepts ::
  "'v json_schema \<Rightarrow> catalog \<Rightarrow> string \<Rightarrow> schema_slot \<Rightarrow> json \<Rightarrow> json \<Rightarrow> direction \<Rightarrow> bool" where
  "schema_accepts js c operation slot schema v d \<longleftrightarrow>
     (case snd (cached_validator (js_compile js) (js_cache js) (js_cache js) operation slot
         (schema_root c schema d)) of
        Inl _ \<Rightarrow> False | Inr validator \<Rightarrow> js_errors js validator v = [])"

lemma schema_matches_ok_iff:
  "schema_matches js c operation slot schema v d = Inr (Inr ()) \<longleftrightarrow>
     schema_accepts js c operation slot schema v d"
  by (auto simp: schema_matches_def schema_accepts_def and_then_Inr_iff Let_def split: sum.split)

lemma invalid_neq [simp]: "invalid r m \<noteq> Inr x" "invalid_response s m \<noteq> Inr y"
  by (simp_all add: invalid_def invalid_response_def)

lemma validate_schema_ok_iff:
  "validate_schema js r c operation slot schema v = Inr () \<longleftrightarrow>
     schema_accepts js c operation slot schema v Outbound"
  by (auto simp: validate_schema_def schema_matches_ok_iff [symmetric] split: sum.split)

definition parameters_ok ::
  "'v json_schema \<Rightarrow> catalog \<Rightarrow> mist_operation \<Rightarrow> mist_request \<Rightarrow> parameter_location \<Rightarrow> bool" where
  "parameters_ok js c p r l \<longleftrightarrow>
     set (supplied_names r l) \<subseteq> param_name ` set (declared_parameters p l) \<and>
     list_all (\<lambda>q. case supplied_value r l (param_name q) of
         None \<Rightarrow> \<not> param_required q
       | Some v \<Rightarrow> schema_accepts js c (operation_key p)
           (RequestParameter (location_name l) (param_name q)) (param_schema q) v Outbound)
       (declared_parameters p l)"

lemma validate_parameter_set_ok_iff:
  "validate_parameter_set js r p c l = Inr () \<longleftrightarrow> parameters_ok js c p r l"
  by (auto simp: validate_parameter_set_def parameters_ok_def Let_def find_None_iff find_Some_iff
      list_all_iff nth_mem subset_iff
      validate_schema_ok_iff split: option.splits)

definition body_ok :: "'v json_schema \<Rightarrow> catalog \<Rightarrow> mist_operation \<Rightarrow> mist_request \<Rightarrow> bool" where
  "body_ok js c p r \<longleftrightarrow>
     (case req_json r of
        None \<Rightarrow> \<not> request_body_required p
      | Some v \<Rightarrow> (\<exists>schema. bt_get (request_schemas p) ''application/json'' = Some schema \<and>
          schema_accepts js c (operation_key p) RequestBody schema v Outbound))"

lemma validate_json_body_ok_iff: "validate_json_body js r p c = Inr () \<longleftrightarrow> body_ok js c p r"
  by (auto simp: validate_json_body_def body_ok_def validate_schema_ok_iff split: option.splits)

lemma response_schema_loop_ok_iff:
  "response_schema_loop match ms errs = Inr () \<longleftrightarrow>
     (\<exists>(media, schema) \<in> set ms. match media schema = Inr (Inr ()))"
  by (induction match ms errs rule: response_schema_loop.induct) (auto split: sum.splits)

lemma json_body_result_ok_iff:
  "json_body_result match rs = Inr () \<longleftrightarrow>
     (\<exists>(media, schema) \<in> set rs. is_json_media media \<and> match media schema = Inr (Inr ()))"
proof -
  let ?ms = "filter (\<lambda>(media, _). is_json_media media) rs"
  have "json_body_result match rs = Inr () \<longleftrightarrow> ?ms \<noteq> [] \<and> response_schema_loop match ?ms [] = Inr ()"
    by (auto simp: json_body_result_def Let_def split: sum.split)
  also have "\<dots> \<longleftrightarrow> (\<exists>(media, schema) \<in> set ?ms. match media schema = Inr (Inr ()))"
    by (subst response_schema_loop_ok_iff) (auto simp: filter_empty_conv)
  finally show ?thesis by auto
qed

definition media_body_ok :: "'v json_schema \<Rightarrow> catalog \<Rightarrow> media_schemas \<Rightarrow> mist_response \<Rightarrow> bool" where
  "media_body_ok js c rs r \<longleftrightarrow>
     (if rs = [] then resp_body r = BodyEmpty
      else case resp_body r of
          BodyEmpty \<Rightarrow> False
        | BodyJson v \<Rightarrow> (\<exists>(media, schema) \<in> set rs. is_json_media media \<and>
            schema_accepts js c (resp_operation_id r)
              (ResponseBody (dec_nat (unat (resp_status r))) media) schema v Inbound)
        | BodyText _ \<Rightarrow> (\<exists>media \<in> set (bt_keys rs). starts_with ''text/'' media)
        | BodyBinary _ \<Rightarrow> bt_contains_key rs ''application/octet-stream'')"

lemma validate_response_body_ok_iff:
  "validate_response_body js r rs c = Inr () \<longleftrightarrow> media_body_ok js c rs r"
  by (auto simp: validate_response_body_def media_body_ok_def json_body_result_ok_iff list_ex_iff
      schema_matches_ok_iff split: response_body.splits)

section \<open>Properties\<close>

text \<open>The recursive bound check accepts a JSON value exactly when no part of it is nested
  more than 32 deep, no string is longer than 32768 bytes, no array or object has more than
  1024 members and no object key is longer than 256 bytes.\<close>

theorem value_bounds_exact:
  "validate_value_bounds v 0 = Inr () \<longleftrightarrow> json_depth v \<le> 32 \<and> list_all part_ok (json_parts v)"
  by (simp add: value_bounds_spec)

lemma request_validate_Inr:
  "request_validate js c origin r = Inr r' \<longleftrightarrow>
     r' = r \<and> validate_request_bounds r = Inr () \<and>
     (\<exists>p. catalog_operation c (req_operation_id r) = Some p \<and>
        parameters_ok js c p r PathParam \<and> parameters_ok js c p r QueryParam \<and> body_ok js c p r \<and>
        (case req_cursor r of None \<Rightarrow> True | Some cur \<Rightarrow> cursor_validate_for cur p origin = Inr ()))"
  by (auto simp: request_validate_def and_then_Inr_iff validate_parameters_def
      validate_parameter_set_ok_iff validate_json_body_ok_iff split: option.splits)

lemma response_validate_Inr:
  "response_validate js response_json c origin r = Inr r' \<longleftrightarrow>
     r' = r \<and> validate_response_bounds response_json r = Inr () \<and>
     (\<exists>p rs. catalog_operation c (resp_operation_id r) = Some p \<and>
        bt_get (responses p) (dec_nat (unat (resp_status r))) = Some rs \<and> media_body_ok js c rs r \<and>
        (case resp_cursor r of None \<Rightarrow> True | Some cur \<Rightarrow> cursor_validate_for cur p origin = Inr ()))"
  by (auto simp: response_validate_def and_then_Inr_iff validate_response_body_ok_iff Let_def
      split: option.splits)

section \<open>The bounds and bindings by what they ask\<close>

definition bounded_name :: "string \<Rightarrow> bool" where
  "bounded_name n \<longleftrightarrow> n \<noteq> [] \<and> length n \<le> 256"

definition bounded_value :: "json \<Rightarrow> bool" where
  "bounded_value v \<longleftrightarrow> json_depth v \<le> 32 \<and> list_all part_ok (json_parts v)"

definition request_bounded :: "mist_request \<Rightarrow> bool" where
  "request_bounded r \<longleftrightarrow> bounded_name (req_operation_id r) \<and>
     length (req_path r) \<le> 8 \<and> list_all (\<lambda>(n, v). bounded_name n \<and> length v \<le> 32768) (req_path r) \<and>
     length (req_query r) \<le> 64 \<and> list_all (\<lambda>(n, v). bounded_name n \<and> bounded_value v) (req_query r) \<and>
     (case req_json r of None \<Rightarrow> True | Some v \<Rightarrow> bounded_value v)"

definition response_bounded :: "(mist_response \<Rightarrow> string option) \<Rightarrow> mist_response \<Rightarrow> bool" where
  "response_bounded response_json r \<longleftrightarrow> bounded_name (resp_operation_id r) \<and>
     (case resp_body r of
        BodyJson v \<Rightarrow> bounded_value v
      | BodyText t \<Rightarrow> length t \<le> 524288
      | BodyBinary b \<Rightarrow> length b \<le> 524288
      | BodyEmpty \<Rightarrow> True) \<and>
     (\<exists>s. response_json r = Some s \<and> length s \<le> 1048576)"

definition cursor_bound :: "mist_cursor option \<Rightarrow> mist_operation \<Rightarrow> url \<Rightarrow> bool" where
  "cursor_bound cursor p origin \<longleftrightarrow>
     (case cursor of
        None \<Rightarrow> True
      | Some c \<Rightarrow> cur_operation_id c = operation_id p \<and> cur_origin c = url_as_str origin \<and> cur_mode c = pagination p)"

lemma bounded_value_iff: "validate_value_bounds v 0 = Inr () \<longleftrightarrow> bounded_value v"
  by (simp add: value_bounds_spec bounded_value_def)

lemma request_bounded_iff: "validate_request_bounds r = Inr () \<longleftrightarrow> request_bounded r"
  unfolding validate_request_bounds_def request_bounded_def bounded_name_def
  by (auto simp: MAX_OPERATION_ID_BYTES_def MAX_PATH_VALUES_def MAX_QUERY_VALUES_def MAX_VALUE_STRING_BYTES_def
      and_then_Inr_iff list_all_iff bt_keys_def bt_values_def bounded_value_iff case_prod_beta not_less not_le
      split: option.splits if_splits)

lemma response_bounded_iff: "validate_response_bounds response_json r = Inr () \<longleftrightarrow> response_bounded response_json r"
  unfolding validate_response_bounds_def response_bounded_def bounded_name_def
  by (auto simp: MAX_OPERATION_ID_BYTES_def MAX_RESPONSE_BODY_BYTES_def MAX_RESPONSE_SERIALIZED_BYTES_def
      and_then_Inr_iff bounded_value_iff not_less split: option.splits response_body.splits if_splits)

lemma cursor_bound_iff:
  "(case cursor of None \<Rightarrow> True | Some c \<Rightarrow> cursor_validate_for c p origin = Inr ()) \<longleftrightarrow> cursor_bound cursor p origin"
  by (auto simp: cursor_bound_def cursor_validate_for_def split: option.split)

section \<open>Acceptance by a schema, without the cache\<close>

text \<open>What compiling the schema and asking the validator answers.\<close>

definition schema_admits :: "'v json_schema \<Rightarrow> catalog \<Rightarrow> json \<Rightarrow> json \<Rightarrow> direction \<Rightarrow> bool" where
  "schema_admits js c schema v d \<longleftrightarrow>
     (case js_compile js (schema_root c schema d) of None \<Rightarrow> False | Some validator \<Rightarrow> js_errors js validator v = [])"

text \<open>\<open>roots\<close> gives the schema that each slot of the catalog names; the cache holds validators compiled from these.\<close>

definition slots_named :: "(validator_key \<Rightarrow> json) \<Rightarrow> catalog \<Rightarrow> bool" where
  "slots_named roots c \<longleftrightarrow> list_all (\<lambda>p.
     list_all (\<lambda>q. roots (operation_key p, RequestParameter (param_location q) (param_name q)) =
       schema_root c (param_schema q) Outbound) (parameters p) \<and>
     list_all (\<lambda>(media, schema). media = ''application/json'' \<longrightarrow>
       roots (operation_key p, RequestBody) = schema_root c schema Outbound) (request_schemas p) \<and>
     list_all (\<lambda>(status, medias). list_all (\<lambda>(media, schema).
       roots (operation_id p, ResponseBody status media) = schema_root c schema Inbound) medias) (responses p))
   (cat_operations c)"

definition cache_named :: "(validator_key \<Rightarrow> json) \<Rightarrow> 'v json_schema \<Rightarrow> bool" where
  "cache_named roots js \<longleftrightarrow> (\<forall>k v. js_cache js k = Some v \<longrightarrow> js_compile js (roots k) = Some v)"

lemma accepts_admits:
  assumes "cache_named roots js" and "roots (i, slot) = schema_root c schema d"
  shows "schema_accepts js c i slot schema v d \<longleftrightarrow> schema_admits js c schema v d"
  using assms
  by (auto simp: cache_named_def schema_accepts_def schema_admits_def cached_validator_def Let_def split: option.split)
    (fastforce split: option.splits)+

lemma catalog_operation_mem: "catalog_operation c i = Some p \<Longrightarrow> p \<in> set (cat_operations c)"
  by (auto simp: catalog_operation_def index_get_def list_get_def split: option.splits if_splits)

definition parameters_fit ::
  "'v json_schema \<Rightarrow> catalog \<Rightarrow> mist_operation \<Rightarrow> string \<Rightarrow> (string \<times> json) list \<Rightarrow> bool" where
  "parameters_fit js c p location given \<longleftrightarrow>
     (let declared = filter (\<lambda>q. param_location q = location) (parameters p) in
      list_all (\<lambda>(n, v). list_ex (\<lambda>q. param_name q = n) declared) given \<and>
      list_all (\<lambda>q. case map_of given (param_name q) of
          None \<Rightarrow> \<not> param_required q
        | Some v \<Rightarrow> schema_admits js c (param_schema q) v Outbound) declared)"

lemma parameters_fit_iff:
  assumes "cache_named roots js" "slots_named roots c" "p \<in> set (cat_operations c)"
  shows "parameters_ok js c p r PathParam \<longleftrightarrow>
      parameters_fit js c p ''path'' (map (\<lambda>(n, v). (n, JStr v)) (req_path r))"
    and "parameters_ok js c p r QueryParam \<longleftrightarrow> parameters_fit js c p ''query'' (req_query r)"
proof -
  have admit: "schema_accepts js c (operation_key p) (RequestParameter (param_location q) (param_name q)) (param_schema q) v Outbound
      \<longleftrightarrow> schema_admits js c (param_schema q) v Outbound" if "q \<in> set (parameters p)" for q v
    using assms(2,3) that by (intro accepts_admits [OF assms(1)]) (simp add: slots_named_def list_all_iff)
  have names: "set (map fst given) \<subseteq> param_name ` set qs \<longleftrightarrow> list_all (\<lambda>(n, v). list_ex (\<lambda>q. param_name q = n) qs) given"
    for given :: "(string \<times> json) list" and qs
    by (induction given) (auto simp: list_ex_iff)
  have vals: "list_all (\<lambda>q. case f q of None \<Rightarrow> \<not> param_required q
        | Some v \<Rightarrow> schema_accepts js c (operation_key p) (RequestParameter location (param_name q)) (param_schema q) v Outbound)
      (filter (\<lambda>q. param_location q = location) (parameters p)) \<longleftrightarrow>
    list_all (\<lambda>q. case f q of None \<Rightarrow> \<not> param_required q | Some v \<Rightarrow> schema_admits js c (param_schema q) v Outbound)
      (filter (\<lambda>q. param_location q = location) (parameters p))" for f location
  proof (rule list.pred_cong [OF refl])
    fix q assume "q \<in> set (filter (\<lambda>q. param_location q = location) (parameters p))"
    then have "q \<in> set (parameters p)" "param_location q = location" by simp_all
    with admit [OF this(1)] show "(case f q of None \<Rightarrow> \<not> param_required q
        | Some v \<Rightarrow> schema_accepts js c (operation_key p) (RequestParameter location (param_name q)) (param_schema q) v Outbound) =
      (case f q of None \<Rightarrow> \<not> param_required q | Some v \<Rightarrow> schema_admits js c (param_schema q) v Outbound)"
      by (cases "f q") simp_all
  qed
  have lookup: "map_option JStr (bt_get m k) = map_of (map (\<lambda>(n, v). (n, JStr v)) m) k" for m k
    by (simp add: bt_get_def map_of_map)
  have keys: "bt_keys m = map fst (map (\<lambda>(n, v). (n, JStr v)) m)" for m :: "(string, string) btree"
    by (simp add: bt_keys_def case_prod_unfold comp_def)
  show "parameters_ok js c p r PathParam \<longleftrightarrow>
      parameters_fit js c p ''path'' (map (\<lambda>(n, v). (n, JStr v)) (req_path r))"
    unfolding parameters_ok_def parameters_fit_def Let_def supplied_names_def supplied_value_def declared_parameters_def
      location_name_def parameter_location.case lookup keys names vals ..
  show "parameters_ok js c p r QueryParam \<longleftrightarrow> parameters_fit js c p ''query'' (req_query r)"
    unfolding parameters_ok_def parameters_fit_def Let_def supplied_names_def supplied_value_def declared_parameters_def
      location_name_def parameter_location.case bt_get_def bt_keys_def names vals ..
qed

definition body_fits :: "'v json_schema \<Rightarrow> catalog \<Rightarrow> mist_operation \<Rightarrow> json option \<Rightarrow> bool" where
  "body_fits js c p body \<longleftrightarrow>
     (case body of
        None \<Rightarrow> \<not> request_body_required p
      | Some v \<Rightarrow> (\<exists>schema. map_of (request_schemas p) ''application/json'' = Some schema \<and>
          schema_admits js c schema v Outbound))"

lemma body_fits_iff:
  assumes "cache_named roots js" "slots_named roots c" "p \<in> set (cat_operations c)"
  shows "body_ok js c p r \<longleftrightarrow> body_fits js c p (req_json r)"
proof -
  have "schema_accepts js c (operation_key p) RequestBody schema v Outbound \<longleftrightarrow> schema_admits js c schema v Outbound"
    if "map_of (request_schemas p) ''application/json'' = Some schema" for schema v
    using assms(2,3) map_of_SomeD [OF that]
    by (intro accepts_admits [OF assms(1)]) (auto simp: slots_named_def list_all_iff)
  then show ?thesis by (auto simp: body_ok_def body_fits_def bt_get_def split: option.split)
qed

definition response_fits :: "'v json_schema \<Rightarrow> catalog \<Rightarrow> media_schemas \<Rightarrow> response_body \<Rightarrow> bool" where
  "response_fits js c medias body \<longleftrightarrow>
     (case body of
        BodyEmpty \<Rightarrow> medias = []
      | BodyJson v \<Rightarrow> (\<exists>(media, schema) \<in> set medias. (\<exists>rest. media = ''application/'' @ rest) \<and>
          (\<exists>a b. media = a @ ''json'' @ b) \<and> schema_admits js c schema v Inbound)
      | BodyText _ \<Rightarrow> (\<exists>(media, schema) \<in> set medias. \<exists>rest. media = ''text/'' @ rest)
      | BodyBinary _ \<Rightarrow> (\<exists>(media, schema) \<in> set medias. media = ''application/octet-stream''))"

lemma response_fits_iff:
  assumes "cache_named roots js" "slots_named roots c" "p \<in> set (cat_operations c)"
    and "resp_operation_id r = operation_id p"
    and "(dec_nat (unat (resp_status r)), medias) \<in> set (responses p)"
  shows "media_body_ok js c medias r \<longleftrightarrow> response_fits js c medias (resp_body r)"
proof -
  have "schema_accepts js c (resp_operation_id r) (ResponseBody (dec_nat (unat (resp_status r))) media) schema v Inbound \<longleftrightarrow>
      schema_admits js c schema v Inbound" if "(media, schema) \<in> set medias" for media schema v
    using assms(2-5) that
    by (intro accepts_admits [OF assms(1)]) (fastforce simp: slots_named_def list_all_iff)
  note admit = this
  have contains: "bt_contains_key medias k \<longleftrightarrow> (\<exists>(media, schema) \<in> set medias. media = k)" for k
    by (force simp: bt_contains_key_def bt_get_def map_of_eq_None_iff)
  show ?thesis
  proof (cases "resp_body r")
    case (BodyJson v)
    have json: "is_json_media media \<longleftrightarrow> (\<exists>rest. media = ''application/'' @ rest) \<and> (\<exists>a b. media = a @ ''json'' @ b)" for media
      by (simp add: is_json_media_def starts_with_iff str_contains_iff)
    have "(\<exists>x \<in> set medias. case x of (media, schema) \<Rightarrow> is_json_media media \<and> schema_accepts js c (resp_operation_id r)
          (ResponseBody (dec_nat (unat (resp_status r))) media) schema v Inbound) \<longleftrightarrow>
        (\<exists>x \<in> set medias. case x of (media, schema) \<Rightarrow> is_json_media media \<and> schema_admits js c schema v Inbound)"
      by (rule bex_cong [OF refl]) (use admit in auto)
    with BodyJson show ?thesis by (auto simp: media_body_ok_def response_fits_def json)
  next
    case (BodyText t)
    have "(\<exists>media \<in> set (bt_keys medias). starts_with ''text/'' media) \<longleftrightarrow>
        (\<exists>(media, schema) \<in> set medias. \<exists>rest. media = ''text/'' @ rest)"
      unfolding bt_keys_def set_map bex_simps starts_with_iff by (rule bex_cong [OF refl]) auto
    with BodyText show ?thesis by (auto simp: media_body_ok_def response_fits_def)
  next
    case (BodyBinary b)
    then show ?thesis by (auto simp: media_body_ok_def response_fits_def contains)
  qed (simp add: media_body_ok_def response_fits_def)
qed

section \<open>What is accepted\<close>

text \<open>A loaded catalog of two records, and a validator cache that has one entry.\<close>

definition example_catalog :: catalog where
  "example_catalog = \<lparr>cat_source = \<lparr>src_url = [], src_revision = [], src_sha256 = [],
      src_openapi_version = [], src_api_version = []\<rparr>, cat_components = JObj [],
    cat_operations = [get_self, update_self],
    cat_audit = \<lparr>reference_commit = [], operation_wrappers = 0, meta_tools = 0,
      missing_current_operations = 0, stale_unmatched_wrappers = 0, stale_wrapper_tools = [],
      audit_media_accounting = expected_audit_media\<rparr>,
    operation_index = [(''getSelf'', 0), (''updateSelf'', 1)]\<rparr>"

lemma example_catalog_lookup [simp]:
  "catalog_operation example_catalog ''getSelf'' = Some get_self"
  "catalog_operation example_catalog ''updateSelf'' = Some update_self"
  by (simp_all add: catalog_operation_def example_catalog_def index_get_def bt_get_def list_get_def)

definition example_roots :: "validator_key \<Rightarrow> json" where
  "example_roots = (\<lambda>(i, slot). if slot = RequestBody
     then schema_root example_catalog (JObj [(''$ref'', JStr ''#/components/schemas/admin'')]) Outbound else JNull)"

definition example_schema :: "nat json_schema" where
  "example_schema = \<lparr>js_compile = \<lambda>_. Some 7, js_errors = \<lambda>_ v. if is_object v then [] else [undefined],
     js_cache = [(''PUT /api/v1/self'', RequestBody) \<mapsto> 7]\<rparr>"

lemma example_slots: "cache_named example_roots example_schema" "slots_named example_roots example_catalog"
  by (simp_all add: cache_named_def slots_named_def example_schema_def example_catalog_def example_roots_def get_self_def
      update_self_def bt_empty_def)

text \<open>C10: While the validator cache holds what compiling the schema of each slot gives, a request is accepted,
  unchanged, exactly when identifier, names, values and their numbers are within the bounds, it names an operation of
  the catalog, supplies only declared path and query parameters and every required one, each admitted by
  its compiled schema, has a body where one is required and only where JSON is declared, admitted by its schema,
  and its cursor, if any, has the operation, origin and pagination mode of the request.\<close>

theorem request_validate_iff:
  assumes "cache_named roots js" and "slots_named roots c"
  shows "request_validate js c origin r = Inr r' \<longleftrightarrow>
     r' = r \<and> request_bounded r \<and>
     (\<exists>p. catalog_operation c (req_operation_id r) = Some p \<and>
        parameters_fit js c p ''path'' (map (\<lambda>(n, v). (n, JStr v)) (req_path r)) \<and>
        parameters_fit js c p ''query'' (req_query r) \<and> body_fits js c p (req_json r) \<and>
        cursor_bound (req_cursor r) p origin)"
  unfolding request_validate_Inr request_bounded_iff cursor_bound_iff
  using parameters_fit_iff [OF assms] body_fits_iff [OF assms] catalog_operation_mem by blast

theorem request_validate_iff_witness:
  "request_validate example_schema example_catalog example_origin
     \<lparr>req_operation_id = ''updateSelf'', req_path = bt_empty, req_query = bt_empty, req_json = Some (JObj []), req_cursor = None\<rparr> =
   Inr \<lparr>req_operation_id = ''updateSelf'', req_path = bt_empty, req_query = bt_empty, req_json = Some (JObj []), req_cursor = None\<rparr>"
  unfolding request_validate_iff [OF example_slots]
  by (simp add: request_bounded_def bounded_name_def bounded_value_def parameters_fit_def body_fits_def cursor_bound_def
      bt_empty_def update_self_def schema_admits_def example_schema_def)

text \<open>C11: While the validator cache holds what compiling the schema of each slot gives, a response of a loaded
  catalog is accepted, unchanged, exactly when its status is declared for its operation, its identifier, its body and
  its serialized form are within the bounds, its body is of a declared kind (JSON: the relaxed schema of some declared
  \<open>application/\<close> media with \<open>json\<close> in its name admits it; text and binary: such a media is declared; none
  declared: it is empty), and its cursor, if any, has the operation, origin and pagination mode.\<close>

theorem response_validate_iff:
  assumes "cache_named roots js" and "slots_named roots c"
    and "index_ok (cat_operations c) (operation_index c)"
  shows "response_validate js response_json c origin r = Inr r' \<longleftrightarrow>
     r' = r \<and> response_bounded response_json r \<and>
     (\<exists>p medias. catalog_operation c (resp_operation_id r) = Some p \<and>
        map_of (responses p) (dec_nat (unat (resp_status r))) = Some medias \<and>
        response_fits js c medias (resp_body r) \<and> cursor_bound (resp_cursor r) p origin)"
proof -
  have "p \<in> set (cat_operations c) \<and> operation_id p = i" if "catalog_operation c i = Some p" for i p
    using index_get_iff [OF assms(3)] that by (simp add: catalog_operation_def)
  with response_fits_iff [OF assms(1,2)] map_of_SomeD show ?thesis
    unfolding response_validate_Inr response_bounded_iff cursor_bound_iff bt_get_def by (metis (no_types, lifting))
qed

theorem response_validate_iff_witness:
  "response_validate example_schema (\<lambda>_. Some ''{}'') example_catalog example_origin
     \<lparr>resp_operation_id = ''getSelf'', resp_status = 200, resp_body = BodyEmpty, resp_cursor = None, resp_page = None\<rparr> =
   Inr \<lparr>resp_operation_id = ''getSelf'', resp_status = 200, resp_body = BodyEmpty, resp_cursor = None, resp_page = None\<rparr>"
proof -
  have "index_ok (cat_operations example_catalog) (operation_index example_catalog)"
    using index_operations_Inr(1) [OF self_records_indexed] by (simp add: example_catalog_def)
  note iff = response_validate_iff [OF example_slots this]
  have "dec_nat 200 = ''200''" by code_simp
  then show ?thesis
    unfolding iff
    by (simp add: response_bounded_def bounded_name_def response_fits_def cursor_bound_def get_self_def bt_empty_def)
qed

end
