(* ===== verification/Client.thy ===== *)
theory Client
  imports RateLimit Request
begin

text \<open>
  \<open>client.rs\<close>: building the URL of a catalogued operation, deriving the next cursor of a
  response, the call with its budget charge and bounded 429 retries, and the two clients.
  \<open>mist_client\<close> is the contract of the \<open>MistClient\<close> trait as its callers rely on it; \<open>http\<close> and
  \<open>blocked\<close> are its interpretations.

  The \<open>url\<close> crate is the record \<open>url_ops\<close>; the outbound HTTP client is a function from the
  number of the attempt and the request to its outcome; serde's reading and writing of JSON
  text and the printed form of a number are the record \<open>json_text\<close>. Durations are
  nanoseconds. A call is one step here; overlapping calls and the semaphore that bounds them are in
  \<open>Pool\<close>.
\<close>

section \<open>Data\<close>

record url_ops =
  uo_parse :: "string \<Rightarrow> url option"
  uo_set_path :: "string \<Rightarrow> url \<Rightarrow> url"
  uo_append_pairs :: "(string \<times> string) list \<Rightarrow> url \<Rightarrow> url"
  uo_join :: "url \<Rightarrow> string \<Rightarrow> url option"
  uo_query_pairs :: "url \<Rightarrow> (string \<times> string) list"

record json_text =
  jt_read :: "u8 list \<Rightarrow> json option"
  jt_write :: "json \<Rightarrow> u8 list option"
  jt_number :: "num \<Rightarrow> string"

datatype http_method = HttpGet | HttpPost | HttpPut | HttpPatch | HttpDelete

record http_request =
  hr_method :: http_method
  hr_url :: string
  hr_authorization :: string
  hr_body :: "u8 list option"

record http_response =
  hs_status :: u16
  hs_header :: "string \<Rightarrow> string option"
  hs_body :: "u8 list"

record http_client_config =
  cc_connect_timeout :: nat
  cc_request_timeout :: nat
  cc_max_response_bytes :: nat
  cc_max_concurrency :: nat
  cc_hourly_call_budget :: u32
  cc_human_reserve :: u32
  cc_max_429_retries :: u8
  cc_max_retry_wait :: nat

definition secs :: "nat \<Rightarrow> nat" where "secs n = n * 1000000000"
definition millis :: "nat \<Rightarrow> nat" where "millis n = n * 1000000"

definition default_client_config :: http_client_config where
  "default_client_config = \<lparr>cc_connect_timeout = secs 10, cc_request_timeout = secs 30,
     cc_max_response_bytes = 10 * 1024 * 1024, cc_max_concurrency = 8,
     cc_hourly_call_budget = 5000, cc_human_reserve = 250, cc_max_429_retries = 2,
     cc_max_retry_wait = secs 30\<rparr>"

record http_client =
  hc_base_url :: url
  hc_credential :: string
  hc_catalog :: catalog
  hc_budget :: rate_limit_budget
  hc_max_429_retries :: u8
  hc_max_retry_wait :: nat

datatype http_client_error = InvalidEndpoint | InvalidCredential | ClientConstruction

text \<open>\<open>HttpMistClient::new\<close>. \<open>http_ok\<close> says whether the outbound client could be built.\<close>

definition http_client_new ::
  "url_ops \<Rightarrow> (http_client_config \<Rightarrow> bool) \<Rightarrow> nat \<Rightarrow> string \<Rightarrow> string \<Rightarrow> catalog \<Rightarrow> http_client_config
    \<Rightarrow> http_client_error + http_client" where
  "http_client_new uo http_ok now e credential c config =
     (case uo_parse uo e of
        None \<Rightarrow> Inl InvalidEndpoint
      | Some base_url \<Rightarrow>
          if url_scheme base_url \<noteq> ''https'' then Inl InvalidEndpoint
          else if credential = [] \<or> length credential > 16 * 1024 then Inl InvalidCredential
          else if \<not> http_ok config then Inl ClientConstruction
          else Inr \<lparr>hc_base_url = base_url, hc_credential = credential, hc_catalog = c,
                 hc_budget = new_budget now (cc_hourly_call_budget config) (cc_human_reserve config),
                 hc_max_429_retries = cc_max_429_retries config,
                 hc_max_retry_wait = cc_max_retry_wait config\<rparr>)"

section \<open>Building the URL\<close>

definition cursor_query_key :: "pagination_mode \<Rightarrow> string option" where
  "cursor_query_key m = (case m of SearchAfter \<Rightarrow> Some ''search_after'' | PageLimit \<Rightarrow> Some ''page''
     | PagNone \<Rightarrow> None)"

fun expand_path :: "string \<Rightarrow> (string \<times> string) list \<Rightarrow> string \<Rightarrow> mist_error + string" where
  "expand_path i [] expanded = Inr expanded"
| "expand_path i ((name, v) # ps) expanded =
     (let placeholder = ''{'' @ name @ ''}'' in
      if \<not> str_contains placeholder expanded
      then Inl (InvalidRequest i (''path parameter '' @ name @ '' not in operation path''))
      else expand_path i ps (str_replace placeholder v expanded))"

definition effective_query ::
  "(string, json) btree \<Rightarrow> mist_cursor option \<Rightarrow> mist_error + (string, json) btree" where
  "effective_query query cursor =
     (case cursor of
        None \<Rightarrow> Inr query
      | Some c \<Rightarrow>
          and_then (ok_or (InvalidCursor ''cursor pagination mode must not be none'')
            (cursor_query_key (cur_mode c))) (\<lambda>key.
          Inr (bt_insert key (JStr (cur_value c)) query)))"

fun query_pairs_of :: "json_text \<Rightarrow> string \<Rightarrow> (string \<times> json) list \<Rightarrow> mist_error + (string \<times> string) list" where
  "query_pairs_of jt i [] = Inr []"
| "query_pairs_of jt i ((key, v) # rest) =
     (case v of
        JNull \<Rightarrow> query_pairs_of jt i rest
      | JStr s \<Rightarrow> and_then (query_pairs_of jt i rest) (\<lambda>ps. Inr ((key, s) # ps))
      | JNum n \<Rightarrow> and_then (query_pairs_of jt i rest) (\<lambda>ps. Inr ((key, jt_number jt n) # ps))
      | JBool b \<Rightarrow> and_then (query_pairs_of jt i rest)
          (\<lambda>ps. Inr ((key, if b then ''true'' else ''false'') # ps))
      | _ \<Rightarrow> Inl (InvalidRequest i (''query parameter '' @ key @ '' must be string, number, or bool'')))"

definition build_url ::
  "url_ops \<Rightarrow> json_text \<Rightarrow> http_client \<Rightarrow> string \<Rightarrow> (string, string) btree \<Rightarrow> (string, json) btree
    \<Rightarrow> mist_cursor option \<Rightarrow> mist_error + url" where
  "build_url uo jt hc i path query cursor =
     and_then (ok_or (UnknownOperation i) (catalog_operation (hc_catalog hc) i)) (\<lambda>p.
     and_then (expand_path i path (op_path p)) (\<lambda>expanded.
     and_then (effective_query query cursor) (\<lambda>eq.
     and_then (query_pairs_of jt i eq) (\<lambda>pairs.
     Inr (uo_append_pairs uo pairs (uo_set_path uo expanded (hc_base_url hc)))))))"

section \<open>The next cursor\<close>

definition parse_page_info :: "http_response \<Rightarrow> page_info option" where
  "parse_page_info r =
     (let header = (\<lambda>h. case hs_header r h of None \<Rightarrow> None | Some v \<Rightarrow> parse_u64 v);
          info = \<lparr>pi_page = header ''X-Page-Page'', pi_limit = header ''X-Page-Limit'',
                  pi_total = header ''X-Page-Total''\<rparr>
      in if page_info_is_empty info then None else Some info)"

definition extract_search_after_cursor ::
  "url_ops \<Rightarrow> http_client \<Rightarrow> json \<Rightarrow> string \<Rightarrow> mist_cursor option" where
  "extract_search_after_cursor uo hc v i =
     (case jget v ''next'' of
        Some (JStr next) \<Rightarrow>
          if next = [] then None
          else (case uo_join uo (hc_base_url hc) next of
              None \<Rightarrow> None
            | Some next_url \<Rightarrow>
                (case find (\<lambda>(key, _). key = ''search_after'') (uo_query_pairs uo next_url) of
                    None \<Rightarrow> None
                  | Some (_, search_after) \<Rightarrow>
                      if search_after = [] then None
                      else ok (cursor_new i (hc_base_url hc) SearchAfter search_after)))
      | _ \<Rightarrow> None)"

definition next_page_cursor :: "http_client \<Rightarrow> string \<Rightarrow> page_info \<Rightarrow> mist_cursor option" where
  "next_page_cursor hc i page =
     (case (pi_page page, pi_limit page, pi_total page) of
        (Some current_page, Some limit, Some total_count) \<Rightarrow>
          if limit = 0 \<or> sat_mul current_page limit \<ge> total_count then None
          else (case checked_add current_page 1 of
              None \<Rightarrow> None
            | Some n \<Rightarrow> ok (cursor_new i (hc_base_url hc) PageLimit (dec_nat (unat n))))
      | _ \<Rightarrow> None)"

definition derive_next_cursor ::
  "url_ops \<Rightarrow> http_client \<Rightarrow> string \<Rightarrow> response_body \<Rightarrow> page_info option \<Rightarrow> mist_cursor option" where
  "derive_next_cursor uo hc i body page =
     (case catalog_operation (hc_catalog hc) i of
        None \<Rightarrow> None
      | Some p \<Rightarrow> (case pagination p of
            PagNone \<Rightarrow> None
          | SearchAfter \<Rightarrow> (case body of
                BodyJson v \<Rightarrow> extract_search_after_cursor uo hc v i
              | _ \<Rightarrow> None)
          | PageLimit \<Rightarrow> (case page of
                None \<Rightarrow> None
              | Some pg \<Rightarrow> next_page_cursor hc i pg)))"

section \<open>Decoding a body\<close>

text \<open>\<open>String::from_utf8\<close>: the well-formed byte sequences of the Unicode standard.\<close>

definition cont_byte :: "u8 \<Rightarrow> bool" where
  "cont_byte b \<longleftrightarrow> 0x80 \<le> b \<and> b \<le> 0xBF"

fun utf8_valid :: "u8 list \<Rightarrow> bool" where
  "utf8_valid [] = True"
| "utf8_valid (a # bs) =
     (if a \<le> 0x7F then utf8_valid bs
      else (case bs of
          [] \<Rightarrow> False
        | b # cs \<Rightarrow>
            if 0xC2 \<le> a \<and> a \<le> 0xDF then cont_byte b \<and> utf8_valid cs
            else (case cs of
                [] \<Rightarrow> False
              | c # ds \<Rightarrow>
                  if 0xE0 \<le> a \<and> a \<le> 0xEF then
                    cont_byte b \<and> cont_byte c \<and> (a = 0xE0 \<longrightarrow> 0xA0 \<le> b) \<and> (a = 0xED \<longrightarrow> b \<le> 0x9F)
                    \<and> utf8_valid ds
                  else (case ds of
                      [] \<Rightarrow> False
                    | d # es \<Rightarrow>
                        0xF0 \<le> a \<and> a \<le> 0xF4 \<and> cont_byte b \<and> cont_byte c \<and> cont_byte d
                        \<and> (a = 0xF0 \<longrightarrow> 0x90 \<le> b) \<and> (a = 0xF4 \<longrightarrow> b \<le> 0x8F) \<and> utf8_valid es))))"

definition bytes_text :: "u8 list \<Rightarrow> string" where
  "bytes_text bs = map (\<lambda>b. char_of (unat b)) bs"

definition decode_body :: "json_text \<Rightarrow> u8 list \<Rightarrow> response_body" where
  "decode_body jt bytes =
     (if bytes = [] then BodyEmpty
      else (case jt_read jt bytes of
          Some v \<Rightarrow> BodyJson v
        | None \<Rightarrow> if utf8_valid bytes then BodyText (bytes_text bytes) else BodyBinary bytes))"

section \<open>Sending with bounded retries\<close>

text \<open>
  \<open>200 * 2u64.pow(retries_used)\<close> in a release build, where \<open>u64\<close> arithmetic wraps (the
  manifest leaves overflow checks off).
\<close>

definition backoff_millis :: "u8 \<Rightarrow> u64" where
  "backoff_millis retries_used = 200 * 2 ^ unat retries_used"

definition retry_wait :: "nat \<Rightarrow> u64 option \<Rightarrow> u8 \<Rightarrow> nat" where
  "retry_wait max_retry_wait header retries_used =
     min (case header of Some s \<Rightarrow> secs (unat s)
          | None \<Rightarrow> millis (unat (backoff_millis retries_used))) max_retry_wait"

text \<open>
  The loop: \<open>send n\<close> is the outcome of the \<open>n\<close>-th attempt. The result carries the waits
  between attempts, in order. It ends because each retry counts against \<open>max_429_retries\<close>.
\<close>

function send_loop ::
  "(nat \<Rightarrow> string + http_response) \<Rightarrow> u8 \<Rightarrow> nat \<Rightarrow> u8 \<Rightarrow> (mist_error + http_response) \<times> nat list" where
  "send_loop send max_429_retries max_retry_wait retries_used =
     (case send (unat retries_used) of
        Inl e \<Rightarrow> (Inl (Service (''HTTP request failed: '' @ e)), [])
      | Inr response \<Rightarrow>
          if hs_status response \<noteq> 429 then (Inr response, [])
          else
            let header_retry_after =
              (case hs_header response ''Retry-After'' of None \<Rightarrow> None | Some v \<Rightarrow> parse_u64 v) in
            if retries_used \<ge> max_429_retries then (Inl (RateLimited header_retry_after), [])
            else
              let wait = retry_wait max_retry_wait header_retry_after retries_used;
                  (outcome, waits) =
                    send_loop send max_429_retries max_retry_wait (retries_used + 1)
              in (outcome, wait # waits))"
  by pat_completeness auto
termination
  by (relation "measure (\<lambda>(send, m, w, r). unat m - unat r)")
    (auto simp: not_le unat_Suc_word word_less_nat_alt intro: diff_less_mono2)

declare send_loop.simps [simp del]

section \<open>The HTTP client\<close>

definition parse_method :: "string \<Rightarrow> http_method option" where
  "parse_method m =
     (if m = ''GET'' then Some HttpGet else if m = ''POST'' then Some HttpPost
      else if m = ''PUT'' then Some HttpPut else if m = ''PATCH'' then Some HttpPatch
      else if m = ''DELETE'' then Some HttpDelete else None)"

text \<open>
  The environment of one call: \<open>ce_send\<close> is the outbound client (with the building of its
  request, whose refusals are service errors too), \<open>ce_clock\<close> the four clock readings of the
  budget.
\<close>

record client_env =
  ce_url :: url_ops
  ce_json :: json_text
  ce_send :: "http_request \<Rightarrow> nat \<Rightarrow> string + http_response"
  ce_request_ok :: "http_request \<Rightarrow> mist_error + unit"
  ce_clock :: "nat \<times> nat \<times> nat \<times> nat"

definition finish_response ::
  "client_env \<Rightarrow> http_client \<Rightarrow> mist_request \<Rightarrow> http_response \<Rightarrow> mist_error + mist_response" where
  "finish_response env hc r response =
     (if hs_status response = 410 then Inl (EndpointRetired (req_operation_id r))
      else
        let body = decode_body (ce_json env) (hs_body response);
            page = parse_page_info response;
            cursor = derive_next_cursor (ce_url env) hc (req_operation_id r) body page
        in Inr \<lparr>resp_operation_id = req_operation_id r, resp_status = hs_status response,
                resp_body = body, resp_cursor = cursor, resp_page = page\<rparr>)"

definition prepare_request ::
  "client_env \<Rightarrow> http_client \<Rightarrow> mist_request \<Rightarrow> mist_error + http_request" where
  "prepare_request env hc r =
     and_then (build_url (ce_url env) (ce_json env) hc (req_operation_id r) (req_path r) (req_query r)
       (req_cursor r)) (\<lambda>u.
     and_then (ok_or (UnknownOperation (req_operation_id r))
       (catalog_operation (hc_catalog hc) (req_operation_id r))) (\<lambda>p.
     and_then (ok_or (InvalidRequest (req_operation_id r) (''unsupported HTTP method: '' @ op_method p))
       (parse_method (op_method p))) (\<lambda>method.
     and_then (case req_json r of
         None \<Rightarrow> Inr None
       | Some v \<Rightarrow> and_then (ok_or (Service ''failed to serialize request body'') (jt_write (ce_json env) v))
           (\<lambda>bytes. Inr (Some bytes))) (\<lambda>body_bytes.
     let request = \<lparr>hr_method = method, hr_url = url_as_str u,
       hr_authorization = ''Token '' @ hc_credential hc, hr_body = body_bytes\<rparr> in
     and_then (ce_request_ok env request) (\<lambda>_. Inr request)))))"

text \<open>
  \<open>execute_as\<close>. The results are the client after the call (its budget), the response or
  error, the number of attempts made and the waits between them.
\<close>

definition http_execute_as ::
  "client_env \<Rightarrow> http_client \<Rightarrow> mist_request \<Rightarrow> call_priority
    \<Rightarrow> http_client \<times> (mist_error + mist_response) \<times> nat \<times> nat list" where
  "http_execute_as env hc r priority =
     (let (t1, t2, t3, t4) = ce_clock env;
          (b, acquired) = try_acquire t1 t2 priority (hc_budget hc) in
      case acquired of
        Inl _ \<Rightarrow>
          (let (b', status) = budget_status_of t3 t4 b in
           (hc\<lparr>hc_budget := b'\<rparr>,
            Inl (mist_error.BudgetExhausted (st_used status) (st_hourly_limit status) (st_human_reserve status)),
            0, []))
      | Inr _ \<Rightarrow>
          (let hc = hc\<lparr>hc_budget := b\<rparr> in
           case prepare_request env hc r of
             Inl e \<Rightarrow> (hc, Inl e, 0, [])
           | Inr request \<Rightarrow>
               (let (outcome, waits) = send_loop (ce_send env request) (hc_max_429_retries hc)
                      (hc_max_retry_wait hc) 0
                in (hc, and_then outcome (finish_response env hc r), Suc (length waits), waits))))"

definition http_budget_status :: "nat \<Rightarrow> nat \<Rightarrow> http_client \<Rightarrow> http_client \<times> budget_status option" where
  "http_budget_status t1 t2 hc =
     (let (b, status) = budget_status_of t1 t2 (hc_budget hc) in (hc\<lparr>hc_budget := b\<rparr>, Some status))"

definition blocked_execute :: "mist_request \<Rightarrow> mist_error + mist_response" where
  "blocked_execute r = Inl TransportUnavailable"

section \<open>The contract of a client\<close>

locale mist_client =
  fixes exec :: "'c \<Rightarrow> mist_request \<Rightarrow> call_priority \<Rightarrow> 'c \<times> (mist_error + mist_response)"
    and blocked :: "'c \<Rightarrow> bool"
  assumes exec_operation: "exec c r p = (c', Inr x) \<Longrightarrow> resp_operation_id x = req_operation_id r"
    and exec_blocked: "blocked c \<Longrightarrow> exec c r p = (c, Inl TransportUnavailable)"
begin

lemma blocked_no_response: "blocked c \<Longrightarrow> snd (exec c r p) \<noteq> Inr x"
  by (simp add: exec_blocked)

text \<open>A response is validated against the operation that was requested.\<close>

lemma validated_operation:
  assumes "exec c r p = (c', Inr x)" "response_validate js response_json cat origin x = Inr y"
  shows "resp_operation_id y = req_operation_id r \<and>
    (\<exists>q. catalog_operation cat (req_operation_id r) = Some q)"
  using assms exec_operation [OF assms(1)] by (auto simp: response_validate_Inr)

end

definition blocked_exec :: "unit \<Rightarrow> mist_request \<Rightarrow> call_priority \<Rightarrow> unit \<times> (mist_error + mist_response)" where
  "blocked_exec c r p = (c, blocked_execute r)"

definition http_exec ::
  "client_env \<Rightarrow> http_client \<Rightarrow> mist_request \<Rightarrow> call_priority
    \<Rightarrow> http_client \<times> (mist_error + mist_response)" where
  "http_exec env hc r p = (let (hc', outcome, _) = http_execute_as env hc r p in (hc', outcome))"

interpretation blocked: mist_client blocked_exec "\<lambda>_. True"
  by unfold_locales (simp_all add: blocked_exec_def blocked_execute_def)

lemma finish_response_Inr:
  "finish_response env hc r response = Inr x \<Longrightarrow>
     resp_operation_id x = req_operation_id r \<and> resp_status x = hs_status response"
  by (auto simp: finish_response_def Let_def split: if_splits)

interpretation http: mist_client "http_exec env" "\<lambda>_. False"
  by unfold_locales
    (auto simp: http_exec_def http_execute_as_def Let_def and_then_Inr_iff dest: finish_response_Inr
      split: prod.splits sum.splits)

section \<open>The retry loop\<close>

lemma send_loop_bounds:
  "send_loop send m w k = (outcome, waits) \<Longrightarrow> k \<le> m \<Longrightarrow>
     length waits \<le> unat m - unat k \<and> list_all (\<lambda>d. d \<le> w) waits \<and>
     (\<forall>x. outcome = Inr x \<longrightarrow> hs_status x \<noteq> 429 \<and> send (unat k + length waits) = Inr x)"
proof (induction send m w k arbitrary: outcome waits rule: send_loop.induct)
  case (1 send m w k)
  show ?case
  proof (cases "\<exists>response. send (unat k) = Inr response \<and> hs_status response = 429 \<and> \<not> k \<ge> m")
    case False
    with "1.prems" show ?thesis
      by (subst (asm) send_loop.simps) (auto simp: Let_def split: sum.splits if_splits option.splits)
  next
    case True
    then obtain response where r: "send (unat k) = Inr response" "hs_status response = 429" "k < m"
      by auto
    then have k1: "unat (k + 1) = Suc (unat k)" "k + 1 \<le> m"
      by (auto simp: unat_Suc_word word_le_nat_alt word_less_nat_alt)
    obtain o' ws where rec: "send_loop send m w (k + 1) = (o', ws)" by fastforce
    have "length ws \<le> unat m - unat (k + 1) \<and> list_all (\<lambda>d. d \<le> w) ws \<and>
        (\<forall>x. o' = Inr x \<longrightarrow> hs_status x \<noteq> 429 \<and> send (unat (k + 1) + length ws) = Inr x)"
      using "1.IH" [OF r(1) _ refl _ refl rec] r k1 by (simp add: not_le)
    moreover have "\<not> m \<le> k" using r(3) by simp
    with "1.prems"(1) r(1,2) rec obtain d where "outcome = o'" "waits = d # ws" "d \<le> w"
      by (subst (asm) send_loop.simps) (auto simp: Let_def retry_wait_def)
    moreover have "unat k < unat m" using r(3) by (simp add: word_less_nat_alt)
    ultimately show ?thesis using k1 by auto
  qed
qed

lemma send_loop_exhausted:
  "\<forall>n. \<exists>x. send n = Inr x \<and> hs_status x = 429 \<Longrightarrow> k \<le> m \<Longrightarrow>
     \<exists>h waits. send_loop send m w k = (Inl (RateLimited h), waits) \<and> length waits = unat m - unat k"
proof (induction send m w k rule: send_loop.induct)
  case (1 send m w k)
  obtain x where x: "send (unat k) = Inr x" "hs_status x = 429" using "1.prems"(1) by blast
  show ?case
  proof (cases "k \<ge> m")
    case True
    with x "1.prems"(2) show ?thesis by (subst send_loop.simps) (auto simp: Let_def word_le_nat_alt)
  next
    case False
    then have k1: "unat (k + 1) = Suc (unat k)" "k + 1 \<le> m" "unat k < unat m"
      by (auto simp: unat_Suc_word word_le_nat_alt word_less_nat_alt not_le)
    obtain h ws where rec: "send_loop send m w (k + 1) = (Inl (RateLimited h), ws)"
        "length ws = unat m - unat (k + 1)"
      using "1.IH" [OF x(1) _ refl False refl "1.prems"(1) k1(2)] x by auto
    with x False k1 show ?thesis by (subst send_loop.simps) (auto simp: Let_def)
  qed
qed

section \<open>Properties of a call\<close>

lemma execute_charge:
  assumes "http_execute_as env hc r p = (hc', outcome, attempts, waits)" and "ce_clock env = (t1, t2, t3, t4)"
    and "try_acquire t1 t2 p (hc_budget hc) = (b, acquired)"
  shows "hc' = hc\<lparr>hc_budget := (case acquired of Inl _ \<Rightarrow> fst (budget_status_of t3 t4 b) | Inr _ \<Rightarrow> b)\<rparr>"
    and "attempts \<le> (case acquired of Inl _ \<Rightarrow> 0 | Inr _ \<Rightarrow> Suc (unat (hc_max_429_retries hc)))"
    and "list_all (\<lambda>w. w \<le> hc_max_retry_wait hc) waits"
proof -
  have loop: "length ws \<le> unat (hc_max_429_retries hc) \<and> list_all (\<lambda>w. w \<le> hc_max_retry_wait hc) ws"
    if "send_loop send (hc_max_429_retries hc) (hc_max_retry_wait hc) 0 = (x, ws)" for send x ws
    using send_loop_bounds [OF that] by simp
  show "hc' = hc\<lparr>hc_budget := (case acquired of Inl _ \<Rightarrow> fst (budget_status_of t3 t4 b) | Inr _ \<Rightarrow> b)\<rparr>"
    using assms by (auto simp: http_execute_as_def Let_def split: sum.splits prod.splits)
  show "attempts \<le> (case acquired of Inl _ \<Rightarrow> 0 | Inr _ \<Rightarrow> Suc (unat (hc_max_429_retries hc)))"
    "list_all (\<lambda>w. w \<le> hc_max_retry_wait hc) waits"
    using assms by (auto simp: http_execute_as_def Let_def dest: loop split: sum.splits prod.splits)
qed

text \<open>C25: However the upstream answers, one call makes at most one attempt more than the
  configured retries, and none when the budget refuses it; no wait exceeds the configured
  ceiling, so a hostile \<open>Retry-After\<close> cannot stall it; and the budget is charged once,
  whatever the number of retries.\<close>

theorem call_bounded:
  "case http_execute_as env hc r p of (hc', outcome, attempts, waits) \<Rightarrow>
     attempts \<le> Suc (unat (hc_max_429_retries hc)) \<and>
     list_all (\<lambda>w. w \<le> hc_max_retry_wait hc) waits \<and>
     (case ce_clock env of (t1, t2, t3, t4) \<Rightarrow>
        case try_acquire t1 t2 p (hc_budget hc) of
          (b, Inl _) \<Rightarrow> attempts = 0 \<and> hc' = hc\<lparr>hc_budget := fst (budget_status_of t3 t4 b)\<rparr>
        | (b, Inr _) \<Rightarrow> hc' = hc\<lparr>hc_budget := b\<rparr>)"
proof -
  obtain t1 t2 t3 t4 where clock: "ce_clock env = (t1, t2, t3, t4)" by (cases "ce_clock env") auto
  obtain b a where acq: "try_acquire t1 t2 p (hc_budget hc) = (b, a)" by fastforce
  obtain hc' outcome attempts waits where run: "http_execute_as env hc r p = (hc', outcome, attempts, waits)"
    by (metis prod_cases4)
  from execute_charge [OF run clock acq] show ?thesis
    by (cases a) (simp_all add: run clock acq)
qed

text \<open>C26: When every attempt is answered 429, a call that passes its checks ends, after exactly
  one attempt more than the configured retries, with the rate-limit error.\<close>

theorem always_429_gives_up:
  assumes "ce_clock env = (t1, t2, t3, t4)" and "try_acquire t1 t2 p (hc_budget hc) = (b, Inr st)"
    and "prepare_request env (hc\<lparr>hc_budget := b\<rparr>) r = Inr request"
    and "\<forall>n. \<exists>x. ce_send env request n = Inr x \<and> hs_status x = 429"
  shows "\<exists>h waits. http_execute_as env hc r p =
    (hc\<lparr>hc_budget := b\<rparr>, Inl (RateLimited h), Suc (unat (hc_max_429_retries hc)), waits)"
  using send_loop_exhausted [OF assms(4), of 0 "hc_max_429_retries hc" "hc_max_retry_wait hc"] assms(1-3)
  by (auto simp: http_execute_as_def Let_def)

definition example_client :: http_client where
  "example_client = \<lparr>hc_base_url = example_origin, hc_credential = ''token'', hc_catalog = example_catalog,
     hc_budget = new_budget 0 10 1, hc_max_429_retries = 2, hc_max_retry_wait = secs 30\<rparr>"

definition example_env :: "(nat \<Rightarrow> string + http_response) \<Rightarrow> client_env" where
  "example_env send = \<lparr>
     ce_url = \<lparr>uo_parse = \<lambda>_. None, uo_set_path = \<lambda>p u. u\<lparr>url_path := p\<rparr>, uo_append_pairs = \<lambda>ps u. u,
       uo_join = \<lambda>_ _. None, uo_query_pairs = \<lambda>_. []\<rparr>,
     ce_json = \<lparr>jt_read = \<lambda>_. None, jt_write = \<lambda>_. None, jt_number = \<lambda>_. []\<rparr>,
     ce_send = \<lambda>_. send, ce_request_ok = \<lambda>_. Inr (), ce_clock = (1, 1, 1, 1)\<rparr>"

definition example_request :: mist_request where
  "example_request = \<lparr>req_operation_id = ''getSelf'', req_path = bt_empty, req_query = bt_empty,
     req_json = None, req_cursor = None\<rparr>"

definition answer :: "u16 \<Rightarrow> nat \<Rightarrow> string + http_response" where
  "answer status n = Inr \<lparr>hs_status = status, hs_header = \<lambda>_. None, hs_body = []\<rparr>"

lemma example_prepared:
  "\<exists>request. prepare_request (example_env send) (example_client\<lparr>hc_budget := b\<rparr>) example_request = Inr request"
  by (simp add: prepare_request_def build_url_def example_client_def example_request_def
      effective_query_def bt_empty_def example_env_def get_self_def parse_method_def Let_def)

theorem always_429_gives_up_witness:
  "\<exists>hc' h waits. http_execute_as (example_env (answer 429)) example_client example_request Standard =
    (hc', Inl (RateLimited h), 3, waits)"
proof -
  obtain b st where acq: "try_acquire 1 1 Standard (hc_budget example_client) = (b, Inr st)"
    by (simp add: try_acquire_def example_client_def new_budget_def priority_cap_def standard_cap_def
        reset_if_elapsed_def WINDOW_def sat_sub_def Let_def)
  obtain request where "prepare_request (example_env (answer 429)) (example_client\<lparr>hc_budget := b\<rparr>)
      example_request = Inr request" using example_prepared by blast
  from always_429_gives_up [OF _ acq this] show ?thesis
    by (auto simp: example_env_def answer_def) (simp add: example_client_def numeral_3_eq_3)
qed

text \<open>The backoff of the \<open>n\<close>-th retry is \<open>200 * 2^n\<close> milliseconds only up to the 56th;
  from the 57th on the multiplication wraps, and the 61st waits not at all.\<close>

theorem backoff_exact_iff:
  "(unat (backoff_millis r) = 200 * 2 ^ unat r \<longleftrightarrow> unat r \<le> 56) \<and> backoff_millis 61 = 0"
proof -
  have eq: "unat (backoff_millis r) = (200 * 2 ^ unat r) mod 2 ^ 64"
  proof -
    have "backoff_millis r = of_nat (200 * 2 ^ unat r)" by (simp add: backoff_millis_def)
    then show ?thesis by (simp only: unat_of_nat) simp
  qed
  have "unat (backoff_millis r) = 200 * 2 ^ unat r" if "unat r \<le> 56"
  proof -
    have "(2 :: nat) ^ unat r \<le> 2 ^ 56" using that by (intro power_increasing) simp_all
    then have "200 * (2 :: nat) ^ unat r < 2 ^ 64" by simp
    then show ?thesis unfolding eq by (rule mod_less)
  qed
  moreover have "unat r \<le> 56" if "unat (backoff_millis r) = 200 * 2 ^ unat r"
  proof (rule ccontr)
    assume "\<not> unat r \<le> 56"
    then have "(2 :: nat) ^ 57 \<le> 2 ^ unat r" by (intro power_increasing) simp_all
    then have "(2 :: nat) ^ 64 < 200 * 2 ^ unat r" by simp
    moreover have "unat (backoff_millis r) < 2 ^ 64" unfolding eq by simp
    ultimately show False using that by simp
  qed
  moreover have "backoff_millis 61 = 0" by (simp add: backoff_millis_def)
  ultimately show ?thesis by blast
qed

section \<open>Expanding a path template\<close>

text \<open>A pattern without the separator is replaced in each segment on its own.\<close>

lemma strip_prefix_before_sep:
  assumes "d \<notin> set from"
  shows "strip_prefix from (a @ d # b) = map_option (\<lambda>r. r @ d # b) (strip_prefix from a)"
  using assms by (induction "from" a rule: strip_prefix.induct) (auto split: list.splits)

lemma str_replace_sep:
  assumes "d \<notin> set from" "from \<noteq> []"
  shows "str_replace from to (a @ d # b) = str_replace from to a @ d # str_replace from to b"
proof (induction a rule: length_induct)
  case (1 a)
  show ?case
  proof (cases a)
    case Nil
    have "strip_prefix from (d # b) = None"
      using strip_prefix_before_sep [OF assms(1), of "[]" b] assms(2) by (cases "from") auto
    with Nil assms(2) show ?thesis
      by (subst str_replace.simps) (simp add: str_replace.simps [of "from" to "[]"])
  next
    case (Cons c cs)
    show ?thesis
    proof (cases "strip_prefix from a")
      case None
      with Cons 1 assms strip_prefix_before_sep [OF assms(1), of a b] show ?thesis
        by (subst (1 2) str_replace.simps) simp
    next
      case (Some r)
      then have "a = from @ r" by (simp add: strip_prefix_Some)
      then have "length r < length a" using assms(2) by (cases "from") auto
      with Some Cons 1 assms strip_prefix_before_sep [OF assms(1), of a b] show ?thesis
        by (subst (1 2) str_replace.simps) simp
    qed
  qed
qed

lemma str_replace_join:
  assumes "d \<notin> set from" "from \<noteq> []" "segs \<noteq> []"
  shows "str_replace from to (join [d] segs) = join [d] (map (str_replace from to) segs)"
  using assms(3)
proof (induction segs rule: list_nonempty_induct)
  case (cons s ss)
  then show ?case by (simp add: join_Cons str_replace_sep assms)
qed simp

lemma str_replace_self:
  assumes "from \<noteq> []"
  shows "str_replace from to from = to"
proof -
  have "strip_prefix from from = Some []" by (simp add: strip_prefix_Some)
  moreover obtain c cs where "from = c # cs" using assms by (cases "from") auto
  ultimately show ?thesis
    by (subst str_replace.simps) (simp add: str_replace.simps [of "c # cs" to "[]"])
qed

lemma str_contains_sep:
  assumes "d \<notin> set n" "n \<noteq> []"
  shows "str_contains n (a @ d # b) \<longleftrightarrow> str_contains n a \<or> str_contains n b"
proof (induction a)
  case Nil
  have "strip_prefix n (d # b) = None"
    using strip_prefix_before_sep [OF assms(1), of "[]" b] assms(2) by (cases n) auto
  with assms(2) show ?case by (simp add: starts_with_def)
next
  case (Cons c cs)
  have "starts_with n (c # cs @ d # b) \<longleftrightarrow> starts_with n (c # cs)"
    using strip_prefix_before_sep [OF assms(1), of "c # cs" b] by (simp add: starts_with_def)
  with Cons show ?case by simp
qed

lemma str_contains_join:
  assumes "d \<notin> set n" "n \<noteq> []" "segs \<noteq> []"
  shows "str_contains n (join [d] segs) \<longleftrightarrow> (\<exists>s \<in> set segs. str_contains n s)"
  using assms(3)
proof (induction segs rule: list_nonempty_induct)
  case (cons s ss)
  then show ?case by (simp add: join_Cons str_contains_sep assms)
qed simp

text \<open>
  A segment that the parameters leave alone has no braces; a parameter segment is the name in
  braces, and the name has none.
\<close>

definition brace_free :: "string \<Rightarrow> bool" where
  "brace_free s \<longleftrightarrow> CHR ''{'' \<notin> set s \<and> CHR ''}'' \<notin> set s"

definition placeholder :: "string \<Rightarrow> string" where
  "placeholder name = CHR ''{'' # name @ ''}''"

datatype path_segment = Literal string | Parameter string

fun segment_text :: "path_segment \<Rightarrow> string" where
  "segment_text (Literal s) = s"
| "segment_text (Parameter n) = placeholder n"

fun segment_ok :: "path_segment \<Rightarrow> bool" where
  "segment_ok (Literal s) = (brace_free s \<and> CHR ''/'' \<notin> set s)"
| "segment_ok (Parameter n) = (brace_free n \<and> CHR ''/'' \<notin> set n)"

fun fill_segment :: "(string \<rightharpoonup> string) \<Rightarrow> path_segment \<Rightarrow> string" where
  "fill_segment f (Literal s) = s"
| "fill_segment f (Parameter n) = (case f n of Some v \<Rightarrow> v | None \<Rightarrow> placeholder n)"

text \<open>The template, read as segments in which the parameters of \<open>f\<close> have their values.\<close>

definition filled :: "(string \<rightharpoonup> string) \<Rightarrow> path_segment list \<Rightarrow> string" where
  "filled f segs = join ''/'' (map (fill_segment f) segs)"

lemma contains_placeholder:
  assumes "str_contains (placeholder n) s"
  shows "CHR ''{'' \<in> set s"
  using assms by (auto simp: str_contains_iff placeholder_def)

lemma placeholder_contains:
  assumes "brace_free m" "str_contains (placeholder n) (placeholder m)"
  shows "m = n"
proof -
  obtain a b where ab: "CHR ''{'' # m @ ''}'' = a @ CHR ''{'' # n @ ''}'' @ b"
    using assms(2) by (auto simp: str_contains_iff placeholder_def)
  have "a = []"
  proof (rule ccontr)
    assume "a \<noteq> []"
    then obtain a' where "m @ ''}'' = a' @ CHR ''{'' # n @ ''}'' @ b"
      using ab by (cases a) auto
    then have "CHR ''{'' \<in> set (m @ ''}'')" by simp
    with assms(1) show False by (simp add: brace_free_def)
  qed
  with ab have mn: "m @ ''}'' = n @ CHR ''}'' # b" by simp
  have "b = []"
  proof (rule ccontr)
    assume "b \<noteq> []"
    then have "m = n @ CHR ''}'' # butlast b"
      using mn by (metis butlast_append butlast_snoc list.distinct(1) butlast.simps(2))
    with assms(1) show False by (simp add: brace_free_def)
  qed
  with mn show ?thesis by simp
qed

definition values_brace_free :: "(string \<rightharpoonup> string) \<Rightarrow> bool" where
  "values_brace_free f \<longleftrightarrow> (\<forall>v \<in> ran f. brace_free v)"

lemma values_brace_freeD: "values_brace_free f \<Longrightarrow> f m = Some w \<Longrightarrow> brace_free w"
  by (auto simp: values_brace_free_def ran_def)

lemma brace_free_absent: "brace_free s \<Longrightarrow> \<not> str_contains (placeholder n) s"
  using contains_placeholder by (auto simp: brace_free_def)

lemma fill_segment_contains:
  assumes "segment_ok s" "values_brace_free f" "f n = None"
  shows "str_contains (placeholder n) (fill_segment f s) \<longleftrightarrow> s = Parameter n"
proof (cases s)
  case (Literal t)
  with assms(1) show ?thesis by (simp add: brace_free_absent)
next
  case (Parameter m)
  show ?thesis
  proof (cases "f m")
    case None
    with assms(1) Parameter placeholder_contains [of m n] show ?thesis
      by (auto simp: str_contains_iff) (metis append_Nil append_Nil2)
  next
    case (Some w)
    with assms Parameter show ?thesis
      using brace_free_absent [OF values_brace_freeD [OF assms(2) Some]] by auto
  qed
qed

lemma fill_segment_replace:
  assumes "segment_ok s" "values_brace_free f" "f n = None"
  shows "str_replace (placeholder n) v (fill_segment f s) = fill_segment (f(n \<mapsto> v)) s"
proof (cases "s = Parameter n")
  case True
  with assms(3) show ?thesis by (simp add: str_replace_self placeholder_def)
next
  case False
  then have "str_replace (placeholder n) v (fill_segment f s) = fill_segment f s"
    using fill_segment_contains [OF assms] by (intro str_replace_absent) blast
  with False show ?thesis by (cases s) auto
qed

lemma placeholder_no_slash: "segment_ok (Parameter n) \<Longrightarrow> CHR ''/'' \<notin> set (placeholder n)"
  by (auto simp: placeholder_def)

lemma filled_contains:
  assumes "list_all segment_ok segs" "segs \<noteq> []" "values_brace_free f" "f n = None"
    "CHR ''/'' \<notin> set n"
  shows "str_contains (placeholder n) (filled f segs) \<longleftrightarrow> Parameter n \<in> set segs"
proof -
  have "str_contains (placeholder n) (filled f segs) \<longleftrightarrow>
      (\<exists>s \<in> set segs. str_contains (placeholder n) (fill_segment f s))"
    unfolding filled_def using assms(2,5)
    by (subst str_contains_join) (auto simp: placeholder_def)
  also have "\<dots> \<longleftrightarrow> Parameter n \<in> set segs"
    using assms fill_segment_contains [OF _ assms(3,4)] by (auto simp: list_all_iff)
  finally show ?thesis .
qed

lemma filled_replace:
  assumes "list_all segment_ok segs" "segs \<noteq> []" "values_brace_free f" "f n = None"
    "CHR ''/'' \<notin> set n"
  shows "str_replace (placeholder n) v (filled f segs) = filled (f(n \<mapsto> v)) segs"
proof -
  have "str_replace (placeholder n) v (filled f segs) =
      join ''/'' (map (str_replace (placeholder n) v) (map (fill_segment f) segs))"
    unfolding filled_def using assms(2,5) by (subst str_replace_join) (auto simp: placeholder_def)
  also have "map (str_replace (placeholder n) v) (map (fill_segment f) segs) =
      map (fill_segment (f(n \<mapsto> v))) segs"
    using assms fill_segment_replace [OF _ assms(3,4)] by (auto simp: list_all_iff)
  finally show ?thesis by (simp add: filled_def)
qed

lemma expand_path_filled:
  assumes "list_all segment_ok segs" "segs \<noteq> []" "values_brace_free f"
    "distinct (map fst ps)" "dom f \<inter> fst ` set ps = {}"
    "list_all (\<lambda>(n, v). brace_free v \<and> CHR ''/'' \<notin> set n) ps"
  shows "expand_path i ps (filled f segs) =
    (case find (\<lambda>(n, v). Parameter n \<notin> set segs) ps of
       Some (n, v) \<Rightarrow> Inl (InvalidRequest i (''path parameter '' @ n @ '' not in operation path''))
     | None \<Rightarrow> Inr (filled (f ++ map_of ps) segs))"
  using assms(3-)
proof (induction ps arbitrary: f)
  case (Cons p ps)
  obtain n v where p: "p = (n, v)" by fastforce
  have f: "f n = None" and v: "brace_free v" "CHR ''/'' \<notin> set n" using Cons.prems p by auto
  have ph: "''{'' @ n @ ''}'' = placeholder n" by (simp add: placeholder_def)
  show ?case
  proof (cases "Parameter n \<in> set segs")
    case False
    with filled_contains [OF assms(1,2) Cons.prems(1) f v(2)] p ph show ?thesis by (simp add: Let_def)
  next
    case True
    have vf: "values_brace_free (f(n \<mapsto> v))"
      using Cons.prems(1) v(1) by (auto simp: values_brace_free_def ran_def)
    have dis: "distinct (map fst ps)" "dom (f(n \<mapsto> v)) \<inter> fst ` set ps = {}"
        "list_all (\<lambda>(n, v). brace_free v \<and> CHR ''/'' \<notin> set n) ps"
      using Cons.prems p by auto
    have step: "expand_path i (p # ps) (filled f segs) = expand_path i ps (filled (f(n \<mapsto> v)) segs)"
      using True p ph filled_contains [OF assms(1,2) Cons.prems(1) f v(2)]
        filled_replace [OF assms(1,2) Cons.prems(1) f v(2)] by (simp add: Let_def)
    have eqm: "f(n \<mapsto> v) ++ map_of ps = f ++ map_of (p # ps)"
    proof -
      have "map_of ps n = None" using Cons.prems(2) p by (auto simp: map_of_eq_None_iff)
      then show ?thesis using p by (auto simp: map_add_def fun_eq_iff split: option.splits)
    qed
    show ?thesis unfolding step Cons.IH [OF vf dis] eqm using True p by simp
  qed
qed simp

lemma filled_empty: "filled Map.empty segs = join ''/'' (map segment_text segs)"
proof -
  have "fill_segment Map.empty = segment_text"
  proof
    fix s show "fill_segment Map.empty s = segment_text s" by (cases s) simp_all
  qed
  then show ?thesis by (simp only: filled_def)
qed

text \<open>A safe path is such a list of segments.\<close>

lemma safe_segment_parsed:
  assumes "safe_segment s" "CHR ''/'' \<notin> set s"
  shows "\<exists>q. segment_text q = s \<and> segment_ok q"
proof -
  from safe_segment_cases [OF assms(1)] show ?thesis
  proof (elim conjE disjE exE)
    assume "CHR ''{'' \<notin> set s" "CHR ''}'' \<notin> set s"
    with assms(2) show ?thesis by (intro exI [of _ "Literal s"]) (simp add: brace_free_def)
  next
    fix v assume v: "s = CHR ''{'' # v @ ''}''" "list_all (\<lambda>c. is_ascii_alphanumeric c \<or> c = CHR ''_'') v"
    have "c \<noteq> CHR ''{'' \<and> c \<noteq> CHR ''}''" if "c \<in> set v" for c
    proof -
      have "is_ascii_alphanumeric c \<or> c = CHR ''_''" using v(2) that by (auto simp: list_all_iff)
      then show ?thesis by (auto simp: char_class_defs)
    qed
    with v(1) assms(2) show ?thesis
      by (intro exI [of _ "Parameter v"]) (auto simp: placeholder_def brace_free_def)
  qed
qed

lemma safe_path_parsed:
  assumes "safe_path path"
  shows "\<exists>segs. path = join ''/'' (map segment_text segs) \<and> segs \<noteq> [] \<and> list_all segment_ok segs"
proof -
  obtain rest where rest: "path = ''/api/v1/'' @ rest"
      "\<forall>s \<in> set (split_on (CHR ''/'') rest). safe_segment s"
    using assms unfolding safe_path_segments by blast
  have "\<exists>qs. map segment_text qs = ss \<and> list_all segment_ok qs"
    if "\<forall>s \<in> set ss. safe_segment s \<and> CHR ''/'' \<notin> set s" for ss
    using that
  proof (induction ss)
    case (Cons s ss)
    then obtain q qs where "segment_text q = s" "segment_ok q" "map segment_text qs = ss"
        "list_all segment_ok qs"
      using safe_segment_parsed [of s] by auto
    then show ?case by (intro exI [of _ "q # qs"]) simp
  qed simp
  then obtain qs where qs: "map segment_text qs = split_on (CHR ''/'') rest" "list_all segment_ok qs"
    using rest(2) split_on_no_sep by blast
  let ?segs = "Literal [] # Literal ''api'' # Literal ''v1'' # qs"
  have "join ''/'' (map segment_text ?segs) = path"
    using rest(1) qs(1) join_split_on [of "CHR ''/''" rest] by (cases qs) (auto simp: join_Cons)
  moreover have "list_all segment_ok ?segs" using qs(2) by (simp add: brace_free_def)
  ultimately show ?thesis by (intro exI [of _ ?segs]) auto
qed

text \<open>C27: Expanding a safe path template replaces, in every segment that is a supplied
  parameter, the placeholder by its value, and changes nothing else; it fails exactly when a
  supplied name is no parameter of the path. For values without braces the order of the
  replacements does not matter.\<close>

theorem expand_path_simultaneous:
  assumes "safe_path path" and "distinct (map fst ps)"
    and "list_all (\<lambda>(n, v). brace_free v \<and> CHR ''/'' \<notin> set n) ps"
  shows "\<exists>segs. path = join ''/'' (map segment_text segs) \<and> list_all segment_ok segs \<and>
    expand_path i ps path =
      (case find (\<lambda>(n, v). Parameter n \<notin> set segs) ps of
         Some (n, v) \<Rightarrow> Inl (InvalidRequest i (''path parameter '' @ n @ '' not in operation path''))
       | None \<Rightarrow> Inr (join ''/'' (map (fill_segment (map_of ps)) segs)))"
proof -
  obtain segs where segs: "path = join ''/'' (map segment_text segs)" "segs \<noteq> []" "list_all segment_ok segs"
    using safe_path_parsed [OF assms(1)] by blast
  have "expand_path i ps (filled Map.empty segs) =
      (case find (\<lambda>(n, v). Parameter n \<notin> set segs) ps of
         Some (n, v) \<Rightarrow> Inl (InvalidRequest i (''path parameter '' @ n @ '' not in operation path''))
       | None \<Rightarrow> Inr (filled (Map.empty ++ map_of ps) segs))"
    using assms(2,3) segs(2,3)
    by (intro expand_path_filled) (simp_all add: values_brace_free_def)
  then have "expand_path i ps path =
      (case find (\<lambda>(n, v). Parameter n \<notin> set segs) ps of
         Some (n, v) \<Rightarrow> Inl (InvalidRequest i (''path parameter '' @ n @ '' not in operation path''))
       | None \<Rightarrow> Inr (join ''/'' (map (fill_segment (map_of ps)) segs)))"
    by (simp only: filled_empty segs(1) [symmetric] empty_map_add filled_def)
  with segs show ?thesis by blast
qed

lemma example_template_safe: "safe_path ''/api/v1/sites/{site_id}/insights/{metric}''"
  by code_simp

theorem expand_path_simultaneous_witness:
  "\<exists>segs. ''/api/v1/sites/{site_id}/insights/{metric}'' = join ''/'' (map segment_text segs) \<and>
    list_all segment_ok segs"
  using expand_path_simultaneous [OF example_template_safe, of "[(''metric'', ''coverage''), (''site_id'', ''s1'')]"]
  by (auto simp: brace_free_def)

text \<open>A path value is spliced in as it is: a value with slashes and dots reaches the URL, so
  the expanded path of a site's insight can name an object of an organization.\<close>

theorem path_value_escapes_template:
  "expand_path ''getSiteInsightMetrics'' [(''metric'', ''../../../orgs/o2''), (''site_id'', ''s1'')]
     ''/api/v1/sites/{site_id}/insights/{metric}'' =
   Inr ''/api/v1/sites/s1/insights/../../../orgs/o2''"
proof -
  have "''/api/v1/sites/{site_id}/insights/{metric}'' = filled Map.empty
      [Literal [], Literal ''api'', Literal ''v1'', Literal ''sites'', Parameter ''site_id'',
       Literal ''insights'', Parameter ''metric'']"
    by (simp add: filled_def placeholder_def)
  then show ?thesis
    by (simp only:) (subst expand_path_filled,
      auto simp: brace_free_def values_brace_free_def filled_def map_add_def)
qed

section \<open>Pages\<close>

lemma length_dec_nat: "n < 10 ^ Suc k \<Longrightarrow> length (dec_nat n) \<le> Suc k"
proof (induction k arbitrary: n)
  case (Suc k)
  then have "n div 10 < 10 ^ Suc k" by simp
  with Suc.IH [of "n div 10"] show ?case by (subst dec_nat.simps) simp
qed (subst dec_nat.simps, simp)

text \<open>C28: From the page headers the next cursor exists exactly when pages remain: when the
  limit is not zero and the (saturating) product of page and limit is below the total; it then
  continues this operation at this origin, in page mode, with the following page number, which
  reads back from its text.\<close>

theorem next_page_exact:
  assumes "i \<noteq> []" and "length i \<le> 256"
  shows "next_page_cursor hc i \<lparr>pi_page = Some p, pi_limit = Some l, pi_total = Some t\<rparr> = Some c \<longleftrightarrow>
    l \<noteq> 0 \<and> min (unat p * unat l) (2 ^ 64 - 1) < unat t \<and>
    c = \<lparr>cur_operation_id = i, cur_origin = url_as_str (hc_base_url hc), cur_mode = PageLimit,
         cur_value = dec_nat (unat p + 1), cur_context = None\<rparr> \<and>
    parse_u64 (cur_value c) = Some (p + 1)"
proof (cases "l \<noteq> 0 \<and> min (unat p * unat l) (2 ^ 64 - 1) < unat t")
  case False
  then have "l = 0 \<or> sat_mul p l \<ge> t"
    by (auto simp: word_le_nat_alt unat_sat_mul)
  with False show ?thesis by (auto simp: next_page_cursor_def)
next
  case True
  then have more: "l \<noteq> 0" "\<not> sat_mul p l \<ge> t"
    by (auto simp: word_le_nat_alt unat_sat_mul)
  have t: "unat t < 2 ^ 64" using unsigned_less [of t] by simp
  have "unat p \<le> unat p * unat l" using more(1) by (cases "unat l") (auto simp: unat_eq_0)
  moreover have "unat p * unat l < unat t" using True t by (auto simp: min_def split: if_splits)
  ultimately have small: "unat p + 1 < 2 ^ 64" using t by linarith
  then have suc: "unat (p + 1) = unat p + 1" by (simp add: unat_word_ariths)
  then have nz: "p + 1 \<noteq> 0" by (metis Suc_eq_plus1 nat.distinct(1) unat_0)
  have parse: "parse_u64 (dec_nat (unat p + 1)) = Some (p + 1)"
    using dec.parse_print [of "p + 1"] suc by (simp add: ok_or_def split: option.splits)
  have "length (dec_nat (unat p + 1)) \<le> 4096"
    using length_dec_nat [of "unat p + 1" 19] small by simp
  with assms nz parse have "cursor_new i (hc_base_url hc) PageLimit (dec_nat (unat p + 1)) =
      Inr \<lparr>cur_operation_id = i, cur_origin = url_as_str (hc_base_url hc), cur_mode = PageLimit,
           cur_value = dec_nat (unat p + 1), cur_context = None\<rparr>"
    by (simp add: cursor_new_Inr)
  moreover have "checked_add p 1 = Some (p + 1)" using small by (simp add: checked_add_def)
  ultimately show ?thesis
    using True more suc parse by (auto simp: next_page_cursor_def)
qed

theorem next_page_exact_witness:
  "\<exists>c. next_page_cursor example_client ''listOrgSites''
     \<lparr>pi_page = Some 2, pi_limit = Some 100, pi_total = Some 201\<rparr> = Some c \<and> cur_value c = dec_nat 3"
  using next_page_exact [of "''listOrgSites''" example_client 2 100 201]
    dec.parse_print [of 3] by (auto simp: ok_or_def split: option.splits)

end
