(* ===== verification/Similarity.thy ===== *)
theory Similarity
  imports Catalog
begin

text \<open>
  \<open>server/similarity.rs\<close>: the edit distance of operation identifiers and the suggestions for an
  unknown one. The two rows of the source are lists updated by index. Lowercasing by the Unicode
  tables is the parameter \<open>lower\<close>; \<open>f64\<close> arithmetic is the record \<open>float_ops\<close>, of which
  the properties need nothing. A slice of a string at an index that is not a character boundary
  panics: where the source slices, the result is an option.
\<close>

section \<open>Characters\<close>

text \<open>The characters of a valid UTF-8 string, as their bytes; continuation bytes are 128 to 191.\<close>

definition is_continuation :: "char \<Rightarrow> bool" where
  "is_continuation c \<longleftrightarrow> 128 \<le> byte_of c \<and> byte_of c < 192"

function chars :: "string \<Rightarrow> string list" where
  "chars [] = []"
| "chars (c # cs) = (c # takeWhile is_continuation cs) # chars (dropWhile is_continuation cs)"
  by pat_completeness auto
termination
  by (relation "measure length") (auto simp: less_Suc_eq_le length_dropWhile_le)

text \<open>\<open>&s[i..]\<close>\<close>

definition slice_from :: "string \<Rightarrow> nat \<Rightarrow> string option" where
  "slice_from s i =
     (if i \<le> length s \<and> (i = length s \<or> \<not> is_continuation (s ! i)) then Some (drop i s) else None)"

section \<open>The edit distance\<close>

text \<open>Both rows and the loops of the source: \<open>row_step\<close> is the body of the inner loop.\<close>

definition row_step :: "'a list \<Rightarrow> 'a list \<Rightarrow> nat list \<Rightarrow> nat \<Rightarrow> nat \<Rightarrow> nat list \<Rightarrow> nat list" where
  "row_step a b prev_row i j curr_row =
     (let cost = (if a ! (i - 1) = b ! (j - 1) then 0 else 1) in
      curr_row[j := min (min (prev_row ! j + 1) (curr_row ! (j - 1) + 1)) (prev_row ! (j - 1) + cost)])"

definition outer_step :: "'a list \<Rightarrow> 'a list \<Rightarrow> nat \<Rightarrow> nat list \<times> nat list \<Rightarrow> nat list \<times> nat list" where
  "outer_step a b i = (\<lambda>(prev_row, curr_row).
     (fold (row_step a b prev_row i) [1..<Suc (length b)] (curr_row[0 := i]), prev_row))"

definition levenshtein_chars :: "'a list \<Rightarrow> 'a list \<Rightarrow> nat" where
  "levenshtein_chars a b =
     (let m = length a; n = length b in
      if m = 0 then n
      else if n = 0 then m
      else fst (fold (outer_step a b) [1..<Suc m] ([0..<Suc n], replicate (Suc n) 0)) ! n)"

definition levenshtein_distance :: "(string \<Rightarrow> string) \<Rightarrow> string \<Rightarrow> string \<Rightarrow> nat" where
  "levenshtein_distance lower a b = levenshtein_chars (chars (lower a)) (chars (lower b))"

section \<open>Scores\<close>

record 'f float_ops =
  fl_of_nat :: "nat \<Rightarrow> 'f"
  fl_lit :: "nat \<Rightarrow> nat \<Rightarrow> 'f"
  fl_add :: "'f \<Rightarrow> 'f \<Rightarrow> 'f"
  fl_sub :: "'f \<Rightarrow> 'f \<Rightarrow> 'f"
  fl_mul :: "'f \<Rightarrow> 'f \<Rightarrow> 'f"
  fl_div :: "'f \<Rightarrow> 'f \<Rightarrow> 'f"
  fl_max :: "'f \<Rightarrow> 'f \<Rightarrow> 'f"
  fl_less :: "'f \<Rightarrow> 'f \<Rightarrow> bool"
  fl_le :: "'f \<Rightarrow> 'f \<Rightarrow> bool"

definition MAX_SUGGESTIONS :: nat where "MAX_SUGGESTIONS = 3"

definition last_five :: "string \<Rightarrow> string option" where
  "last_five s = (if length s \<ge> 5 then slice_from s (length s - 5) else Some s)"

definition contains_any :: "string list \<Rightarrow> string \<Rightarrow> bool" where
  "contains_any tokens s = list_ex (\<lambda>t. str_contains t s) tokens"

definition token_similarity_boost ::
  "'f float_ops \<Rightarrow> (string \<Rightarrow> string) \<Rightarrow> string \<Rightarrow> string \<Rightarrow> 'f option" where
  "token_similarity_boost fl lower unknown_id candidate_id =
     (let unknown_lower = lower unknown_id; candidate_lower = lower candidate_id;
          has_cmd = contains_any [''cmd'', ''command''];
          has_device = contains_any [''device'', ''ssh'', ''switch'', ''router''];
          both_cmd = has_cmd unknown_lower \<and> has_cmd candidate_lower;
          both_device = has_device unknown_lower \<and> has_device candidate_lower;
          bump = (\<lambda>b n d boost. if b then fl_add fl boost (fl_lit fl n d) else boost)
      in Option.bind (last_five unknown_lower) (\<lambda>unknown_suffix.
         Option.bind (last_five candidate_lower) (\<lambda>candidate_suffix.
         Some (bump (levenshtein_distance lower unknown_suffix candidate_suffix \<le> 2) 1 10
           (bump (both_cmd \<and> both_device) 15 100
           (bump both_device 1 10 (bump both_cmd 1 10 (fl_lit fl 0 1))))))))"

fun common_prefix_len :: "'a list \<Rightarrow> 'a list \<Rightarrow> nat" where
  "common_prefix_len (x # xs) (y # ys) = (if x = y then Suc (common_prefix_len xs ys) else 0)"
| "common_prefix_len _ _ = 0"

definition similarity_score ::
  "'f float_ops \<Rightarrow> (string \<Rightarrow> string) \<Rightarrow> string \<Rightarrow> string \<Rightarrow> 'f option" where
  "similarity_score fl lower unknown_id candidate_id =
     (let distance = levenshtein_distance lower unknown_id candidate_id;
          max_len = max (length unknown_id) (length candidate_id)
      in if max_len = 0 then Some (fl_lit fl 0 1)
         else
           (let normalized_distance = fl_div fl (fl_of_nat fl distance) (fl_of_nat fl max_len);
                prefix = common_prefix_len (chars (lower unknown_id)) (chars (lower candidate_id));
                prefix_boost = fl_mul fl (fl_div fl (fl_of_nat fl prefix) (fl_of_nat fl max_len)) (fl_lit fl 5 10)
            in map_option (\<lambda>token_boost.
                 fl_max fl (fl_sub fl (fl_sub fl normalized_distance prefix_boost) token_boost) (fl_lit fl 0 1))
               (token_similarity_boost fl lower unknown_id candidate_id)))"

section \<open>Suggestions\<close>

record 'f candidate =
  cand_op :: mist_operation
  cand_score :: 'f
  cand_distance :: nat

definition candidate_of ::
  "'f float_ops \<Rightarrow> (string \<Rightarrow> string) \<Rightarrow> string \<Rightarrow> mist_operation \<Rightarrow> 'f candidate option option" where
  "candidate_of fl lower unknown_id p =
     (let distance = levenshtein_distance lower unknown_id (operation_id p) in
      if distance = 0 then Some None
      else map_option (\<lambda>score.
        if fl_le fl (fl_div fl (fl_of_nat fl distance)
             (fl_of_nat fl (max (length unknown_id) (length (operation_id p))))) (fl_lit fl 65 100)
        then Some \<lparr>cand_op = p, cand_score = score, cand_distance = distance\<rparr> else None)
        (similarity_score fl lower unknown_id (operation_id p)))"

text \<open>\<open>filter_map\<close> over the operations; a panic for one of them is a panic of all.\<close>

fun candidates ::
  "'f float_ops \<Rightarrow> (string \<Rightarrow> string) \<Rightarrow> string \<Rightarrow> mist_operation list \<Rightarrow> 'f candidate list option" where
  "candidates fl lower unknown_id [] = Some []"
| "candidates fl lower unknown_id (p # ps) =
     Option.bind (candidate_of fl lower unknown_id p) (\<lambda>c.
     map_option (\<lambda>cs. case c of None \<Rightarrow> cs | Some x \<Rightarrow> x # cs) (candidates fl lower unknown_id ps))"

text \<open>The order: by score, then (also where the scores do not compare) by identifier. The
  standard library's sort is stable; so is insertion from the right.\<close>

definition candidate_le :: "'f float_ops \<Rightarrow> 'f candidate \<Rightarrow> 'f candidate \<Rightarrow> bool" where
  "candidate_le fl x y =
     (if fl_less fl (cand_score x) (cand_score y) then True
      else if fl_less fl (cand_score y) (cand_score x) then False
      else operation_id (cand_op x) \<le> operation_id (cand_op y))"

fun insert_by :: "('a \<Rightarrow> 'a \<Rightarrow> bool) \<Rightarrow> 'a \<Rightarrow> 'a list \<Rightarrow> 'a list" where
  "insert_by le x [] = [x]"
| "insert_by le x (y # ys) = (if le x y then x # y # ys else y # insert_by le x ys)"

definition sort_by :: "('a \<Rightarrow> 'a \<Rightarrow> bool) \<Rightarrow> 'a list \<Rightarrow> 'a list" where
  "sort_by le xs = foldr (insert_by le) xs []"

definition find_similar_operations ::
  "'f float_ops \<Rightarrow> (string \<Rightarrow> string) \<Rightarrow> catalog \<Rightarrow> string \<Rightarrow> (string \<times> nat \<times> mist_capability) list option" where
  "find_similar_operations fl lower c unknown_id =
     map_option (\<lambda>cs. map (\<lambda>x. (operation_id (cand_op x), cand_distance x, capability (cand_op x)))
       (take MAX_SUGGESTIONS (sort_by (candidate_le fl) cs)))
     (candidates fl lower unknown_id (cat_operations c))"

section \<open>The distance is the least cost of an alignment\<close>

inductive align :: "'a list \<Rightarrow> 'a list \<Rightarrow> nat \<Rightarrow> bool" where
  align_Nil: "align [] [] 0"
| align_delete: "align xs ys n \<Longrightarrow> align (xs @ [x]) ys (n + 1)"
| align_insert: "align xs ys n \<Longrightarrow> align xs (ys @ [y]) (n + 1)"
| align_pair: "align xs ys n \<Longrightarrow> align (xs @ [x]) (ys @ [y]) (n + (if x = y then 0 else 1))"

text \<open>The table the rows run through.\<close>

fun edit_table :: "'a list \<Rightarrow> 'a list \<Rightarrow> nat \<Rightarrow> nat \<Rightarrow> nat" where
  "edit_table a b 0 j = j"
| "edit_table a b (Suc i) 0 = Suc i"
| "edit_table a b (Suc i) (Suc j) =
     min (min (edit_table a b i (Suc j) + 1) (edit_table a b (Suc i) j + 1))
       (edit_table a b i j + (if a ! i = b ! j then 0 else 1))"

lemma edit_table_0 [simp]: "edit_table a b i 0 = i"
  by (cases i) simp_all

lemma edit_table_align: "i \<le> length a \<Longrightarrow> j \<le> length b \<Longrightarrow> align (take i a) (take j b) (edit_table a b i j)"
proof (induction a b i j rule: edit_table.induct)
  case (1 a b j)
  then show ?case
  proof (induction j)
    case (Suc j)
    then have "align [] (take j b @ [b ! j]) (j + 1)" by (intro align_insert) simp
    with Suc show ?case by (simp add: take_Suc_conv_app_nth)
  qed (simp add: align_Nil)
next
  case (2 a b i)
  have "i \<le> length a \<Longrightarrow> align (take i a) [] i" for i
  proof (induction i)
    case (Suc i)
    then have "align (take i a @ [a ! i]) [] (i + 1)" by (intro align_delete) simp
    with Suc show ?case by (simp add: take_Suc_conv_app_nth)
  qed (simp add: align_Nil)
  with 2 show ?case by simp
next
  case (3 a b i j)
  then have h: "align (take i a) (take (Suc j) b) (edit_table a b i (Suc j))"
      "align (take (Suc i) a) (take j b) (edit_table a b (Suc i) j)"
      "align (take i a) (take j b) (edit_table a b i j)"
    by simp_all
  have "align (take i a @ [a ! i]) (take (Suc j) b) (edit_table a b i (Suc j) + 1)"
      "align (take (Suc i) a) (take j b @ [b ! j]) (edit_table a b (Suc i) j + 1)"
      "align (take i a @ [a ! i]) (take j b @ [b ! j]) (edit_table a b i j + (if a ! i = b ! j then 0 else 1))"
    using align_delete [OF h(1)] align_insert [OF h(2)] align_pair [OF h(3)] by blast+
  with 3(4,5) show ?case
    by (simp add: take_Suc_conv_app_nth min_def)
qed

lemma edit_table_append:
  "i \<le> length a \<Longrightarrow> j \<le> length b \<Longrightarrow> edit_table (a @ a') (b @ b') i j = edit_table a b i j"
  by (induction a b i j rule: edit_table.induct) (auto simp: nth_append)

lemma align_edit_table: "align a b n \<Longrightarrow> edit_table a b (length a) (length b) \<le> n"
proof (induction rule: align.induct)
  case (align_delete xs ys n x)
  then show ?case
    using edit_table_append [of "length xs" xs "length ys" ys "[x]" "[]"]
    by (cases "length ys") auto
next
  case (align_insert xs ys n y)
  then show ?case
    using edit_table_append [of "length xs" xs "length ys" ys "[]" "[y]"]
    by (cases "length xs") auto
next
  case (align_pair xs ys n x y)
  then show ?case
    using edit_table_append [of "length xs" xs "length ys" ys "[x]" "[y]"]
    by (auto simp: nth_append)
qed simp

lemma inner_loop:
  assumes "prev_row = map (edit_table a b i) [0..<Suc (length b)]" "length curr_row = Suc (length b)"
    and "k \<le> length b"
  shows "length (fold (row_step a b prev_row (Suc i)) [1..<Suc k] (curr_row[0 := Suc i])) = Suc (length b) \<and>
    (\<forall>j \<le> k. fold (row_step a b prev_row (Suc i)) [1..<Suc k] (curr_row[0 := Suc i]) ! j = edit_table a b (Suc i) j)"
  using assms(3)
proof (induction k)
  case 0
  then show ?case using assms(2) by simp
next
  case (Suc k)
  let ?row = "fold (row_step a b prev_row (Suc i)) [1..<Suc k] (curr_row[0 := Suc i])"
  have IH: "length ?row = Suc (length b)" "\<And>j. j \<le> k \<Longrightarrow> ?row ! j = edit_table a b (Suc i) j"
    using Suc by auto
  have prev: "prev_row ! Suc k = edit_table a b i (Suc k)" "prev_row ! k = edit_table a b i k"
    using Suc.prems by (simp_all add: assms(1) nth_append del: upt_Suc)
  have "[1..<Suc (Suc k)] = [1..<Suc k] @ [Suc k]" by simp
  then have step: "fold (row_step a b prev_row (Suc i)) [1..<Suc (Suc k)] (curr_row[0 := Suc i]) =
      row_step a b prev_row (Suc i) (Suc k) ?row" by simp
  also have "\<dots> = ?row[Suc k := edit_table a b (Suc i) (Suc k)]"
    using prev IH(2) [of k] by (simp add: row_step_def Let_def)
  finally show ?case using IH Suc.prems by (auto simp: nth_list_update le_Suc_eq)
qed

lemma outer_loop:
  "length (snd (fold (outer_step a b) [1..<Suc i] ([0..<Suc (length b)], replicate (Suc (length b)) 0))) = Suc (length b) \<and>
   fst (fold (outer_step a b) [1..<Suc i] ([0..<Suc (length b)], replicate (Suc (length b)) 0)) =
     map (edit_table a b i) [0..<Suc (length b)]"
proof (induction i)
  case 0
  have "map (edit_table a b 0) [0..<Suc (length b)] = map (\<lambda>j. j) [0..<Suc (length b)]"
    by (rule map_cong) simp_all
  then show ?case by simp
next
  case (Suc i)
  obtain prev_row curr_row where fold:
    "fold (outer_step a b) [1..<Suc i] ([0..<Suc (length b)], replicate (Suc (length b)) 0) = (prev_row, curr_row)"
    by fastforce
  with Suc have rows: "prev_row = map (edit_table a b i) [0..<Suc (length b)]" "length curr_row = Suc (length b)"
    by simp_all
  let ?row = "fold (row_step a b prev_row (Suc i)) [1..<Suc (length b)] (curr_row[0 := Suc i])"
  have "[1..<Suc (Suc i)] = [1..<Suc i] @ [Suc i]" by simp
  then have step: "fold (outer_step a b) [1..<Suc (Suc i)] ([0..<Suc (length b)], replicate (Suc (length b)) 0) =
      (?row, prev_row)"
    using fold by (simp add: outer_step_def)
  have row: "length ?row = Suc (length b)" "\<And>j. j \<le> length b \<Longrightarrow> ?row ! j = edit_table a b (Suc i) j"
    using inner_loop [OF rows order_refl] by auto
  have "?row = map (edit_table a b (Suc i)) [0..<Suc (length b)]"
    by (rule nth_equalityI) (use row in \<open>simp_all add: nth_append del: upt_Suc\<close>)
  with step rows show ?case by simp
qed

lemma levenshtein_table: "levenshtein_chars a b = edit_table a b (length a) (length b)"
proof (cases "a = [] \<or> b = []")
  case False
  then show ?thesis
    using outer_loop [of a b "length a"]
    by (simp add: levenshtein_chars_def Let_def del: upt_Suc)
qed (auto simp: levenshtein_chars_def Let_def)

text \<open>C35: The two-row computation is the edit distance: the least number of deletions, insertions and
  substitutions of characters that turns one string into the other.\<close>

theorem levenshtein_least: "levenshtein_chars a b = (LEAST n. align a b n)"
proof (rule Least_equality [symmetric])
  show "align a b (levenshtein_chars a b)"
    using edit_table_align [of "length a" a "length b" b] by (simp add: levenshtein_table)
  show "levenshtein_chars a b \<le> n" if "align a b n" for n
    using align_edit_table [OF that] by (simp add: levenshtein_table)
qed

lemma align_zero: "align a b n \<Longrightarrow> n = 0 \<Longrightarrow> a = b"
  by (induction rule: align.induct) (auto split: if_splits)

lemma align_refl: "align a a 0"
proof (induction a rule: rev_induct)
  case (snoc x xs)
  from align_pair [OF this, of x x] show ?case by simp
qed (rule align_Nil)

lemma levenshtein_zero: "levenshtein_chars a b = 0 \<longleftrightarrow> a = b"
proof
  assume "levenshtein_chars a b = 0"
  then show "a = b"
    using edit_table_align [of "length a" a "length b" b] align_zero by (fastforce simp: levenshtein_table)
next
  assume "a = b"
  then show "levenshtein_chars a b = 0"
    using align_edit_table [OF align_refl, of a] by (simp add: levenshtein_table)
qed

section \<open>Suggestions\<close>

lemma candidates_sound:
  assumes "candidates fl lower i ps = Some cs" and "x \<in> set cs"
  shows "cand_op x \<in> set ps \<and> cand_distance x = levenshtein_distance lower i (operation_id (cand_op x)) \<and>
    cand_distance x \<noteq> 0"
  using assms
proof (induction ps arbitrary: cs)
  case (Cons p ps)
  then obtain c cs' where c: "candidate_of fl lower i p = Some c" "candidates fl lower i ps = Some cs'"
    "cs = (case c of None \<Rightarrow> cs' | Some x \<Rightarrow> x # cs')"
    by (auto simp: bind_eq_Some_conv)
  then show ?case
    using Cons.IH [OF c(2)] Cons.prems(2)
    by (auto simp: candidate_of_def Let_def split: option.splits if_splits)
qed simp

lemma set_insert_by: "set (insert_by le x ys) = insert x (set ys)"
  by (induction ys) auto

lemma set_sort_by: "set (sort_by le xs) = set xs"
  by (induction xs) (simp_all add: sort_by_def set_insert_by)

text \<open>Suggestions are at most three; each is an operation of the catalog with its capability and
  its true distance, which is not zero.\<close>

theorem suggestions_sound:
  assumes "find_similar_operations fl lower c i = Some suggestions"
  shows "length suggestions \<le> 3 \<and>
    set suggestions \<subseteq> {(operation_id p, d, capability p) | p d. p \<in> set (cat_operations c) \<and>
      d = levenshtein_distance lower i (operation_id p) \<and> d \<noteq> 0}"
proof -
  obtain cs where cs: "candidates fl lower i (cat_operations c) = Some cs"
    and s: "suggestions = map (\<lambda>x. (operation_id (cand_op x), cand_distance x, capability (cand_op x)))
      (take MAX_SUGGESTIONS (sort_by (candidate_le fl) cs))"
    using assms by (auto simp: find_similar_operations_def)
  have "x \<in> set cs" if "x \<in> set (take MAX_SUGGESTIONS (sort_by (candidate_le fl) cs))" for x
    using in_set_takeD [OF that] by (simp add: set_sort_by)
  with candidates_sound [OF cs] s show ?thesis
    by (fastforce simp: MAX_SUGGESTIONS_def)
qed

text \<open>The slice of the last five bytes is not at a character boundary for every identifier: with a
  two-byte character there, the computation panics as soon as the catalog has an operation.\<close>

theorem suggestion_panics:
  "candidates fl to_ascii_lowercase (CHR 0xC3 # CHR 0xA9 # ''1234'') (get_self # ps) = None"
proof -
  let ?i = "CHR 0xC3 # CHR 0xA9 # ''1234''"
  have id: "operation_id get_self = ''getSelf''" by (simp add: get_self_def)
  have "chars (to_ascii_lowercase ?i) \<noteq> chars (to_ascii_lowercase ''getSelf'')" by code_simp
  then have "levenshtein_distance to_ascii_lowercase ?i ''getSelf'' \<noteq> 0"
    by (simp add: levenshtein_distance_def levenshtein_zero)
  moreover have "last_five (to_ascii_lowercase ?i) = None" by code_simp
  ultimately have "candidate_of fl to_ascii_lowercase ?i get_self = None"
    by (simp add: candidate_of_def id Let_def similarity_score_def token_similarity_boost_def)
  then show ?thesis by simp
qed

text \<open>Fixed-point numbers with six decimals, for the witness.\<close>

definition example_floats :: "64 word float_ops" where
  "example_floats = \<lparr>fl_of_nat = (\<lambda>n. of_nat n * 1000000), fl_lit = (\<lambda>n d. of_nat n * 1000000 div of_nat d),
     fl_add = (+), fl_sub = (-), fl_mul = (\<lambda>x y. x * y div 1000000), fl_div = (\<lambda>x y. x * 1000000 div y),
     fl_max = max, fl_less = (<), fl_le = (\<le>)\<rparr>"

lemma example_distance:
  "levenshtein_distance to_ascii_lowercase ''A'' ''ab'' = 1"
  "similarity_score example_floats to_ascii_lowercase ''A'' ''ab'' = Some 150000"
  by code_simp+

theorem suggestions_sound_witness:
  "find_similar_operations example_floats to_ascii_lowercase
     \<lparr>cat_source = undefined, cat_components = JNull, cat_operations = [get_self\<lparr>operation_id := ''ab''\<rparr>],
      cat_audit = undefined, operation_index = []\<rparr> ''A'' = Some [(''ab'', 1, PrivilegedRead)] \<and>
   length [(''ab'', 1 :: nat, PrivilegedRead)] \<le> 3"
proof -
  let ?p = "get_self\<lparr>operation_id := ''ab''\<rparr>"
  let ?c = "\<lparr>cat_source = undefined, cat_components = JNull, cat_operations = [?p],
     cat_audit = undefined, operation_index = []\<rparr>"
  have "candidate_of example_floats to_ascii_lowercase ''A'' ?p =
      Some (Some \<lparr>cand_op = ?p, cand_score = 150000, cand_distance = 1\<rparr>)"
    by (simp add: candidate_of_def example_distance Let_def) (simp add: example_floats_def)
  then have found: "find_similar_operations example_floats to_ascii_lowercase ?c ''A'' = Some [(''ab'', 1, PrivilegedRead)]"
    by (simp add: find_similar_operations_def sort_by_def MAX_SUGGESTIONS_def) (simp add: get_self_def)
  from suggestions_sound [OF this] found show ?thesis by simp
qed

end
