(* ===== verification/Dispatch.thy ===== *)
theory Dispatch
  imports Client Similarity
begin

text \<open>
  \<open>server/mod.rs\<close>, first part: the handler, the authorization of a read, the dispatch of a
  catalogued read with everything it refuses, and the dispatcher for opaque cursors.

  Outside the repository and therefore arguments, in the record \<open>dispatch_env\<close>:
  \<open>authorize_call\<close>, the redactor, JSON Schema, serde, and the injected client as a function
  with its state. \<open>f64\<close> arithmetic, on bit patterns, and Unicode lowercasing, which the suggestions
  for an unknown operation use, are arguments too. A call returns, beside its result, the
  audit record it leaves and the calls it made of the client.
\<close>

section \<open>Data\<close>

datatype actor_type = ActorHuman | ActorAgent | ActorUnknown

text \<open>What the code reads of \<open>mecmcp_auth::CallerCtx<MistGrant>\<close>.\<close>

record caller_ctx =
  ca_token_name :: string
  ca_request_id :: string
  ca_actor_type :: actor_type
  ca_grant :: "mist_grant option"
  ca_devices :: "string \<Rightarrow> bool"

text \<open>\<open>CallPanicked\<close> is no error of the source: it stands for the call that is aborted by a panic and
  has no answer.\<close>

datatype mist_call_error =
    CallUnknownOperation string
  | CallWrongCapability string
  | CallAuthorization string
  | CallGrant
  | CallMspTarget
  | CallInvalidTarget
  | CallOrganizationNotConfigured string
  | CallInvalidLimit
  | CallInvalidSearch
  | CallAmbiguousScope
  | CallMist mist_error
  | CallPanicked

datatype audit_outcome = AuditDeny string | AuditFail | AuditResult | AuditOpen

record audit_record =
  au_tool :: string
  au_kind :: string
  au_targets :: "string list"
  au_outcome :: audit_outcome

definition audit :: "string \<Rightarrow> string list \<Rightarrow> audit_outcome \<Rightarrow> audit_record" where
  "audit tool targets out = \<lparr>au_tool = tool, au_kind = ''read'', au_targets = targets, au_outcome = out\<rparr>"

record catalog_read =
  cr_tool :: string
  cr_operation_id :: string
  cr_path :: "(string, string) btree"
  cr_query :: "(string, json) btree"
  cr_cursor :: "mist_cursor option"
  cr_capability :: mist_capability
  cr_redact_output :: bool

record read_envelope =
  en_operation_id :: string
  en_target :: "string option"
  en_status :: u16
  en_content_type :: string
  en_data :: json
  en_next_cursor :: "string option"
  en_page :: "page_info option"
  en_truncated :: bool
  en_budget_remaining :: "budget_status option"

datatype server_error =
    ServerInvalidEndpoint
  | ServerInvalidOrganization
  | ServerCatalog catalog_error
  | ServerCredentialLoad string
  | ServerClientConstruction string
  | ServerChangeSetState string

record handler =
  h_origin :: url
  h_allowed_orgs :: "string list"
  h_sites :: "(string, string) btree"
  h_catalog :: catalog
  h_lab_mode :: bool

record 'v dispatch_env =
  de_authorize_call :: "caller_ctx option \<Rightarrow> string \<Rightarrow> string option \<Rightarrow> string list \<Rightarrow> string + unit"
  de_schema :: "'v json_schema"
  de_response_json :: "mist_response \<Rightarrow> string option"
  de_cursor_json :: "mist_cursor \<Rightarrow> string option"
  de_hex_encode :: "string \<Rightarrow> string"
  de_redact :: "json \<Rightarrow> json"
  de_float :: "64 word float_ops"
  de_lowercase :: "string \<Rightarrow> string"

definition RESTRICTED_TOOLS :: "string list" where
  "RESTRICTED_TOOLS = [''apply_mist_change_set'', ''approve_mist_change_set'', ''get_mist_change_set'',
     ''get_mist_device'', ''get_mist_self'', ''get_mist_wan_config'', ''invoke_mist_privileged_read'',
     ''list_mist_wan_config'', ''list_mist_wlans'', ''plan_mist_change'', ''search_mist_audit_logs'']"

section \<open>Constructing a handler and replacing its sites\<close>

definition validate_sites :: "(string, string) btree \<Rightarrow> string list \<Rightarrow> server_error + unit" where
  "validate_sites sites orgs =
     (if length sites > 4096
        \<or> list_ex (\<lambda>(site_id, org_id).
             \<not> is_ok (target_site site_id) \<or> \<not> is_ok (target_org org_id)
             \<or> \<not> list_ex (\<lambda>allowed. allowed = org_id) orgs) sites
      then Inl ServerInvalidOrganization
      else Inr ())"

definition orgs_invalid :: "string list \<Rightarrow> bool" where
  "orgs_invalid orgs \<longleftrightarrow>
     orgs = [] \<or> length orgs > 256 \<or> list_ex (\<lambda>org_id. \<not> is_ok (target_org org_id)) orgs
     \<or> card (set orgs) \<noteq> length orgs"

text \<open>
  \<open>with_client_options\<close>; \<open>embedded_catalog\<close> is \<open>Catalog::embedded()\<close> and \<open>load_coordinator\<close>
  the loading of the change-set state, whose coordinator is not part of the record.
\<close>

definition with_client_options ::
  "(string \<Rightarrow> url option) \<Rightarrow> catalog_error + catalog \<Rightarrow> string + unit \<Rightarrow> string \<Rightarrow> string list
    \<Rightarrow> (string, string) btree \<Rightarrow> bool \<Rightarrow> server_error + handler" where
  "with_client_options parse_url embedded_catalog load_coordinator e orgs sites lab_mode =
     and_then (map_err (\<lambda>_. ServerInvalidEndpoint) (validate_mist_endpoint parse_url e)) (\<lambda>origin.
     if orgs_invalid orgs then Inl ServerInvalidOrganization
     else
       and_then (validate_sites sites orgs) (\<lambda>_.
       and_then (map_err ServerCatalog embedded_catalog) (\<lambda>c.
       and_then (map_err ServerChangeSetState load_coordinator) (\<lambda>_.
       Inr \<lparr>h_origin = origin, h_allowed_orgs = orgs, h_sites = sites, h_catalog = c,
            h_lab_mode = lab_mode\<rparr>))))"

text \<open>
  \<open>from_config_with_lab_mode\<close>: the same checks, after loading the credential, the catalog, the
  client and the coordinator. \<open>load_secret\<close> and \<open>new_client\<close> are those steps.
\<close>

definition from_config_with_lab_mode ::
  "(string \<Rightarrow> url option) \<Rightarrow> (string \<Rightarrow> string + string) \<Rightarrow> catalog_error + catalog
    \<Rightarrow> (string \<Rightarrow> string \<Rightarrow> catalog \<Rightarrow> http_client_config \<Rightarrow> string + http_client)
    \<Rightarrow> string + unit \<Rightarrow> mist_config \<Rightarrow> (string, string) btree \<Rightarrow> bool
    \<Rightarrow> server_error + handler \<times> http_client" where
  "from_config_with_lab_mode parse_url load_secret embedded_catalog new_client load_coordinator config sites lab_mode =
     and_then (map_err ServerCredentialLoad (load_secret (credential_file config))) (\<lambda>credential.
     and_then (map_err ServerCatalog embedded_catalog) (\<lambda>c.
     and_then (map_err ServerClientConstruction
       (new_client (endpoint config) credential c default_client_config)) (\<lambda>client.
     and_then (map_err ServerChangeSetState load_coordinator) (\<lambda>_.
     and_then (map_err (\<lambda>_. ServerInvalidEndpoint) (validate_mist_endpoint parse_url (endpoint config))) (\<lambda>origin.
     let orgs = allowed_orgs config in
     if orgs_invalid orgs then Inl ServerInvalidOrganization
     else
       and_then (validate_sites sites orgs) (\<lambda>_.
       Inr (\<lparr>h_origin = origin, h_allowed_orgs = orgs, h_sites = sites, h_catalog = c,
             h_lab_mode = lab_mode\<rparr>, client)))))))"

definition replace_sites :: "(string, string) btree \<Rightarrow> handler \<Rightarrow> handler \<times> (server_error + unit)" where
  "replace_sites sites h =
     (case validate_sites sites (h_allowed_orgs h) of
        Inl e \<Rightarrow> (h, Inl e)
      | Inr _ \<Rightarrow> (h\<lparr>h_sites := sites\<rparr>, Inr ()))"

definition sites_snapshot :: "handler \<Rightarrow> (string, string) btree" where
  "sites_snapshot h = h_sites h"

section \<open>The checks of a read\<close>

definition call_priority_for :: "caller_ctx option \<Rightarrow> call_priority" where
  "call_priority_for caller =
     (case caller of
        Some ctx \<Rightarrow> if ca_actor_type ctx = ActorHuman then Reserved else Standard
      | None \<Rightarrow> Standard)"

definition target_for ::
  "target_selector list \<Rightarrow> (string, string) btree \<Rightarrow> mist_call_error + mist_target option" where
  "target_for selectors path =
     (if selectors = [SelNone] then Inr None
      else if selectors = [SelOrg] then
        and_then (ok_or CallInvalidTarget (bt_get path ''org_id'')) (\<lambda>i.
        and_then (map_err (\<lambda>_. CallInvalidTarget) (target_org i)) (\<lambda>t. Inr (Some t)))
      else if selectors = [SelSite] then
        and_then (ok_or CallInvalidTarget (bt_get path ''site_id'')) (\<lambda>i.
        and_then (map_err (\<lambda>_. CallInvalidTarget) (target_site i)) (\<lambda>t. Inr (Some t)))
      else if SelMsp \<in> set selectors then Inl CallMspTarget
      else Inl CallInvalidTarget)"

definition authorize_grant ::
  "caller_ctx option \<Rightarrow> string \<Rightarrow> mist_capability \<Rightarrow> mist_target option \<Rightarrow> mist_call_error + unit" where
  "authorize_grant caller i action target =
     (case caller of
        None \<Rightarrow> if action = OrdinaryRead then Inr () else Inl CallGrant
      | Some ctx \<Rightarrow> (case ca_grant ctx of
            None \<Rightarrow> if action = OrdinaryRead then Inr () else Inl CallGrant
          | Some grant \<Rightarrow>
              if \<not> allows_operation grant i \<or> \<not> allows_action grant action
                \<or> (case target of None \<Rightarrow> False | Some t \<Rightarrow> \<not> allows_target grant t)
              then Inl CallGrant
              else Inr ()))"

definition validate_page_limit :: "(string, json) btree \<Rightarrow> mist_call_error + unit" where
  "validate_page_limit query =
     (case bt_get query ''limit'' of
        None \<Rightarrow> Inr ()
      | Some limit \<Rightarrow>
          (case as_u64 limit of
             Some n \<Rightarrow> if 1 \<le> n \<and> n \<le> 100 then Inr () else Inl CallInvalidLimit
           | None \<Rightarrow> Inl CallInvalidLimit))"

fun capability_name :: "mist_capability \<Rightarrow> string" where
  "capability_name OrdinaryRead = ''OrdinaryRead''"
| "capability_name PrivilegedRead = ''PrivilegedRead''"
| "capability_name Create = ''Create''"
| "capability_name Update = ''Update''"
| "capability_name Delete = ''Delete''"
| "capability_name Execute = ''Execute''"

definition dispatcher_name :: "mist_capability \<Rightarrow> string" where
  "dispatcher_name c = (case c of OrdinaryRead \<Rightarrow> ''invoke_mist_read''
     | PrivilegedRead \<Rightarrow> ''invoke_mist_privileged_read''
     | _ \<Rightarrow> ''(no read dispatcher available for this operation)'')"

text \<open>The error text for an operation that the catalog does not have; none where the suggestions
  panic.\<close>

definition unknown_operation_text ::
  "'v dispatch_env \<Rightarrow> catalog \<Rightarrow> string \<Rightarrow> mist_capability \<Rightarrow> string option" where
  "unknown_operation_text env c i required =
     map_option (\<lambda>suggestions.
       let base = ''operation '' @ i @ '' is not in the catalog (pinned Mist OpenAPI snapshot: revision ''
            @ take 8 (src_revision (cat_source c)) @ '')''
       in if suggestions = [] then base
         else base @ ''. Did you mean:'' @ concat (map (\<lambda>(s, _, cap).
           nl @ ''  - '' @ s @ (if cap \<noteq> required
              then '' (use '' @ dispatcher_name cap @ '' to invoke it)'' else [])) suggestions))
     (find_similar_operations (de_float env) (de_lowercase env) c i)"

text \<open>The profile check: the organization of the target must be configured.\<close>

definition profile_error :: "handler \<Rightarrow> mist_target \<Rightarrow> string option" where
  "profile_error h t =
     (if starts_with ''org/'' (target_subject t) then
        (if \<not> list_ex (\<lambda>org. org = target_id t) (h_allowed_orgs h)
         then Some (''organization '' @ target_id t @ '' is not in the configured allowlist'') else None)
      else if starts_with ''site/'' (target_subject t) then
        (case bt_get (h_sites h) (target_id t) of
           None \<Rightarrow> Some (''site '' @ target_id t @ '' is not known (requires org_id for site queries, or ''
             @ ''the site's parent org in the allowlist)'')
         | Some org_id \<Rightarrow>
             if \<not> list_ex (\<lambda>org. org = org_id) (h_allowed_orgs h)
             then Some (''site '' @ target_id t @ CHR 0x27 # ''s parent organization '' @ org_id
               @ '' is not in the configured allowlist'')
             else None)
      else Some ''the target is neither an organization nor a site'')"

text \<open>
  The checks of \<open>dispatch_catalogued_read\<close>, in order, up to the validated request. A refusal
  carries the audit record it leaves. \<open>h_sites\<close> is read under its lock once.
\<close>

definition check_read ::
  "'v dispatch_env \<Rightarrow> handler \<Rightarrow> caller_ctx option \<Rightarrow> catalog_read
    \<Rightarrow> (audit_record \<times> mist_call_error) + (mist_operation \<times> mist_target option \<times> mist_request)" where
  "check_read env h caller rd =
     (let tool = cr_tool rd; i = cr_operation_id rd; required = cr_capability rd in
      case catalog_operation (h_catalog h) i of
        None \<Rightarrow> (case unknown_operation_text env (h_catalog h) i required of
            Some text \<Rightarrow> Inl (audit tool [] AuditFail, CallUnknownOperation text)
          | None \<Rightarrow> Inl (audit tool [] AuditOpen, CallPanicked))
      | Some p \<Rightarrow>
      (case target_for (target_selectors p) (cr_path rd) of
        Inl e \<Rightarrow> Inl (audit tool [] (AuditDeny ''target''), e)
      | Inr target \<Rightarrow>
      (let targets = (case target of None \<Rightarrow> [] | Some t \<Rightarrow> [target_subject t]);
           refuse = (\<lambda>reason e. Inl (audit tool targets reason, e)) in
       if op_method p \<noteq> ''GET'' \<or> capability p \<noteq> required
       then refuse (AuditDeny ''capability'') (CallWrongCapability (''operation '' @ i
         @ '' exists but is classified as '' @ capability_name (capability p) @ '' (method ''
         @ op_method p @ ''); use '' @ dispatcher_name (capability p) @ '' to invoke it''))
       else if Option.is_none caller \<and> capability p = PrivilegedRead
       then refuse (AuditDeny ''caller'')
         (CallAuthorization ''privileged Mist reads require authenticated caller context'')
       else (case de_authorize_call env caller tool (map_option target_subject target) RESTRICTED_TOOLS of
         Inl e \<Rightarrow> refuse (AuditDeny ''scope'') (CallAuthorization e)
       | Inr _ \<Rightarrow>
       (case authorize_grant caller i (capability p) target of
         Inl e \<Rightarrow> refuse (AuditDeny ''grant'') e
       | Inr _ \<Rightarrow>
       (case (case target of None \<Rightarrow> None | Some t \<Rightarrow> profile_error h t) of
         Some reason \<Rightarrow> refuse (AuditDeny ''profile'') (CallOrganizationNotConfigured reason)
       | None \<Rightarrow>
       (case validate_page_limit (cr_query rd) of
         Inl e \<Rightarrow> refuse AuditFail e
       | Inr _ \<Rightarrow>
       (case request_validate (de_schema env) (h_catalog h) (h_origin h)
          \<lparr>req_operation_id = i, req_path = cr_path rd, req_query = cr_query rd, req_json = None,
           req_cursor = cr_cursor rd\<rparr> of
         Inl e \<Rightarrow> refuse AuditFail (CallMist e)
       | Inr request \<Rightarrow> Inr (p, target, request)))))))))"

section \<open>The call and its response\<close>

text \<open>\<open>ReadEnvelope::from_response\<close>; a byte of a binary body becomes a JSON number.\<close>

definition envelope_from_response ::
  "'v dispatch_env \<Rightarrow> mist_response \<Rightarrow> mist_target option \<Rightarrow> budget_status option \<Rightarrow> bool \<Rightarrow> read_envelope" where
  "envelope_from_response env r target budget redact_output =
     (let (content_type, data) = (case resp_body r of
            BodyJson v \<Rightarrow> (''application/json'', v)
          | BodyText t \<Rightarrow> (''text/plain; charset=utf-8'', JStr t)
          | BodyBinary b \<Rightarrow> (''application/octet-stream'', JArr (map (\<lambda>x. JNum (PosInt (ucast x))) b))
          | BodyEmpty \<Rightarrow> (''application/octet-stream'', JNull));
          data = (if redact_output then de_redact env data else data)
      in \<lparr>en_operation_id = resp_operation_id r, en_target = map_option target_subject target,
          en_status = resp_status r, en_content_type = content_type, en_data = data,
          en_next_cursor = (case resp_cursor r of None \<Rightarrow> None
            | Some c \<Rightarrow> map_option (de_hex_encode env) (de_cursor_json env c)),
          en_page = (case resp_page r of None \<Rightarrow> None
            | Some pg \<Rightarrow> if page_info_is_empty pg then None else Some pg),
          en_truncated = False, en_budget_remaining = budget\<rparr>)"

definition status_error :: "mist_response \<Rightarrow> mist_error" where
  "status_error r =
     (if resp_status r = 429 then RateLimited None
      else if resp_status r = 410 then EndpointRetired (resp_operation_id r)
      else Service (''Mist API returned HTTP '' @ dec_nat (unat (resp_status r))))"

text \<open>What happens to the outcome of the call: every check until the envelope.\<close>

definition finish_read ::
  "'v dispatch_env \<Rightarrow> handler \<Rightarrow> mist_request \<Rightarrow> mist_target option \<Rightarrow> bool
    \<Rightarrow> mist_error + mist_response \<Rightarrow> budget_status option \<Rightarrow> mist_call_error + read_envelope" where
  "finish_read env h request target redact_output outcome budget =
     map_err CallMist (
     and_then outcome (\<lambda>response.
     if resp_operation_id response \<noteq> req_operation_id request
     then Inl (InvalidResponse (req_operation_id request)
       ''response operation does not match request operation'')
     else
     and_then (response_validate (de_schema env) (de_response_json env) (h_catalog h) (h_origin h) response)
       (\<lambda>response.
     if \<not> (200 \<le> resp_status response \<and> resp_status response < 300)
     then Inl (status_error response)
     else
     and_then (case resp_cursor response of
         None \<Rightarrow> Inr None
       | Some c \<Rightarrow> and_then (with_request_context (de_cursor_json env) (req_path request)
           (req_query request) target c) (\<lambda>c. Inr (Some c))) (\<lambda>cursor.
     Inr (envelope_from_response env (response\<lparr>resp_cursor := cursor\<rparr>) target budget redact_output)))))"

text \<open>
  \<open>dispatch_catalogued_read\<close>. The client is its state \<open>'c\<close> with the functions \<open>exec\<close> and
  \<open>budget\<close>. \<open>do_calls\<close> are the requests the client received, with their priority.
\<close>

record 'c dispatch_outcome =
  do_client :: 'c
  do_calls :: "(mist_request \<times> call_priority) list"
  do_audit :: audit_record
  do_result :: "mist_call_error + read_envelope"

definition read_outcome :: "mist_call_error + read_envelope \<Rightarrow> audit_outcome" where
  "read_outcome r = (case r of Inl _ \<Rightarrow> AuditFail | Inr _ \<Rightarrow> AuditResult)"

definition dispatch_catalogued_read ::
  "'v dispatch_env \<Rightarrow> ('c \<Rightarrow> mist_request \<Rightarrow> call_priority \<Rightarrow> 'c \<times> (mist_error + mist_response))
    \<Rightarrow> ('c \<Rightarrow> 'c \<times> budget_status option) \<Rightarrow> handler \<Rightarrow> caller_ctx option \<Rightarrow> 'c \<Rightarrow> catalog_read
    \<Rightarrow> 'c dispatch_outcome" where
  "dispatch_catalogued_read env exec budget h caller client rd =
     (case check_read env h caller rd of
        Inl (au, e) \<Rightarrow>
          \<lparr>do_client = client, do_calls = [], do_audit = au, do_result = Inl e\<rparr>
      | Inr (p, target, request) \<Rightarrow>
          (let priority = call_priority_for caller;
               (client1, outcome) = exec client request priority;
               (client2, remaining) = (case outcome of Inl _ \<Rightarrow> (client1, None) | Inr _ \<Rightarrow> budget client1);
               result = finish_read env h request target (cr_redact_output rd) outcome remaining;
               targets = (case target of None \<Rightarrow> [] | Some t \<Rightarrow> [target_subject t])
           in \<lparr>do_client = client2, do_calls = [(request, priority)],
               do_audit = audit (cr_tool rd) targets (read_outcome result), do_result = result\<rparr>))"

section \<open>Named tools and the cursor dispatcher\<close>

text \<open>
  \<open>named_maps\<close> splits the serialized arguments of a tool (an object) into path and query: null
  arguments are dropped, the named ones must be strings.
\<close>

fun named_maps_loop ::
  "string list \<Rightarrow> jmap \<Rightarrow> (string, string) btree \<Rightarrow> (string, json) btree
    \<Rightarrow> mist_call_error + (string, string) btree \<times> (string, json) btree" where
  "named_maps_loop names [] path query = Inr (path, query)"
| "named_maps_loop names ((name, v) # rest) path query =
     (if is_null v then named_maps_loop names rest path query
      else if name \<in> set names then
        (case as_str v of
           None \<Rightarrow> Inl CallInvalidTarget
         | Some s \<Rightarrow> named_maps_loop names rest (bt_insert name s path) query)
      else named_maps_loop names rest path (bt_insert name v query))"

definition named_maps ::
  "json \<Rightarrow> string list \<Rightarrow> mist_call_error + (string, string) btree \<times> (string, json) btree" where
  "named_maps args names =
     (case as_object args of
        None \<Rightarrow> Inl CallInvalidTarget
      | Some m \<Rightarrow> named_maps_loop names m bt_empty bt_empty)"

text \<open>\<open>dispatch_named\<close>; a refusal of \<open>named_maps\<close> leaves no audit record of its own.\<close>

definition no_audit :: "string \<Rightarrow> audit_record" where
  "no_audit tool = \<lparr>au_tool = tool, au_kind = [], au_targets = [], au_outcome = AuditOpen\<rparr>"

definition refused :: "'c \<Rightarrow> audit_record \<Rightarrow> mist_call_error \<Rightarrow> 'c dispatch_outcome" where
  "refused client au e = \<lparr>do_client = client, do_calls = [], do_audit = au, do_result = Inl e\<rparr>"

definition dispatch_named ::
  "'v dispatch_env \<Rightarrow> ('c \<Rightarrow> mist_request \<Rightarrow> call_priority \<Rightarrow> 'c \<times> (mist_error + mist_response))
    \<Rightarrow> ('c \<Rightarrow> 'c \<times> budget_status option) \<Rightarrow> handler \<Rightarrow> caller_ctx option \<Rightarrow> 'c
    \<Rightarrow> string \<Rightarrow> string \<Rightarrow> json \<Rightarrow> string list \<Rightarrow> mist_capability \<Rightarrow> 'c dispatch_outcome" where
  "dispatch_named env exec budget h caller client tool i args names cap =
     (case named_maps args names of
        Inl e \<Rightarrow> refused client (no_audit tool) e
      | Inr (path, query) \<Rightarrow>
          dispatch_catalogued_read env exec budget h caller client
            \<lparr>cr_tool = tool, cr_operation_id = i, cr_path = path, cr_query = query, cr_cursor = None,
             cr_capability = cap, cr_redact_output = True\<rparr>)"

record invoke_args =
  ia_operation_id :: string
  ia_path :: "(string, string) btree option"
  ia_query :: "(string, json) btree option"
  ia_cursor :: "string option"

definition cursor_malformed :: "string \<Rightarrow> bool" where
  "cursor_malformed encoded \<longleftrightarrow>
     encoded = [] \<or> length encoded > MAX_ENCODED_CURSOR_BYTES \<or> length encoded mod 2 \<noteq> 0
     \<or> \<not> list_all is_ascii_hexdigit encoded"

text \<open>
  \<open>decode_cursor\<close> is \<open>hex::decode\<close> followed by serde, whose cursor goes through
  \<open>cursor_try_from\<close>.
\<close>

definition resolve_cursor ::
  "(string \<Rightarrow> mist_cursor option) \<Rightarrow> handler \<Rightarrow> invoke_args
    \<Rightarrow> mist_error + (string, string) btree \<times> (string, json) btree \<times> mist_cursor option" where
  "resolve_cursor decode_cursor h args =
     (case ia_cursor args of
        None \<Rightarrow> Inr (case ia_path args of None \<Rightarrow> bt_empty | Some p \<Rightarrow> p,
                    case ia_query args of None \<Rightarrow> bt_empty | Some q \<Rightarrow> q, None)
      | Some encoded \<Rightarrow>
          (case (if cursor_malformed encoded then None else decode_cursor encoded) of
             None \<Rightarrow> Inl (InvalidCursor ''opaque cursor is malformed'')
           | Some cursor \<Rightarrow>
               (case request_context cursor of
                  None \<Rightarrow> Inl (InvalidCursor ''opaque cursor has no request context'')
                | Some (path, query, stored_target) \<Rightarrow>
                    (let derived_target = (case catalog_operation (h_catalog h) (ia_operation_id args) of
                           None \<Rightarrow> None
                         | Some p \<Rightarrow> (case target_for (target_selectors p) path of
                               Inl _ \<Rightarrow> None | Inr t \<Rightarrow> t))
                     in if derived_target \<noteq> stored_target
                        then Inl (InvalidCursor ''cursor target does not match its request context'')
                        else Inr (path, query, Some cursor)))))"

definition invoke_dispatcher ::
  "'v dispatch_env \<Rightarrow> (string \<Rightarrow> mist_cursor option)
    \<Rightarrow> ('c \<Rightarrow> mist_request \<Rightarrow> call_priority \<Rightarrow> 'c \<times> (mist_error + mist_response))
    \<Rightarrow> ('c \<Rightarrow> 'c \<times> budget_status option) \<Rightarrow> handler \<Rightarrow> caller_ctx option \<Rightarrow> 'c
    \<Rightarrow> string \<Rightarrow> invoke_args \<Rightarrow> mist_capability \<Rightarrow> 'c dispatch_outcome" where
  "invoke_dispatcher env decode_cursor exec budget h caller client tool args cap =
     (if ia_cursor args \<noteq> None \<and> (ia_path args \<noteq> None \<or> ia_query args \<noteq> None)
      then refused client (audit tool [] AuditFail)
        (CallMist (InvalidCursor ''cursor cannot be combined with path or query''))
      else (case resolve_cursor decode_cursor h args of
          Inl e \<Rightarrow> refused client (audit tool [] AuditFail) (CallMist e)
        | Inr (path, query, cursor) \<Rightarrow>
            dispatch_catalogued_read env exec budget h caller client
              \<lparr>cr_tool = tool, cr_operation_id = ia_operation_id args, cr_path = path, cr_query = query,
               cr_cursor = cursor, cr_capability = cap, cr_redact_output = True\<rparr>))"

section \<open>What the checks establish\<close>

definition grant_permits ::
  "caller_ctx option \<Rightarrow> string \<Rightarrow> mist_capability \<Rightarrow> mist_target option \<Rightarrow> bool" where
  "grant_permits caller i cap target \<longleftrightarrow>
     (case Option.bind caller ca_grant of
        None \<Rightarrow> cap = OrdinaryRead
      | Some g \<Rightarrow> i \<in> set (allowed_operations g) \<and> cap \<in> set (actions g) \<and>
          set_option target \<subseteq> set (subjects g))"

definition profile_permits :: "handler \<Rightarrow> mist_target option \<Rightarrow> bool" where
  "profile_permits h target \<longleftrightarrow>
     (case target of
        None \<Rightarrow> True
      | Some (MistTarget KindOrg i) \<Rightarrow> i \<in> set (h_allowed_orgs h)
      | Some (MistTarget KindSite i) \<Rightarrow>
          (\<exists>org. bt_get (h_sites h) i = Some org \<and> org \<in> set (h_allowed_orgs h)))"

lemma authorize_grant_iff:
  "authorize_grant caller i cap target = Inr () \<longleftrightarrow> grant_permits caller i cap target"
  by (auto simp: authorize_grant_def grant_permits_def ops.allows_listed acts.allows_listed
      subs.allows_listed split: option.splits)

lemma profile_error_None_iff: "profile_error h t = None \<longleftrightarrow> profile_permits h (Some t)"
proof (cases t)
  case (MistTarget k i)
  then show ?thesis
    by (cases k) (auto simp: profile_error_def profile_permits_def starts_with_def list_ex_iff
        split: option.splits)
qed

lemma profile_permits_None [simp]: "profile_permits h None"
  by (simp add: profile_permits_def)

definition request_of_read :: "catalog_read \<Rightarrow> mist_request" where
  "request_of_read rd = \<lparr>req_operation_id = cr_operation_id rd, req_path = cr_path rd,
     req_query = cr_query rd, req_json = None, req_cursor = cr_cursor rd\<rparr>"

lemma check_read_iff:
  "check_read env h caller rd = Inr (p, target, r) \<longleftrightarrow>
     catalog_operation (h_catalog h) (cr_operation_id rd) = Some p \<and>
     target_for (target_selectors p) (cr_path rd) = Inr target \<and>
     op_method p = ''GET'' \<and> capability p = cr_capability rd \<and> \<not> (caller = None \<and> capability p = PrivilegedRead) \<and>
     de_authorize_call env caller (cr_tool rd) (map_option target_subject target) RESTRICTED_TOOLS = Inr () \<and>
     grant_permits caller (cr_operation_id rd) (capability p) target \<and> profile_permits h target \<and>
     validate_page_limit (cr_query rd) = Inr () \<and>
     request_validate (de_schema env) (h_catalog h) (h_origin h) (request_of_read rd) = Inr r"
  (is "?passed \<longleftrightarrow> ?checked")
proof
  assume ?passed
  then show ?checked unfolding check_read_def Let_def request_of_read_def
    by (auto simp: Option.is_none_def authorize_grant_iff profile_error_None_iff split: option.splits sum.splits if_splits)
next
  assume c: ?checked
  have "authorize_grant caller (cr_operation_id rd) (capability p) target = Inr ()"
    unfolding authorize_grant_iff using c by blast
  moreover have "(case target of None \<Rightarrow> None | Some t \<Rightarrow> profile_error h t) = None"
    using c by (cases target) (simp_all add: profile_error_None_iff)
  moreover have "\<not> (Option.is_none caller \<and> capability p = PrivilegedRead)"
    unfolding Option.is_none_def using c by blast
  moreover have "capability p = cr_capability rd" using c by blast
  ultimately show ?passed
    using c unfolding check_read_def request_of_read_def by (elim conjE) (simp add: Let_def)
qed

lemma check_read_Inr:
  assumes "check_read env h caller rd = Inr (p, target, r)"
  shows "catalog_operation (h_catalog h) (cr_operation_id rd) = Some p"
    "target_for (target_selectors p) (cr_path rd) = Inr target"
    "op_method p = ''GET''" "capability p = cr_capability rd"
    "caller = None \<Longrightarrow> capability p \<noteq> PrivilegedRead"
    "de_authorize_call env caller (cr_tool rd) (map_option target_subject target) RESTRICTED_TOOLS = Inr ()"
    "grant_permits caller (cr_operation_id rd) (capability p) target" "profile_permits h target"
    "validate_page_limit (cr_query rd) = Inr ()"
    "request_validate (de_schema env) (h_catalog h) (h_origin h) (request_of_read rd) = Inr r"
  using assms unfolding check_read_iff by blast+

lemma dispatch_calls:
  "do_calls (dispatch_catalogued_read env exec budget h caller client rd) =
     (case check_read env h caller rd of Inl _ \<Rightarrow> []
      | Inr (p, target, r) \<Rightarrow> [(r, call_priority_for caller)])"
  by (auto simp: dispatch_catalogued_read_def Let_def split: sum.splits prod.splits)

lemma dispatch_result_Inr:
  assumes "do_result (dispatch_catalogued_read env exec budget h caller client rd) = Inr e"
  shows "\<exists>p target r c outcome remaining.
    check_read env h caller rd = Inr (p, target, r) \<and> exec client r (call_priority_for caller) = (c, outcome) \<and>
    finish_read env h r target (cr_redact_output rd) outcome remaining = Inr e"
proof (cases "check_read env h caller rd")
  case (Inr x)
  obtain p target r where x: "x = (p, target, r)" by (cases x) auto
  obtain c outcome where ex: "exec client r (call_priority_for caller) = (c, outcome)" by fastforce
  with assms Inr x show ?thesis
    by (auto simp: dispatch_catalogued_read_def Let_def split: prod.splits)
qed (use assms in \<open>auto simp: dispatch_catalogued_read_def split: prod.splits\<close>)

lemma request_of_read_simps [simp]:
  "req_operation_id (request_of_read rd) = cr_operation_id rd" "req_path (request_of_read rd) = cr_path rd"
  "req_query (request_of_read rd) = cr_query rd" "req_cursor (request_of_read rd) = cr_cursor rd"
  "req_json (request_of_read rd) = None"
  by (simp_all add: request_of_read_def)

lemma check_read_request:
  "check_read env h caller rd = Inr (p, target, r) \<Longrightarrow> r = request_of_read rd"
  using check_read_Inr(10) by (fastforce simp: request_validate_Inr)

lemma check_read_passes:
  "(\<exists>p target. check_read env h caller rd = Inr (p, target, r)) \<longleftrightarrow> r = request_of_read rd \<and>
    (\<exists>p target.
      catalog_operation (h_catalog h) (cr_operation_id rd) = Some p \<and> op_method p = ''GET'' \<and>
      capability p = cr_capability rd \<and> target_for (target_selectors p) (cr_path rd) = Inr target \<and>
      de_authorize_call env caller (cr_tool rd) (map_option target_subject target) RESTRICTED_TOOLS = Inr () \<and>
      grant_permits caller (cr_operation_id rd) (cr_capability rd) target \<and> profile_permits h target \<and>
      validate_page_limit (cr_query rd) = Inr () \<and>
      request_validate (de_schema env) (h_catalog h) (h_origin h) r = Inr r)" (is "?passed \<longleftrightarrow> ?checked")
proof
  assume ?passed
  then obtain p target where passed: "check_read env h caller rd = Inr (p, target, r)" by blast
  from check_read_Inr [OF passed] check_read_request [OF passed] show ?checked
    by (intro conjI exI [of _ p] exI [of _ target]) simp_all
next
  assume c: ?checked
  then obtain p target where "catalog_operation (h_catalog h) (cr_operation_id rd) = Some p"
    "op_method p = ''GET''" "capability p = cr_capability rd" "target_for (target_selectors p) (cr_path rd) = Inr target"
    "de_authorize_call env caller (cr_tool rd) (map_option target_subject target) RESTRICTED_TOOLS = Inr ()"
    "grant_permits caller (cr_operation_id rd) (cr_capability rd) target" "profile_permits h target"
    "validate_page_limit (cr_query rd) = Inr ()"
    "request_validate (de_schema env) (h_catalog h) (h_origin h) (request_of_read rd) = Inr r" by blast
  moreover from this(6) have "\<not> (caller = None \<and> cr_capability rd = PrivilegedRead)"
    by (auto simp: grant_permits_def)
  ultimately have "check_read env h caller rd = Inr (p, target, r)"
    unfolding check_read_iff by simp
  then show ?passed by blast
qed

definition body_data :: "response_body \<Rightarrow> json" where
  "body_data b = (case b of BodyJson v \<Rightarrow> v | BodyText t \<Rightarrow> JStr t
     | BodyBinary bs \<Rightarrow> JArr (map (\<lambda>x. JNum (PosInt (ucast x))) bs) | BodyEmpty \<Rightarrow> JNull)"

definition body_media :: "response_body \<Rightarrow> string" where
  "body_media b = (case b of BodyJson _ \<Rightarrow> ''application/json'' | BodyText _ \<Rightarrow> ''text/plain; charset=utf-8''
     | _ \<Rightarrow> ''application/octet-stream'')"

text \<open>The cursor of a response, with the request in it.\<close>

definition bound_cursor ::
  "'v dispatch_env \<Rightarrow> catalog_read \<Rightarrow> mist_target option \<Rightarrow> mist_cursor option \<Rightarrow> mist_cursor option \<Rightarrow> bool" where
  "bound_cursor env rd target found cursor \<longleftrightarrow>
     (case found of
        None \<Rightarrow> cursor = None
      | Some c \<Rightarrow> \<exists>c'. cursor = Some c' \<and>
          with_request_context (de_cursor_json env) (cr_path rd) (cr_query rd) target c = Inr c')"

lemma finish_read_iff:
  "finish_read env h (request_of_read rd) target redact outcome remaining = Inr e \<longleftrightarrow>
     (\<exists>x cursor. outcome = Inr x \<and> resp_operation_id x = cr_operation_id rd \<and>
        response_validate (de_schema env) (de_response_json env) (h_catalog h) (h_origin h) x = Inr x \<and>
        200 \<le> resp_status x \<and> resp_status x < 300 \<and> bound_cursor env rd target (resp_cursor x) cursor \<and>
        e = envelope_from_response env (x\<lparr>resp_cursor := cursor\<rparr>) target remaining redact)"
proof -
  have cursor: "(case found of None \<Rightarrow> Inr None
      | Some c \<Rightarrow> and_then (with_request_context (de_cursor_json env) (req_path (request_of_read rd))
          (req_query (request_of_read rd)) target c) (\<lambda>c. Inr (Some c)))
      = Inr cursor \<longleftrightarrow> bound_cursor env rd target found cursor" for found cursor
    by (cases found) (auto simp: bound_cursor_def and_then_Inr_iff)
  show ?thesis
  proof (cases outcome)
    case (Inr x)
    show ?thesis
    proof (cases "response_validate (de_schema env) (de_response_json env) (h_catalog h) (h_origin h) x")
      case (Inr y)
      then have "y = x" by (simp add: response_validate_Inr)
      with Inr \<open>outcome = Inr x\<close> show ?thesis
        by (auto simp: finish_read_def and_then_Inr_iff cursor not_less not_le)
    qed (simp add: finish_read_def Inr)
  qed (simp add: finish_read_def)
qed

lemma envelope_exact:
  "envelope_from_response env (x\<lparr>resp_cursor := cursor\<rparr>) target budget redact =
     \<lparr>en_operation_id = resp_operation_id x, en_target = map_option target_subject target,
      en_status = resp_status x, en_content_type = body_media (resp_body x),
      en_data = (if redact then de_redact env (body_data (resp_body x)) else body_data (resp_body x)),
      en_next_cursor = Option.bind cursor (\<lambda>c. map_option (de_hex_encode env) (de_cursor_json env c)),
      en_page = Option.bind (resp_page x) (\<lambda>pg. if page_info_is_empty pg then None else Some pg),
      en_truncated = False, en_budget_remaining = budget\<rparr>"
  by (auto simp: envelope_from_response_def body_data_def body_media_def Let_def split: response_body.splits option.splits)

section \<open>Properties of a read\<close>

text \<open>C4: The client receives a request exactly when everything was checked: the operation is
  catalogued, is a GET of the capability the tool asked for, the caller's tool scope admits
  the target, the caller's grant lists the operation, the action and the target (without a
  grant only ordinary reads pass), the target's organization is configured, the page limit is
  in range, and the request, which has no body, is valid. It is sent at the reserved priority
  exactly for a caller verified human.\<close>

theorem read_call_exact:
  "(r, priority) \<in> set (do_calls (dispatch_catalogued_read env exec budget h caller client rd)) \<longleftrightarrow>
     r = \<lparr>req_operation_id = cr_operation_id rd, req_path = cr_path rd, req_query = cr_query rd, req_json = None,
       req_cursor = cr_cursor rd\<rparr> \<and>
     priority = (if \<exists>ctx. caller = Some ctx \<and> ca_actor_type ctx = ActorHuman then Reserved else Standard) \<and>
     (\<exists>p target.
        catalog_operation (h_catalog h) (cr_operation_id rd) = Some p \<and> op_method p = ''GET'' \<and>
        capability p = cr_capability rd \<and> target_for (target_selectors p) (cr_path rd) = Inr target \<and>
        de_authorize_call env caller (cr_tool rd) (map_option target_subject target) RESTRICTED_TOOLS = Inr () \<and>
        grant_permits caller (cr_operation_id rd) (cr_capability rd) target \<and> profile_permits h target \<and>
        validate_page_limit (cr_query rd) = Inr () \<and>
        request_validate (de_schema env) (h_catalog h) (h_origin h) r = Inr r)"
proof -
  have "(r, priority) \<in> set (do_calls (dispatch_catalogued_read env exec budget h caller client rd)) \<longleftrightarrow>
      (\<exists>p target. check_read env h caller rd = Inr (p, target, r)) \<and> priority = call_priority_for caller"
    by (cases "check_read env h caller rd") (auto simp: dispatch_calls)
  moreover have "call_priority_for caller =
      (if \<exists>ctx. caller = Some ctx \<and> ca_actor_type ctx = ActorHuman then Reserved else Standard)"
    by (simp add: call_priority_for_def split: option.split)
  ultimately show ?thesis unfolding check_read_passes request_of_read_def by (simp only: conj_ac)
qed

text \<open>C12: A read returns an envelope exactly for a call that was made and answered with a success
  status and a valid response for the requested operation, whose cursor, if any, fits its bound once the request is
  in it. The envelope is that answer: its target and status, the data, which went through the redactor where the
  tool redacts, the cursor, the page and the budget that is left.\<close>

theorem read_result_exact:
  "do_result (dispatch_catalogued_read env exec budget h caller client rd) = Inr e \<longleftrightarrow>
     (\<exists>p target c x cursor.
        do_calls (dispatch_catalogued_read env exec budget h caller client rd) =
          [(request_of_read rd, call_priority_for caller)] \<and>
        catalog_operation (h_catalog h) (cr_operation_id rd) = Some p \<and>
        target_for (target_selectors p) (cr_path rd) = Inr target \<and>
        exec client (request_of_read rd) (call_priority_for caller) = (c, Inr x) \<and>
        resp_operation_id x = cr_operation_id rd \<and>
        response_validate (de_schema env) (de_response_json env) (h_catalog h) (h_origin h) x = Inr x \<and>
        200 \<le> resp_status x \<and> resp_status x < 300 \<and>
        bound_cursor env rd target (resp_cursor x) cursor \<and>
        e = \<lparr>en_operation_id = cr_operation_id rd, en_target = map_option target_subject target,
             en_status = resp_status x, en_content_type = body_media (resp_body x),
             en_data = (if cr_redact_output rd then de_redact env (body_data (resp_body x)) else body_data (resp_body x)),
             en_next_cursor = Option.bind cursor (\<lambda>c. map_option (de_hex_encode env) (de_cursor_json env c)),
             en_page = Option.bind (resp_page x) (\<lambda>pg. if page_info_is_empty pg then None else Some pg),
             en_truncated = False, en_budget_remaining = snd (budget c)\<rparr>)"
proof (cases "check_read env h caller rd")
  case (Inr y)
  obtain p target r where y: "y = (p, target, r)" by (cases y) auto
  have r: "r = request_of_read rd" using check_read_request Inr y by blast
  note checked = check_read_Inr [OF Inr [unfolded y]]
  obtain c outcome where ex: "exec client r (call_priority_for caller) = (c, outcome)" by fastforce
  have "do_result (dispatch_catalogued_read env exec budget h caller client rd) =
      finish_read env h r target (cr_redact_output rd) outcome
        (case outcome of Inl _ \<Rightarrow> None | Inr _ \<Rightarrow> snd (budget c))"
    using Inr y ex by (auto simp: dispatch_catalogued_read_def Let_def split: prod.splits sum.splits)
  moreover have "do_calls (dispatch_catalogued_read env exec budget h caller client rd) =
      [(request_of_read rd, call_priority_for caller)]" using Inr y r by (simp add: dispatch_calls)
  ultimately show ?thesis
    using checked(1,2) ex r by (cases outcome) (simp_all add: finish_read_iff envelope_exact cong: conj_cong)
qed (auto simp: dispatch_catalogued_read_def dispatch_calls split: prod.splits)

definition example_handler :: handler where
  "example_handler = \<lparr>h_origin = example_origin,
     h_allowed_orgs = [''11111111-1111-1111-1111-111111111111''], h_sites = bt_empty,
     h_catalog = example_catalog, h_lab_mode = False\<rparr>"

definition example_dispatch_env :: "nat dispatch_env" where
  "example_dispatch_env = \<lparr>de_authorize_call = \<lambda>_ _ _ _. Inr (),
     de_schema = \<lparr>js_compile = \<lambda>_. None, js_errors = \<lambda>_ _. [], js_cache = \<lambda>_. None\<rparr>,
     de_response_json = \<lambda>_. Some [], de_cursor_json = \<lambda>_. Some [], de_hex_encode = \<lambda>s. s,
     de_redact = \<lambda>v. v, de_float = example_floats, de_lowercase = to_ascii_lowercase\<rparr>"

definition example_caller :: caller_ctx where
  "example_caller = \<lparr>ca_token_name = ''noc'', ca_request_id = ''1'', ca_actor_type = ActorHuman,
     ca_grant = Some \<lparr>allowed_operations = [''getSelf''], actions = [PrivilegedRead],
       subjects = [MistTarget KindOrg ''11111111-1111-1111-1111-111111111111'']\<rparr>,
     ca_devices = \<lambda>_. True\<rparr>"

definition example_response :: mist_response where
  "example_response = \<lparr>resp_operation_id = ''getSelf'', resp_status = 200,
     resp_body = BodyEmpty, resp_cursor = None, resp_page = None\<rparr>"

definition example_exec ::
  "unit \<Rightarrow> mist_request \<Rightarrow> call_priority \<Rightarrow> unit \<times> (mist_error + mist_response)" where
  "example_exec c r p = ((), Inr example_response)"

definition example_read :: catalog_read where
  "example_read = \<lparr>cr_tool = ''get_mist_self'', cr_operation_id = ''getSelf'', cr_path = bt_empty,
     cr_query = bt_empty, cr_cursor = None, cr_capability = PrivilegedRead, cr_redact_output = True\<rparr>"

definition example_dispatch :: "unit dispatch_outcome" where
  "example_dispatch = dispatch_catalogued_read example_dispatch_env example_exec (\<lambda>c. (c, None))
     example_handler (Some example_caller) () example_read"

lemma get_self_fields [simp]:
  "op_method get_self = ''GET''" "capability get_self = PrivilegedRead" "parameters get_self = []"
  "target_selectors get_self = [SelNone]" "request_body_required get_self = False"
  "responses get_self = [(''200'', bt_empty)]" "operation_id get_self = ''getSelf''"
  by (simp_all add: get_self_def)

lemma example_request_valid:
  "request_validate js example_catalog origin example_request = Inr example_request"
proof -
  have bounds: "validate_request_bounds example_request = Inr ()"
    by (simp add: validate_request_bounds_def example_request_def MAX_OPERATION_ID_BYTES_def
        MAX_PATH_VALUES_def MAX_QUERY_VALUES_def bt_empty_def bt_keys_def bt_values_def)
  have params: "parameters_ok js example_catalog get_self example_request l" for l
    by (cases l) (simp_all add: parameters_ok_def declared_parameters_def supplied_names_def
        example_request_def bt_empty_def bt_keys_def)
  show ?thesis
    unfolding request_validate_Inr using bounds params
    by (simp add: example_request_def body_ok_def)
qed

lemma example_read_checked:
  "check_read example_dispatch_env example_handler (Some example_caller) example_read =
     Inr (get_self, None, example_request)"
  by (simp add: check_read_def example_read_def example_handler_def Let_def target_for_def
      example_dispatch_env_def authorize_grant_def example_caller_def allows_operation_def allows_action_def
      validate_page_limit_def bt_empty_def bt_get_def example_request_def
      example_request_valid [unfolded example_request_def bt_empty_def])

lemma example_response_valid:
  "response_validate js (\<lambda>_. Some []) example_catalog origin example_response = Inr example_response"
proof -
  have "validate_response_bounds (\<lambda>_. Some []) example_response = Inr ()"
    by (simp add: validate_response_bounds_def example_response_def MAX_OPERATION_ID_BYTES_def
        MAX_RESPONSE_BODY_BYTES_def)
  moreover have "bt_get (responses get_self) (dec_nat (unat (resp_status example_response))) = Some bt_empty"
    by (simp add: bt_get_def example_response_def) code_simp
  ultimately show ?thesis
    unfolding response_validate_Inr
    by (simp add: example_response_def media_body_ok_def bt_empty_def)
qed

lemma example_read_finished:
  "\<exists>e. finish_read example_dispatch_env example_handler example_request None True (Inr example_response)
     remaining = Inr e"
proof -
  have "resp_operation_id example_response = req_operation_id example_request"
      "resp_status example_response = 200" "resp_cursor example_response = None"
    by (simp_all add: example_response_def example_request_def)
  then show ?thesis
    using example_response_valid [of "de_schema example_dispatch_env" "h_origin example_handler"]
    by (simp add: finish_read_def example_dispatch_env_def example_handler_def)
qed

lemma example_dispatch_ok: "\<exists>e. do_result example_dispatch = Inr e"
  using example_read_finished [of None]
  by (simp add: example_dispatch_def dispatch_catalogued_read_def example_read_checked example_exec_def Let_def)
    (simp add: example_read_def)

lemma example_dispatch_calls: "do_calls example_dispatch = [(example_request, Reserved)]"
  by (simp add: example_dispatch_def dispatch_calls example_read_checked)
     (simp add: call_priority_for_def example_caller_def)

section \<open>Properties of the arguments, of cursors and of the site table\<close>

definition named_arguments :: "string list \<Rightarrow> jmap \<Rightarrow> (string \<times> string) list" where
  "named_arguments names m = [(k, s). (k, JStr s) \<leftarrow> m, k \<in> set names]"

definition other_arguments :: "string list \<Rightarrow> jmap \<Rightarrow> (string \<times> json) list" where
  "other_arguments names m = [(k, v) \<leftarrow> m. k \<notin> set names \<and> \<not> is_null v]"

definition argument_refused :: "string list \<Rightarrow> string \<times> json \<Rightarrow> bool" where
  "argument_refused names a \<longleftrightarrow> fst a \<in> set names \<and> \<not> is_null (snd a) \<and> as_str (snd a) = None"

lemma named_maps_loop_eq:
  "named_maps_loop names m path query =
     (if list_ex (argument_refused names) m then Inl CallInvalidTarget
      else Inr (fold (\<lambda>(k, s). bt_insert k s) (named_arguments names m) path,
                fold (\<lambda>(k, v). bt_insert k v) (other_arguments names m) query))"
proof (induction names m path query rule: named_maps_loop.induct)
  case (2 names name v rest path query)
  then show ?case
    by (cases v) (simp_all add: named_arguments_def other_arguments_def argument_refused_def)
qed (simp add: named_arguments_def other_arguments_def)

text \<open>The arguments of a tool are split exactly: it fails when an argument that names a path
  parameter is neither null nor a string; otherwise the path has the named strings and the query
  every other argument that is not null, and nothing else.\<close>

theorem named_maps_exact:
  "named_maps (JObj m) names =
     (if list_ex (argument_refused names) m then Inl CallInvalidTarget
      else Inr (bt_from (named_arguments names m), bt_from (other_arguments names m)))"
  by (simp add: named_maps_def named_maps_loop_eq bt_from_def)

text \<open>C23: Whatever the client supplies as a cursor, the only call made for it is the one stored in
  the decoded cursor: neither path nor query came with it, the encoding is within bounds, the
  path and query are those stored, the stored target is the one the path names for the
  operation, and the cursor is bound to that operation and to the configured origin.\<close>

theorem cursor_call_is_stored_call:
  "set (do_calls (invoke_dispatcher env decode_cursor exec budget h caller client tool args cap)) \<subseteq>
     {(r, priority). req_operation_id r = ia_operation_id args \<and> (case ia_cursor args of
         None \<Rightarrow> req_cursor r = None
       | Some encoded \<Rightarrow> ia_path args = None \<and> ia_query args = None \<and> \<not> cursor_malformed encoded \<and>
           (\<exists>cursor p target. decode_cursor encoded = Some cursor \<and> req_cursor r = Some cursor \<and>
              request_context cursor = Some (req_path r, req_query r, target) \<and>
              catalog_operation (h_catalog h) (req_operation_id r) = Some p \<and>
              target_for (target_selectors p) (req_path r) = Inr target \<and> profile_permits h target \<and>
              cursor_validate_for cursor p (h_origin h) = Inr ()))}"
proof (intro subsetI, clarify)
  fix r priority
  assume call: "(r, priority) \<in> set (do_calls (invoke_dispatcher env decode_cursor exec budget h caller client tool args cap))"
  then obtain path query cursor where res: "resolve_cursor decode_cursor h args = Inr (path, query, cursor)"
    and excl: "ia_cursor args = None \<or> ia_path args = None \<and> ia_query args = None"
    and call': "(r, priority) \<in> set (do_calls (dispatch_catalogued_read env exec budget h caller client
        \<lparr>cr_tool = tool, cr_operation_id = ia_operation_id args, cr_path = path, cr_query = query,
         cr_cursor = cursor, cr_capability = cap, cr_redact_output = True\<rparr>))"
    by (auto simp: invoke_dispatcher_def refused_def split: if_splits sum.splits)
  obtain p target where chk: "check_read env h caller \<lparr>cr_tool = tool, cr_operation_id = ia_operation_id args,
      cr_path = path, cr_query = query, cr_cursor = cursor, cr_capability = cap,
      cr_redact_output = True\<rparr> = Inr (p, target, r)"
    using call' by (auto simp: dispatch_calls split: sum.splits dest: sym)
  note f = check_read_Inr [OF chk, simplified]
  have r: "req_operation_id r = ia_operation_id args" "req_path r = path" "req_query r = query" "req_cursor r = cursor"
    by (simp_all add: check_read_request [OF chk])
  show "req_operation_id r = ia_operation_id args \<and> (case ia_cursor args of
         None \<Rightarrow> req_cursor r = None
       | Some encoded \<Rightarrow> ia_path args = None \<and> ia_query args = None \<and> \<not> cursor_malformed encoded \<and>
           (\<exists>cursor p target. decode_cursor encoded = Some cursor \<and> req_cursor r = Some cursor \<and>
              request_context cursor = Some (req_path r, req_query r, target) \<and>
              catalog_operation (h_catalog h) (req_operation_id r) = Some p \<and>
              target_for (target_selectors p) (req_path r) = Inr target \<and> profile_permits h target \<and>
              cursor_validate_for cursor p (h_origin h) = Inr ()))"
    using res excl f r
    by (auto simp: resolve_cursor_def Let_def request_validate_Inr split: option.splits if_splits)
qed

definition sites_of_orgs :: "(string, string) btree \<Rightarrow> string list \<Rightarrow> bool" where
  "sites_of_orgs sites orgs \<longleftrightarrow> length sites \<le> 4096 \<and>
     list_all (\<lambda>(site, org). is_canonical_uuid site \<and> org \<in> set orgs) sites"

lemma validate_sites_sound:
  "validate_sites sites orgs = Inr u \<Longrightarrow> sites_of_orgs sites orgs"
  by (auto simp: validate_sites_def sites_of_orgs_def list_ex_iff list_all_iff target_site_def
      split: if_splits)

lemma replace_sites_keeps:
  assumes "sites_of_orgs (h_sites h) (h_allowed_orgs h)"
  shows "sites_of_orgs (h_sites (fst (replace_sites sites h))) (h_allowed_orgs (fst (replace_sites sites h)))"
    and "h_allowed_orgs (fst (replace_sites sites h)) = h_allowed_orgs h"
  using assms by (auto simp: replace_sites_def validate_sites_sound split: sum.split)

definition replace_all :: "(string, string) btree list \<Rightarrow> handler \<Rightarrow> handler" where
  "replace_all updates h = fold (\<lambda>sites h. fst (replace_sites sites h)) updates h"

lemma replace_all_keeps:
  "sites_of_orgs (h_sites h) (h_allowed_orgs h) \<Longrightarrow>
   sites_of_orgs (h_sites (replace_all updates h)) (h_allowed_orgs h) \<and>
   h_allowed_orgs (replace_all updates h) = h_allowed_orgs h"
  unfolding replace_all_def
  by (induction updates arbitrary: h) (simp_all, metis replace_sites_keeps)

lemma with_client_options_Inr:
  assumes "with_client_options parse_url loaded_catalog load e orgs sites lab = Inr h"
  shows "h_allowed_orgs h = orgs" "h_sites h = sites" "sites_of_orgs sites orgs"
    "\<not> orgs_invalid orgs" "validate_mist_endpoint parse_url e = Inr (h_origin h)"
  using assms
  by (auto simp: with_client_options_def and_then_Inr_iff validate_sites_sound split: if_splits)

text \<open>Whatever site tables a refresh offers after construction, the table in use never exceeds
  4096 entries and maps canonical site identifiers to configured organizations; so a call for
  a site is permitted by the profile exactly when the table has the site.\<close>

theorem site_table_invariant:
  assumes "with_client_options parse_url loaded_catalog load e orgs sites lab = Inr h"
  shows "sites_of_orgs (h_sites (replace_all updates h)) orgs \<and>
    (profile_permits (replace_all updates h) (Some (MistTarget KindSite i)) \<longleftrightarrow>
      bt_contains_key (h_sites (replace_all updates h)) i)"
proof -
  have inv: "sites_of_orgs (h_sites (replace_all updates h)) orgs" "h_allowed_orgs (replace_all updates h) = orgs"
    using replace_all_keeps [of h updates] with_client_options_Inr(1-3) [OF assms] by simp_all
  moreover have "org \<in> set orgs" if "bt_get (h_sites (replace_all updates h)) i = Some org" for org
    using that inv(1) by (auto simp: sites_of_orgs_def list_all_iff bt_get_def dest: map_of_SomeD)
  ultimately show ?thesis
    by (auto simp: profile_permits_def bt_contains_key_def)
qed

definition example_org :: string where "example_org = ''11111111-1111-1111-1111-111111111111''"
definition example_site :: string where "example_site = ''22222222-2222-2222-2222-222222222222''"

lemma example_canonical: "is_canonical_uuid example_org" "is_canonical_uuid example_site"
  by code_simp+

lemma example_handler_built:
  "with_client_options (\<lambda>_. Some example_origin) (Inr example_catalog) (Inr ()) ''https://api.mist.com/''
     [example_org] [(example_site, example_org)] False =
   Inr \<lparr>h_origin = example_origin, h_allowed_orgs = [example_org], h_sites = [(example_site, example_org)],
        h_catalog = example_catalog, h_lab_mode = False\<rparr>"
proof -
  have "validate_mist_endpoint (\<lambda>_. Some example_origin) ''https://api.mist.com/'' = Inr example_origin"
    by code_simp
  then show ?thesis
    by (simp add: with_client_options_def orgs_invalid_def validate_sites_def target_site_def target_org_def
        example_canonical)
qed

theorem site_table_invariant_witness:
  "sites_of_orgs (h_sites (replace_all [[(example_org, example_site)]]
     \<lparr>h_origin = example_origin, h_allowed_orgs = [example_org], h_sites = [(example_site, example_org)],
      h_catalog = example_catalog, h_lab_mode = False\<rparr>)) [example_org]"
  using site_table_invariant [OF example_handler_built, of "[[(example_org, example_site)]]" example_site]
  by blast

section \<open>A client that is blocked\<close>

context mist_client begin

lemma blocked_read_fails:
  assumes "blocked client"
  shows "do_result (dispatch_catalogued_read env exec budget h caller client rd) \<noteq> Inr e"
proof
  assume "do_result (dispatch_catalogued_read env exec budget h caller client rd) = Inr e"
  from dispatch_result_Inr [OF this]
  obtain r c outcome target remaining where "exec client r (call_priority_for caller) = (c, outcome)"
      "finish_read env h r target (cr_redact_output rd) outcome remaining = Inr e"
    by blast
  with assms show False by (auto simp: exec_blocked finish_read_def)
qed

lemma blocked_dispatch_fails:
  "blocked client \<Longrightarrow> do_result (dispatch_named env exec budget h caller client tool i args names cap) \<noteq> Inr e"
  "blocked client \<Longrightarrow>
     do_result (invoke_dispatcher env decode exec budget h caller client tool iargs cap) \<noteq> Inr e"
  by (auto simp: dispatch_named_def invoke_dispatcher_def refused_def blocked_read_fails
      split: sum.splits prod.splits)

end

text \<open>A server whose client is the blocked one never answers a read, neither through a named
  tool nor through the dispatcher.\<close>

theorem blocked_server_answers_nothing:
  "do_result (dispatch_named env blocked_exec budget h caller () tool i args names cap) \<noteq> Inr e \<and>
   do_result (invoke_dispatcher env decode blocked_exec budget h caller () tool iargs cap) \<noteq> Inr e"
  by (simp add: blocked.blocked_dispatch_fails)

section \<open>An unknown operation\<close>

text \<open>A read of an operation that the catalog does not have is answered with the error that names
  it, except where the computation of the suggestions panics: an identifier with a two-byte
  character five bytes before its end aborts the call.\<close>

theorem unknown_operation_can_panic:
  "do_result (dispatch_catalogued_read example_dispatch_env exec budget example_handler caller client
     (example_read\<lparr>cr_operation_id := CHR 0xC3 # CHR 0xA9 # ''1234''\<rparr>)) = Inl CallPanicked"
proof -
  let ?i = "CHR 0xC3 # CHR 0xA9 # ''1234''"
  have "catalog_operation example_catalog ?i = None"
    by (simp add: catalog_operation_def example_catalog_def index_get_def bt_get_def)
  moreover have "find_similar_operations fl to_ascii_lowercase example_catalog ?i = None" for fl :: "64 word float_ops"
    by (simp only: find_similar_operations_def example_catalog_def catalog.simps suggestion_panics option.map)
  moreover have "h_catalog example_handler = example_catalog" "de_lowercase example_dispatch_env = to_ascii_lowercase"
    by (simp_all add: example_handler_def example_dispatch_env_def)
  ultimately have "check_read example_dispatch_env example_handler caller (example_read\<lparr>cr_operation_id := ?i\<rparr>) =
      Inl (audit (cr_tool example_read) [] AuditOpen, CallPanicked)"
    by (simp add: check_read_def Let_def unknown_operation_text_def)
  then show ?thesis by (simp add: dispatch_catalogued_read_def)
qed

end
