(* ===== verification/Wan.thy ===== *)
theory Wan
  imports Catalog
begin

text \<open>
  \<open>server/wan.rs\<close> and \<open>server/wan_write.rs\<close>: the selectors of the collapsed WAN tools, the
  pairing of each configuration write with its read, the refusals of a patch, and the JSON
  merge patch. \<open>catalog_paths\<close> is the part of \<open>docs/mist-api/catalog.json\<close>, which is
  compiled into the program, that the selectors name.
\<close>

section \<open>Selectors\<close>

datatype wan_scope = ScopeOrg | ScopeSite
datatype stats_mode = ModeRecords | ModeCount
datatype sle_impact_view = ImpactGateways | ImpactApplications | ImpactSummary
datatype app_source = AppSite | AppCatalog
datatype wan_object = ObjNetwork | ObjService | ObjServicePolicy | ObjGatewayTemplate | ObjDeviceProfile

record resolved =
  res_operation_id :: string
  res_path_names :: "string list"

definition resolve :: "string \<Rightarrow> string list \<Rightarrow> resolved" where
  "resolve i names = \<lparr>res_operation_id = i, res_path_names = names\<rparr>"

definition resolve_scope :: "string option \<Rightarrow> string option \<Rightarrow> unit + wan_scope" where
  "resolve_scope org_id site_id =
     (case (org_id, site_id) of
        (Some _, None) \<Rightarrow> Inr ScopeOrg
      | (None, Some _) \<Rightarrow> Inr ScopeSite
      | _ \<Rightarrow> Inl ())"

fun wan_edges :: "wan_scope \<Rightarrow> resolved" where
  "wan_edges ScopeOrg = resolve ''searchOrgDevices'' [''org_id'']"
| "wan_edges ScopeSite = resolve ''searchSiteDevices'' [''site_id'']"

definition wan_edge_stats :: "bool \<Rightarrow> resolved" where
  "wan_edge_stats per_device =
     (if per_device then resolve ''getSiteInsightMetricsForGateway'' [''site_id'', ''device_id'']
      else resolve ''getSiteGatewayMetrics'' [''site_id''])"

fun tunnels :: "stats_mode \<Rightarrow> resolved" where
  "tunnels ModeRecords = resolve ''searchOrgTunnelsStats'' [''org_id'']"
| "tunnels ModeCount = resolve ''countOrgTunnelsStats'' [''org_id'']"

fun peer_paths :: "stats_mode \<Rightarrow> resolved" where
  "peer_paths ModeRecords = resolve ''searchOrgPeerPathStats'' [''org_id'']"
| "peer_paths ModeCount = resolve ''countOrgPeerPathStats'' [''org_id'']"

fun bgp_peers :: "wan_scope \<Rightarrow> stats_mode \<Rightarrow> resolved" where
  "bgp_peers ScopeOrg ModeRecords = resolve ''searchOrgBgpStats'' [''org_id'']"
| "bgp_peers ScopeOrg ModeCount = resolve ''countOrgBgpStats'' [''org_id'']"
| "bgp_peers ScopeSite ModeRecords = resolve ''searchSiteBgpStats'' [''site_id'']"
| "bgp_peers ScopeSite ModeCount = resolve ''countSiteBgpStats'' [''site_id'']"

fun alarms :: "wan_scope \<Rightarrow> stats_mode \<Rightarrow> resolved" where
  "alarms ScopeOrg ModeRecords = resolve ''searchOrgAlarms'' [''org_id'']"
| "alarms ScopeOrg ModeCount = resolve ''countOrgAlarms'' [''org_id'']"
| "alarms ScopeSite ModeRecords = resolve ''searchSiteAlarms'' [''site_id'']"
| "alarms ScopeSite ModeCount = resolve ''countSiteAlarms'' [''site_id'']"

fun service_path_events :: "stats_mode \<Rightarrow> resolved" where
  "service_path_events ModeRecords = resolve ''searchSiteServicePathEvents'' [''site_id'']"
| "service_path_events ModeCount = resolve ''countSiteServicePathEvents'' [''site_id'']"

definition sle_impact :: "sle_impact_view \<Rightarrow> resolved" where
  "sle_impact impact =
     resolve (case impact of
         ImpactGateways \<Rightarrow> ''listSiteSleImpactedGateways''
       | ImpactApplications \<Rightarrow> ''listSiteSleImpactedApplications''
       | ImpactSummary \<Rightarrow> ''getSiteSleImpactSummary'')
       [''site_id'', ''scope'', ''scope_id'', ''metric'']"

fun applications :: "app_source \<Rightarrow> stats_mode \<Rightarrow> resolved" where
  "applications AppSite ModeRecords = resolve ''listSiteApps'' [''site_id'']"
| "applications AppSite ModeCount = resolve ''countSiteApps'' [''site_id'']"
| "applications AppCatalog _ = resolve ''listGatewayApplications'' []"

fun list_config :: "wan_object \<Rightarrow> wan_scope \<Rightarrow> resolved" where
  "list_config ObjNetwork ScopeOrg = resolve ''listOrgNetworks'' [''org_id'']"
| "list_config ObjService ScopeOrg = resolve ''listOrgServices'' [''org_id'']"
| "list_config ObjServicePolicy ScopeOrg = resolve ''listOrgServicePolicies'' [''org_id'']"
| "list_config ObjGatewayTemplate ScopeOrg = resolve ''listOrgGatewayTemplates'' [''org_id'']"
| "list_config ObjDeviceProfile ScopeOrg = resolve ''listOrgDeviceProfiles'' [''org_id'']"
| "list_config ObjNetwork ScopeSite = resolve ''listSiteNetworksDerived'' [''site_id'']"
| "list_config ObjService ScopeSite = resolve ''listSiteServicesDerived'' [''site_id'']"
| "list_config ObjServicePolicy ScopeSite = resolve ''listSiteServicePoliciesDerived'' [''site_id'']"
| "list_config ObjGatewayTemplate ScopeSite = resolve ''listSiteGatewayTemplatesDerived'' [''site_id'']"
| "list_config ObjDeviceProfile ScopeSite = resolve ''listSiteDeviceProfilesDerived'' [''site_id'']"

fun get_config :: "wan_object \<Rightarrow> resolved" where
  "get_config ObjNetwork = resolve ''getOrgNetwork'' [''org_id'', ''network_id'']"
| "get_config ObjService = resolve ''getOrgService'' [''org_id'', ''service_id'']"
| "get_config ObjServicePolicy = resolve ''getOrgServicePolicy'' [''org_id'', ''servicepolicy_id'']"
| "get_config ObjGatewayTemplate = resolve ''getOrgGatewayTemplate'' [''org_id'', ''gatewaytemplate_id'']"
| "get_config ObjDeviceProfile = resolve ''getOrgDeviceProfile'' [''org_id'', ''deviceprofile_id'']"

fun object_id_name :: "wan_object \<Rightarrow> string" where
  "object_id_name ObjNetwork = ''network_id''"
| "object_id_name ObjService = ''service_id''"
| "object_id_name ObjServicePolicy = ''servicepolicy_id''"
| "object_id_name ObjGatewayTemplate = ''gatewaytemplate_id''"
| "object_id_name ObjDeviceProfile = ''deviceprofile_id''"

section \<open>Write targets\<close>

datatype write_verb = VerbCreate | VerbUpdate

record write_target_info =
  wt_write_operation_id :: string
  wt_read_operation_id :: string
  wt_id_path_name :: string
  wt_privileged :: bool

definition target_info :: "string \<Rightarrow> string \<Rightarrow> string \<Rightarrow> bool \<Rightarrow> write_target_info" where
  "target_info w r i p = \<lparr>wt_write_operation_id = w, wt_read_operation_id = r, wt_id_path_name = i,
     wt_privileged = p\<rparr>"

fun write_target :: "wan_object \<Rightarrow> write_verb \<Rightarrow> write_target_info" where
  "write_target ObjNetwork VerbCreate =
     target_info ''createOrgNetwork'' ''getOrgNetwork'' ''network_id'' False"
| "write_target ObjNetwork VerbUpdate =
     target_info ''updateOrgNetwork'' ''getOrgNetwork'' ''network_id'' False"
| "write_target ObjService VerbCreate =
     target_info ''createOrgService'' ''getOrgService'' ''service_id'' False"
| "write_target ObjService VerbUpdate =
     target_info ''updateOrgService'' ''getOrgService'' ''service_id'' False"
| "write_target ObjServicePolicy VerbCreate =
     target_info ''createOrgServicePolicy'' ''getOrgServicePolicy'' ''servicepolicy_id'' False"
| "write_target ObjServicePolicy VerbUpdate =
     target_info ''updateOrgServicePolicy'' ''getOrgServicePolicy'' ''servicepolicy_id'' False"
| "write_target ObjGatewayTemplate VerbCreate =
     target_info ''createOrgGatewayTemplate'' ''getOrgGatewayTemplate'' ''gatewaytemplate_id'' True"
| "write_target ObjGatewayTemplate VerbUpdate =
     target_info ''updateOrgGatewayTemplate'' ''getOrgGatewayTemplate'' ''gatewaytemplate_id'' True"
| "write_target ObjDeviceProfile VerbCreate =
     target_info ''createOrgDeviceProfile'' ''getOrgDeviceProfile'' ''deviceprofile_id'' True"
| "write_target ObjDeviceProfile VerbUpdate =
     target_info ''updateOrgDeviceProfile'' ''getOrgDeviceProfile'' ''deviceprofile_id'' True"

section \<open>Refused patches\<close>

datatype patch_error = MistConfigured | RedactionPlaceholder

definition REDACTION_PLACEHOLDER :: string where
  "REDACTION_PLACEHOLDER = ''[REDACTED]''"

fun reject_redaction_placeholder :: "json \<Rightarrow> patch_error + unit" where
  "reject_redaction_placeholder (JStr v) =
     (if str_contains REDACTION_PLACEHOLDER v then Inl RedactionPlaceholder else Inr ())"
| "reject_redaction_placeholder (JObj m) = try_each (\<lambda>(k, v). reject_redaction_placeholder v) m"
| "reject_redaction_placeholder (JArr vs) = try_each reject_redaction_placeholder vs"
| "reject_redaction_placeholder _ = Inr ()"

fun reject_config_authority :: "json \<Rightarrow> patch_error + unit" where
  "reject_config_authority (JObj m) =
     (if obj_contains_key m ''mist_configured'' then Inl MistConfigured
      else try_each (\<lambda>(k, v). reject_config_authority v) m)"
| "reject_config_authority (JArr vs) = try_each reject_config_authority vs"
| "reject_config_authority _ = Inr ()"

section \<open>Merge patch\<close>

function merge_patch :: "json \<Rightarrow> json \<Rightarrow> json" where
  "merge_patch before patch =
     (case patch of
        JObj patch_map \<Rightarrow>
          JObj (fold (\<lambda>(key, v) merged.
              if is_null v then obj_remove key merged
              else (case obj_get merged key of
                  Some existing \<Rightarrow> obj_insert key (merge_patch existing v) merged
                | None \<Rightarrow> obj_insert key v merged))
            patch_map (case before of JObj before_map \<Rightarrow> before_map | _ \<Rightarrow> []))
      | _ \<Rightarrow> patch)"
  by pat_completeness auto
termination
proof (relation "measure (\<lambda>(before, patch). size patch)")
  fix before patch patch_map p merged key v existing
  assume "patch = JObj patch_map" "p \<in> set patch_map" "(key, v) = p"
  then show "((existing, v), before, patch) \<in> measure (\<lambda>(before, patch). size patch)"
    using size_list_estimation' [of p patch_map "size v" "size_prod (\<lambda>x. 0) size"] by auto
qed simp

declare merge_patch.simps [simp del]

section \<open>The catalogued operations behind the selectors\<close>

definition catalog_paths :: "(string \<times> string \<times> mist_capability \<times> string) list" where
  "catalog_paths = [
     (''countOrgAlarms'', ''GET'', OrdinaryRead,
      ''/api/v1/orgs/{org_id}/alarms/count''),
     (''countOrgBgpStats'', ''GET'', OrdinaryRead,
      ''/api/v1/orgs/{org_id}/stats/bgp_peers/count''),
     (''countOrgPeerPathStats'', ''GET'', OrdinaryRead,
      ''/api/v1/orgs/{org_id}/stats/vpn_peers/count''),
     (''countOrgTunnelsStats'', ''GET'', OrdinaryRead,
      ''/api/v1/orgs/{org_id}/stats/tunnels/count''),
     (''countSiteAlarms'', ''GET'', OrdinaryRead,
      ''/api/v1/sites/{site_id}/alarms/count''),
     (''countSiteApps'', ''GET'', OrdinaryRead,
      ''/api/v1/sites/{site_id}/stats/apps/count''),
     (''countSiteBgpStats'', ''GET'', OrdinaryRead,
      ''/api/v1/sites/{site_id}/stats/bgp_peers/count''),
     (''countSiteServicePathEvents'', ''GET'', OrdinaryRead,
      ''/api/v1/sites/{site_id}/services/events/count''),
     (''createOrgDeviceProfile'', ''POST'', Create,
      ''/api/v1/orgs/{org_id}/deviceprofiles''),
     (''createOrgGatewayTemplate'', ''POST'', Create,
      ''/api/v1/orgs/{org_id}/gatewaytemplates''),
     (''createOrgNetwork'', ''POST'', Create,
      ''/api/v1/orgs/{org_id}/networks''),
     (''createOrgService'', ''POST'', Create,
      ''/api/v1/orgs/{org_id}/services''),
     (''createOrgServicePolicy'', ''POST'', Create,
      ''/api/v1/orgs/{org_id}/servicepolicies''),
     (''getOrgDeviceProfile'', ''GET'', PrivilegedRead,
      ''/api/v1/orgs/{org_id}/deviceprofiles/{deviceprofile_id}''),
     (''getOrgGatewayTemplate'', ''GET'', PrivilegedRead,
      ''/api/v1/orgs/{org_id}/gatewaytemplates/{gatewaytemplate_id}''),
     (''getOrgNetwork'', ''GET'', OrdinaryRead,
      ''/api/v1/orgs/{org_id}/networks/{network_id}''),
     (''getOrgService'', ''GET'', OrdinaryRead,
      ''/api/v1/orgs/{org_id}/services/{service_id}''),
     (''getOrgServicePolicy'', ''GET'', OrdinaryRead,
      ''/api/v1/orgs/{org_id}/servicepolicies/{servicepolicy_id}''),
     (''getSiteGatewayMetrics'', ''GET'', OrdinaryRead,
      ''/api/v1/sites/{site_id}/stats/gateways/metrics''),
     (''getSiteInsightMetricsForGateway'', ''GET'', OrdinaryRead,
      ''/api/v1/sites/{site_id}/insights/gateway/{device_id}/stats''),
     (''getSiteSleImpactSummary'', ''GET'', OrdinaryRead,
      ''/api/v1/sites/{site_id}/sle/{scope}/{scope_id}/metric/{metric}/impact-summary''),
     (''listGatewayApplications'', ''GET'', OrdinaryRead,
      ''/api/v1/const/gateway_applications''),
     (''listOrgDeviceProfiles'', ''GET'', PrivilegedRead,
      ''/api/v1/orgs/{org_id}/deviceprofiles''),
     (''listOrgGatewayTemplates'', ''GET'', PrivilegedRead,
      ''/api/v1/orgs/{org_id}/gatewaytemplates''),
     (''listOrgNetworks'', ''GET'', OrdinaryRead,
      ''/api/v1/orgs/{org_id}/networks''),
     (''listOrgServicePolicies'', ''GET'', OrdinaryRead,
      ''/api/v1/orgs/{org_id}/servicepolicies''),
     (''listOrgServices'', ''GET'', OrdinaryRead,
      ''/api/v1/orgs/{org_id}/services''),
     (''listSiteApps'', ''GET'', OrdinaryRead,
      ''/api/v1/sites/{site_id}/apps''),
     (''listSiteDeviceProfilesDerived'', ''GET'', PrivilegedRead,
      ''/api/v1/sites/{site_id}/deviceprofiles/derived''),
     (''listSiteGatewayTemplatesDerived'', ''GET'', PrivilegedRead,
      ''/api/v1/sites/{site_id}/gatewaytemplates/derived''),
     (''listSiteNetworksDerived'', ''GET'', OrdinaryRead,
      ''/api/v1/sites/{site_id}/networks/derived''),
     (''listSiteServicePoliciesDerived'', ''GET'', OrdinaryRead,
      ''/api/v1/sites/{site_id}/servicepolicies/derived''),
     (''listSiteServicesDerived'', ''GET'', OrdinaryRead,
      ''/api/v1/sites/{site_id}/services/derived''),
     (''listSiteSleImpactedApplications'', ''GET'', OrdinaryRead,
      ''/api/v1/sites/{site_id}/sle/{scope}/{scope_id}/metric/{metric}/impacted-applications''),
     (''listSiteSleImpactedGateways'', ''GET'', OrdinaryRead,
      ''/api/v1/sites/{site_id}/sle/{scope}/{scope_id}/metric/{metric}/impacted-gateways''),
     (''searchOrgAlarms'', ''GET'', OrdinaryRead,
      ''/api/v1/orgs/{org_id}/alarms/search''),
     (''searchOrgBgpStats'', ''GET'', OrdinaryRead,
      ''/api/v1/orgs/{org_id}/stats/bgp_peers/search''),
     (''searchOrgDevices'', ''GET'', OrdinaryRead,
      ''/api/v1/orgs/{org_id}/devices/search''),
     (''searchOrgPeerPathStats'', ''GET'', OrdinaryRead,
      ''/api/v1/orgs/{org_id}/stats/vpn_peers/search''),
     (''searchOrgTunnelsStats'', ''GET'', OrdinaryRead,
      ''/api/v1/orgs/{org_id}/stats/tunnels/search''),
     (''searchSiteAlarms'', ''GET'', OrdinaryRead,
      ''/api/v1/sites/{site_id}/alarms/search''),
     (''searchSiteBgpStats'', ''GET'', OrdinaryRead,
      ''/api/v1/sites/{site_id}/stats/bgp_peers/search''),
     (''searchSiteDevices'', ''GET'', OrdinaryRead,
      ''/api/v1/sites/{site_id}/devices/search''),
     (''searchSiteServicePathEvents'', ''GET'', OrdinaryRead,
      ''/api/v1/sites/{site_id}/services/events/search''),
     (''updateOrgDeviceProfile'', ''PUT'', Update,
      ''/api/v1/orgs/{org_id}/deviceprofiles/{deviceprofile_id}''),
     (''updateOrgGatewayTemplate'', ''PUT'', Update,
      ''/api/v1/orgs/{org_id}/gatewaytemplates/{gatewaytemplate_id}''),
     (''updateOrgNetwork'', ''PUT'', Update,
      ''/api/v1/orgs/{org_id}/networks/{network_id}''),
     (''updateOrgService'', ''PUT'', Update,
      ''/api/v1/orgs/{org_id}/services/{service_id}''),
     (''updateOrgServicePolicy'', ''PUT'', Update,
      ''/api/v1/orgs/{org_id}/servicepolicies/{servicepolicy_id}'')]"

definition catalog_entry :: "string \<Rightarrow> (string \<times> mist_capability \<times> string) option" where
  "catalog_entry i = map_of catalog_paths i"

text \<open>The parameters of a path template, in order.\<close>

definition path_parameters :: "string \<Rightarrow> string list" where
  "path_parameters path = concat (map (\<lambda>s. case strip_prefix ''{'' s of
       None \<Rightarrow> [] | Some r \<Rightarrow> [butlast r]) (split_on (CHR ''/'') path))"

definition resolved_ok :: "resolved \<Rightarrow> bool" where
  "resolved_ok r \<longleftrightarrow> (case catalog_entry (res_operation_id r) of
     Some (m, c, p) \<Rightarrow> m = ''GET'' \<and> path_parameters p = res_path_names r
   | None \<Rightarrow> False)"

lemma wan_edges_ok: "resolved_ok (wan_edges s)"
  by (induct s; code_simp)

lemma wan_edge_stats_ok: "resolved_ok (wan_edge_stats d)"
  by (induct d; code_simp)

lemma tunnels_ok: "resolved_ok (tunnels m)"
  by (induct m; code_simp)

lemma peer_paths_ok: "resolved_ok (peer_paths m)"
  by (induct m; code_simp)

lemma bgp_peers_ok: "resolved_ok (bgp_peers s m)"
  by (induct s; induct m; code_simp)

lemma alarms_ok: "resolved_ok (alarms s m)"
  by (induct s; induct m; code_simp)

lemma service_path_events_ok: "resolved_ok (service_path_events m)"
  by (induct m; code_simp)

lemma sle_impact_ok: "resolved_ok (sle_impact i)"
  by (induct i; code_simp)

lemma applications_ok: "resolved_ok (applications a m)"
  by (induct a; induct m; code_simp)

lemma list_config_ok: "resolved_ok (list_config x s)"
  by (induct x; induct s; code_simp)

lemma get_config_ok: "resolved_ok (get_config x)"
  by (induct x; code_simp)

lemmas selectors_ok = wan_edges_ok wan_edge_stats_ok tunnels_ok peer_paths_ok bgp_peers_ok alarms_ok
  service_path_events_ok sle_impact_ok applications_ok list_config_ok get_config_ok

definition write_target_ok :: "wan_object \<Rightarrow> write_verb \<Rightarrow> bool" where
  "write_target_ok x v \<longleftrightarrow>
     (let t = write_target x v in
      wt_read_operation_id t = res_operation_id (get_config x) \<and>
      wt_id_path_name t = object_id_name x \<and>
      (case (catalog_entry (wt_write_operation_id t), catalog_entry (wt_read_operation_id t)) of
         (Some (wm, wc, wp), Some (rm, rc, rp)) \<Rightarrow>
           rm = ''GET'' \<and> path_parameters rp = [''org_id'', wt_id_path_name t] \<and>
           rc = (if wt_privileged t then PrivilegedRead else OrdinaryRead) \<and>
           (case v of
              VerbCreate \<Rightarrow> wm = ''POST'' \<and> wc = Create \<and> rp = wp @ ''/{'' @ wt_id_path_name t @ ''}''
            | VerbUpdate \<Rightarrow> wm = ''PUT'' \<and> wc = Update \<and> rp = wp)
       | _ \<Rightarrow> False))"

lemma write_targets_ok:
  "list_all (\<lambda>x. list_all (write_target_ok x) [VerbCreate, VerbUpdate])
     [ObjNetwork, ObjService, ObjServicePolicy, ObjGatewayTemplate, ObjDeviceProfile]"
  by code_simp

section \<open>What the refusals look at\<close>

lemma list_all_concat_map:
  "list_all P (concat (map f xs)) \<longleftrightarrow> (\<forall>x \<in> set xs. list_all P (f x))"
  by (auto simp: list_all_iff)

definition no_authority_key :: "json \<Rightarrow> bool" where
  "no_authority_key v \<longleftrightarrow> (case v of JObj m \<Rightarrow> obj_get m ''mist_configured'' = None | _ \<Rightarrow> True)"

definition no_placeholder :: "json \<Rightarrow> bool" where
  "no_placeholder v \<longleftrightarrow> (case v of JStr s \<Rightarrow> \<not> str_contains ''[REDACTED]'' s | _ \<Rightarrow> True)"

lemma reject_config_authority_iff:
  "reject_config_authority v = Inr () \<longleftrightarrow> list_all no_authority_key (json_parts v)"
  by (induction v)
    (auto simp: no_authority_key_def obj_contains_key_def list_all_concat_map list_all_iff)

lemma reject_redaction_iff:
  "reject_redaction_placeholder v = Inr () \<longleftrightarrow> list_all no_placeholder (json_parts v)"
  by (induction v) (auto simp: no_placeholder_def REDACTION_PLACEHOLDER_def list_all_concat_map list_all_iff)

section \<open>What merging does to one member\<close>

definition merge_step :: "string \<times> json \<Rightarrow> jmap \<Rightarrow> jmap" where
  "merge_step p merged =
     (if is_null (snd p) then obj_remove (fst p) merged
      else (case obj_get merged (fst p) of
          Some existing \<Rightarrow> obj_insert (fst p) (merge_patch existing (snd p)) merged
        | None \<Rightarrow> obj_insert (fst p) (snd p) merged))"

definition object_map :: "json \<Rightarrow> jmap" where
  "object_map v = (case v of JObj m \<Rightarrow> m | _ \<Rightarrow> [])"

lemma merge_patch_JObj:
  "merge_patch before (JObj pm) = JObj (fold merge_step pm (object_map before))"
  by (subst merge_patch.simps) (simp add: merge_step_def [abs_def] object_map_def case_prod_unfold)

lemma is_null_iff: "is_null v \<longleftrightarrow> v = JNull"
  by (cases v) simp_all

lemma merge_patch_other: "\<not> is_object patch \<Longrightarrow> merge_patch before patch = patch"
  by (subst merge_patch.simps) (cases patch; simp)

definition merged_member :: "json option \<Rightarrow> json option \<Rightarrow> json option" where
  "merged_member before patch =
     (case patch of
        None \<Rightarrow> before
      | Some v \<Rightarrow> if is_null v then None
          else (case before of Some existing \<Rightarrow> Some (merge_patch existing v) | None \<Rightarrow> Some v))"

lemma merge_step_get:
  assumes "obj_wf m"
  shows "obj_wf (merge_step p m) \<and>
    obj_get (merge_step p m) k =
      (if k = fst p then merged_member (obj_get m k) (Some (snd p)) else obj_get m k)"
  using assms by (auto simp: merge_step_def merged_member_def obj.wf_ins obj.wf_rem obj_lookup
      split: option.splits)

lemma merge_fold_get:
  "obj_wf pm \<Longrightarrow> obj_wf m \<Longrightarrow>
     obj_wf (fold merge_step pm m) \<and>
     obj_get (fold merge_step pm m) k = merged_member (obj_get m k) (obj_get pm k)"
proof (induction pm arbitrary: m)
  case Nil
  then show ?case by (simp add: merged_member_def obj_get_def)
next
  case (Cons p pm)
  have wf: "obj_wf pm" "obj_get pm (fst p) = None"
    using Cons.prems(1) by (auto simp: obj_wf_def obj_get_def map_of_eq_None_iff)
  have step: "obj_wf (merge_step p m)" using merge_step_get [OF Cons.prems(2)] by blast
  have "obj_get (p # pm) k = (if k = fst p then Some (snd p) else obj_get pm k)"
    by (cases p) (simp add: obj_get_def)
  with Cons.IH [OF wf(1) step] merge_step_get [OF Cons.prems(2), of p k] wf(2) show ?case
    by (auto simp: merged_member_def)
qed

section \<open>RFC 7386\<close>

text \<open>The \<open>MergePatch\<close> of the RFC; a name that the target does not define is merged into null.\<close>

function rfc_merge :: "json \<Rightarrow> json \<Rightarrow> json" where
  "rfc_merge target patch =
     (case patch of
        JObj pm \<Rightarrow>
          JObj (fold (\<lambda>(k, v) m.
              if is_null v then obj_remove k m
              else obj_insert k (rfc_merge (case obj_get m k of Some w \<Rightarrow> w | None \<Rightarrow> JNull) v) m)
            pm (case target of JObj m \<Rightarrow> m | _ \<Rightarrow> []))
      | _ \<Rightarrow> patch)"
  by pat_completeness auto
termination
proof (relation "measure (\<lambda>(target, patch). size patch)")
  fix target patch pm p m k v
  assume "patch = JObj pm" "p \<in> set pm" "(k, v) = p"
  then show "((case obj_get m k of None \<Rightarrow> JNull | Some w \<Rightarrow> w, v), target, patch) \<in> measure (\<lambda>(target, patch). size patch)"
    using size_list_estimation' [of p pm "size v" "size_prod (\<lambda>x. 0) size"] by auto
qed simp

declare rfc_merge.simps [simp del]

text \<open>The nulls of a patch name members that the object has, or are at the level of one that it has: a member
  that is new has no null among its own members.\<close>

fun null_free :: "json \<Rightarrow> bool" where
  "null_free (JObj m) = list_all (\<lambda>(k, v). \<not> is_null v \<and> null_free v) m"
| "null_free _ = True"

function nulls_delete :: "json \<Rightarrow> json \<Rightarrow> bool" where
  "nulls_delete before patch =
     (case patch of
        JObj pm \<Rightarrow> list_all (\<lambda>(k, v). is_null v \<or>
          (case obj_get (object_map before) k of Some w \<Rightarrow> nulls_delete w v | None \<Rightarrow> null_free v)) pm
      | _ \<Rightarrow> True)"
  by pat_completeness auto
termination
proof (relation "measure (\<lambda>(before, patch). size patch)")
  fix before patch pm p k v w
  assume "patch = JObj pm" "p \<in> set pm" "(k, v) = p"
  then show "((w, v), before, patch) \<in> measure (\<lambda>(before, patch). size patch)"
    using size_list_estimation' [of p pm "size v" "size_prod (\<lambda>x. 0) size"] by auto
qed simp

declare nulls_delete.simps [simp del]

definition rfc_step :: "string \<times> json \<Rightarrow> jmap \<Rightarrow> jmap" where
  "rfc_step p m =
     (if is_null (snd p) then obj_remove (fst p) m
      else obj_insert (fst p) (rfc_merge (case obj_get m (fst p) of Some w \<Rightarrow> w | None \<Rightarrow> JNull) (snd p)) m)"

lemma rfc_merge_JObj: "rfc_merge target (JObj pm) = JObj (fold rfc_step pm (object_map target))"
  by (subst rfc_merge.simps) (simp add: rfc_step_def [abs_def] object_map_def case_prod_unfold)

lemma rfc_merge_other: "\<not> is_object patch \<Longrightarrow> rfc_merge target patch = patch"
  by (subst rfc_merge.simps) (cases patch; simp)

lemma obj_insert_new: "obj_get m k = None \<Longrightarrow> obj_insert k v m = m @ [(k, v)]"
  by (induction k v m rule: obj_insert.induct) (auto simp: obj_get_def split: if_splits)

lemma rfc_merge_new: "null_free v \<Longrightarrow> json_wf v \<Longrightarrow> rfc_merge JNull v = v"
proof (induction v)
  case (JObj m)
  have "fold rfc_step qs ms = ms @ qs"
    if "set qs \<subseteq> set m" "distinct (map fst (ms @ qs))" for qs ms
    using that
  proof (induction qs arbitrary: ms)
    case (Cons q qs)
    obtain k v where q: "q = (k, v)" by fastforce
    then have mem: "(k, v) \<in> set m" using Cons.prems by simp
    then have "\<not> is_null v" "null_free v" "json_wf v" using JObj.prems by (auto simp: list_all_iff)
    moreover have "obj_get ms k = None" using Cons.prems(2) q by (auto simp: obj_get_def map_of_eq_None_iff)
    ultimately have "rfc_step q ms = ms @ [q]"
      using JObj.IH [OF mem, of v] q by (simp add: rfc_step_def obj_insert_new)
    with Cons.IH [of "ms @ [q]"] Cons.prems show ?case by simp
  qed simp
  from this [of m "[]"] JObj.prems show ?case by (simp add: rfc_merge_JObj object_map_def obj_wf_def)
qed (simp_all add: rfc_merge_other)

section \<open>Properties\<close>

text \<open>Every configuration write is paired with the read of the same object: the read's path
  is the update's path, and the create's path with the object's identifier appended; its
  identifier is the path parameter the tools fill in; writes use POST and PUT with the actions
  create and update; and the read is privileged exactly where the target says so.\<close>

theorem write_read_pairing:
  "let t = write_target x v in
   \<exists>wm wc wp rc rp.
     catalog_entry (wt_write_operation_id t) = Some (wm, wc, wp) \<and>
     catalog_entry (wt_read_operation_id t) = Some (''GET'', rc, rp) \<and>
     wt_read_operation_id t = res_operation_id (get_config x) \<and>
     wt_id_path_name t = object_id_name x \<and> path_parameters rp = [''org_id'', wt_id_path_name t] \<and>
     rc = (if wt_privileged t then PrivilegedRead else OrdinaryRead) \<and>
     (case v of
        VerbCreate \<Rightarrow> wm = ''POST'' \<and> wc = Create \<and> rp = wp @ ''/{'' @ wt_id_path_name t @ ''}''
      | VerbUpdate \<Rightarrow> wm = ''PUT'' \<and> wc = Update \<and> rp = wp)"
proof -
  have "write_target_ok x v" using write_targets_ok by (cases x; cases v) simp_all
  then show ?thesis unfolding write_target_ok_def Let_def
    by (auto split: option.splits prod.splits)
qed

text \<open>Every selector of the collapsed tools resolves to a catalogued GET operation, and the
  names it fills into the path are exactly the parameters of that operation's path, in order.\<close>

theorem selectors_match_catalog:
  "list_all (\<lambda>r. case catalog_entry (res_operation_id r) of
       Some (m, c, p) \<Rightarrow> m = ''GET'' \<and> path_parameters p = res_path_names r
     | None \<Rightarrow> False)
   (wan_edges s # wan_edge_stats d # tunnels m # peer_paths m # bgp_peers s m # alarms s m
     # service_path_events m # sle_impact i # applications a m # list_config x s # [get_config x])"
  using selectors_ok by (simp only: list.pred_inject resolved_ok_def)

text \<open>C30: A patch passes both refusals exactly when no object at any depth has the member
  \<open>mist_configured\<close> and no string value at any depth contains the redaction placeholder.\<close>

theorem patch_refusals_exact:
  "(reject_config_authority v = Inr () \<and> reject_redaction_placeholder v = Inr ()) \<longleftrightarrow>
     list_all (\<lambda>w. case w of
         JObj m \<Rightarrow> obj_get m ''mist_configured'' = None
       | JStr s \<Rightarrow> \<not> str_contains ''[REDACTED]'' s
       | _ \<Rightarrow> True) (json_parts v)"
  unfolding reject_config_authority_iff reject_redaction_iff list_all_iff
  by (auto simp: no_authority_key_def no_placeholder_def split: json.splits)

text \<open>C29: The merge of a patch is the one of RFC 7386, member order included: a null deletes the member it
  names, a member that the object has is merged recursively, a new one is added, every other member is kept, and
  arrays and other values replace what was there. It is so for every patch that sets no member to null inside
  a member the object does not have yet.\<close>

theorem merge_patch_rfc7386:
  assumes "json_wf before" and "json_wf patch" and "nulls_delete before patch"
  shows "merge_patch before patch = rfc_merge before patch"
  using assms
proof (induction patch arbitrary: before)
  case (JObj pm)
  let ?bm = "object_map before"
  have bm: "obj_wf ?bm" "list_all (\<lambda>(k, v). json_wf v) ?bm"
    using JObj.prems(1) by (cases before; simp add: object_map_def obj_wf_def)+
  have "fold merge_step qs m = fold rfc_step qs m"
    if "set qs \<subseteq> set pm" "distinct (map fst qs)" "obj_wf m"
      "\<And>k. k \<in> fst ` set qs \<Longrightarrow> obj_get m k = obj_get ?bm k" for qs m
    using that
  proof (induction qs arbitrary: m)
    case (Cons q qs)
    obtain k v where q: "q = (k, v)" by fastforce
    then have mem: "(k, v) \<in> set pm" and get: "obj_get m k = obj_get ?bm k" using Cons.prems by simp_all
    have v: "json_wf v" "is_null v \<or> (case obj_get ?bm k of Some w \<Rightarrow> nulls_delete w v | None \<Rightarrow> null_free v)"
      using JObj.prems(2,3) mem unfolding nulls_delete.simps [of before "JObj pm"] by (auto simp: list_all_iff)
    have "merge_step q m = rfc_step q m"
    proof (cases "obj_get ?bm k")
      case None
      with v get show ?thesis by (auto simp: merge_step_def rfc_step_def q rfc_merge_new)
    next
      case (Some w)
      then have "json_wf w" using bm(2) map_of_SomeD [of ?bm k w] by (auto simp: obj_get_def list_all_iff)
      with v get Some JObj.IH [OF mem, of v w] show ?thesis by (auto simp: merge_step_def rfc_step_def q)
    qed
    moreover have "obj_wf (merge_step q m)" using merge_step_get [OF Cons.prems(3)] by blast
    moreover have "obj_get (merge_step q m) l = obj_get ?bm l" if l: "l \<in> fst ` set qs" for l
    proof -
      have "l \<noteq> fst q" using Cons.prems(2) l by (cases "l = fst q") simp_all
      moreover have "obj_get m l = obj_get ?bm l" using l by (intro Cons.prems(4)) simp
      ultimately show ?thesis using merge_step_get [OF Cons.prems(3), of q l] by simp
    qed
    ultimately show ?case using Cons.IH [of "merge_step q m"] Cons.prems(1,2) by simp
  qed simp
  from this [of pm ?bm] JObj.prems(2) bm(1) show ?case
    by (simp add: merge_patch_JObj rfc_merge_JObj obj_wf_def)
qed (simp_all add: rfc_merge_other merge_patch_other)

theorem merge_patch_rfc7386_witness:
  "merge_patch (JObj [(''name'', JStr ''b''), (''note'', JStr ''x''), (''dhcpd'', JObj [(''lease'', JNull), (''on'', JBool True)])])
     (JObj [(''note'', JNull), (''dhcpd'', JObj [(''lease'', JNull)]), (''vlan'', JStr ''7'')]) =
   JObj [(''name'', JStr ''b''), (''dhcpd'', JObj [(''on'', JBool True)]), (''vlan'', JStr ''7'')]"
proof -
  let ?b = "JObj [(''name'', JStr ''b''), (''note'', JStr ''x''), (''dhcpd'', JObj [(''lease'', JNull), (''on'', JBool True)])]"
  let ?p = "JObj [(''note'', JNull), (''dhcpd'', JObj [(''lease'', JNull)]), (''vlan'', JStr ''7'')]"
  have "nulls_delete ?b ?p"
    by (simp add: nulls_delete.simps object_map_def obj_get_def)
  moreover have "json_wf ?b" "json_wf ?p" by (simp_all add: obj_wf_def)
  ultimately have "merge_patch ?b ?p = rfc_merge ?b ?p" by (intro merge_patch_rfc7386)
  then show ?thesis
    by (simp add: rfc_merge_JObj rfc_step_def object_map_def obj_get_def swap_last_def rfc_merge_other)
qed

text \<open>A patch that passes the refusal leaves the object's own \<open>mist_configured\<close> as it was.\<close>

theorem merge_keeps_authority:
  assumes "reject_config_authority patch = Inr ()" and "json_wf patch" and "json_wf before"
    and "is_object before" and "is_object patch"
  shows "jget (merge_patch before patch) ''mist_configured'' = jget before ''mist_configured''"
proof -
  obtain bm pm where eq: "before = JObj bm" "patch = JObj pm" using assms(4,5) by (auto simp: is_object_iff)
  have "obj_get pm ''mist_configured'' = None"
    using assms(1) eq by (auto simp: obj_contains_key_def split: if_splits)
  with merge_fold_get [of pm bm "''mist_configured''"] assms(2,3) eq show ?thesis
    by (simp add: merge_patch_JObj object_map_def jget_def merged_member_def)
qed

theorem merge_keeps_authority_witness:
  "jget (merge_patch (JObj [(''mist_configured'', JBool True)]) (JObj [(''name'', JStr ''x'')]))
     ''mist_configured'' = Some (JBool True)"
  using merge_keeps_authority [of "JObj [(''name'', JStr ''x'')]" "JObj [(''mist_configured'', JBool True)]"]
  by (simp add: obj_contains_key_def obj_get_def obj_wf_def jget_def)

text \<open>Below the top level it does not: a patch that sets the enclosing object to null passes
  the refusal and removes the \<open>mist_configured\<close> inside.\<close>

theorem authority_removed_by_null:
  "reject_config_authority (JObj [(''switch'', JNull)]) = Inr () \<and>
   merge_patch (JObj [(''switch'', JObj [(''mist_configured'', JBool True)])]) (JObj [(''switch'', JNull)]) =
     JObj []"
  by (simp add: merge_patch_JObj merge_step_def object_map_def obj_contains_key_def obj_get_def swap_last_def)

text \<open>A null inside a member that the object does not have yet is kept as a null, not deleted,
  so applying the same patch a second time changes the object again.\<close>

theorem merge_patch_not_idempotent:
  "let patch = JObj [(''dhcpd'', JObj [(''lease'', JNull)])]; once = merge_patch (JObj []) patch in
   once = JObj [(''dhcpd'', JObj [(''lease'', JNull)])] \<and> merge_patch once patch = JObj [(''dhcpd'', JObj [])]"
  by (simp add: merge_patch_JObj merge_step_def object_map_def obj_get_def swap_last_def)

end
