(* ===== verification/Tools.thy ===== *)
theory Tools
  imports Dispatch Wan
begin

text \<open>
  \<open>server/mod.rs\<close>, the read tools: one definition per tool handler, in the order of the file,
  each with the operation, the path parameters and the capability it dispatches with; the three
  tools that answer from local data; and the listing of tools for a caller.

  The argument of a tool with plain arguments is their serialization, as \<open>named_maps\<close>
  takes it. Where a handler reads a field that picks the operation (the scope, the mode, the
  source, the object) the arguments are a record: the fields it reads and the others serialized.
\<close>

section \<open>The server of a call\<close>

record ('v, 'c) server =
  sv_env :: "'v dispatch_env"
  sv_exec :: "'c \<Rightarrow> mist_request \<Rightarrow> call_priority \<Rightarrow> 'c \<times> (mist_error + mist_response)"
  sv_budget :: "'c \<Rightarrow> 'c \<times> budget_status option"
  sv_decode_cursor :: "string \<Rightarrow> mist_cursor option"
  sv_handler :: handler

type_synonym ('v, 'c, 'a) tool = "('v, 'c) server \<Rightarrow> caller_ctx option \<Rightarrow> 'c \<Rightarrow> 'a \<Rightarrow> 'c dispatch_outcome"

abbreviation named ::
  "('v, 'c) server \<Rightarrow> caller_ctx option \<Rightarrow> 'c \<Rightarrow> string \<Rightarrow> string \<Rightarrow> json \<Rightarrow> string list
    \<Rightarrow> mist_capability \<Rightarrow> 'c dispatch_outcome" where
  "named sv caller client tool i args names cap \<equiv>
     dispatch_named (sv_env sv) (sv_exec sv) (sv_budget sv) (sv_handler sv) caller client tool i args names cap"

abbreviation catalogued ::
  "('v, 'c) server \<Rightarrow> caller_ctx option \<Rightarrow> 'c \<Rightarrow> catalog_read \<Rightarrow> 'c dispatch_outcome" where
  "catalogued sv caller client rd \<equiv>
     dispatch_catalogued_read (sv_env sv) (sv_exec sv) (sv_budget sv) (sv_handler sv) caller client rd"

abbreviation invoked ::
  "('v, 'c) server \<Rightarrow> caller_ctx option \<Rightarrow> 'c \<Rightarrow> string \<Rightarrow> invoke_args \<Rightarrow> mist_capability
    \<Rightarrow> 'c dispatch_outcome" where
  "invoked sv caller client tool args cap \<equiv>
     invoke_dispatcher (sv_env sv) (sv_decode_cursor sv) (sv_exec sv) (sv_budget sv) (sv_handler sv)
       caller client tool args cap"

section \<open>Arguments that pick an operation\<close>

fun opt_json :: "string option \<Rightarrow> json" where
  "opt_json None = JNull"
| "opt_json (Some s) = JStr s"

record scoped_args =
  sc_org_id :: "string option"
  sc_site_id :: "string option"
  sc_mode :: stats_mode
  sc_fields :: jmap

definition scoped_value :: "scoped_args \<Rightarrow> json" where
  "scoped_value a = JObj ((''org_id'', opt_json (sc_org_id a)) # (''site_id'', opt_json (sc_site_id a)) # sc_fields a)"

record application_args =
  ap_source :: app_source
  ap_site_id :: "string option"
  ap_mode :: stats_mode
  ap_fields :: jmap

definition application_value :: "application_args \<Rightarrow> json" where
  "application_value a = JObj ((''site_id'', opt_json (ap_site_id a)) # ap_fields a)"

record edge_stats_args =
  es_device_id :: "string option"
  es_fields :: jmap

definition edge_stats_value :: "edge_stats_args \<Rightarrow> json" where
  "edge_stats_value a = JObj ((''device_id'', opt_json (es_device_id a)) # es_fields a)"

record config_get_args =
  cg_object :: wan_object
  cg_org_id :: string
  cg_object_id :: string

definition ambiguous :: "'c \<Rightarrow> string \<Rightarrow> 'c dispatch_outcome" where
  "ambiguous client tool = refused client (no_audit tool) CallAmbiguousScope"

text \<open>Gateway templates and device profiles are privileged configuration.\<close>

fun config_capability :: "wan_object \<Rightarrow> mist_capability" where
  "config_capability ObjGatewayTemplate = PrivilegedRead"
| "config_capability ObjDeviceProfile = PrivilegedRead"
| "config_capability _ = OrdinaryRead"

section \<open>The read tools\<close>

definition get_mist_device :: "('v, 'c, json) tool" where
  "get_mist_device sv caller client args =
     named sv caller client ''get_mist_device'' ''getSiteDevice'' args
       [''site_id'', ''device_id''] PrivilegedRead"

definition get_mist_device_stats :: "('v, 'c, json) tool" where
  "get_mist_device_stats sv caller client args =
     named sv caller client ''get_mist_device_stats'' ''getSiteDeviceStats'' args
       [''site_id'', ''device_id''] OrdinaryRead"

definition get_mist_insight :: "('v, 'c, json) tool" where
  "get_mist_insight sv caller client args =
     named sv caller client ''get_mist_insight'' ''getSiteInsightMetrics'' args
       [''site_id''] OrdinaryRead"

definition get_mist_org :: "('v, 'c, string) tool" where
  "get_mist_org sv caller client org_id =
     catalogued sv caller client
       \<lparr>cr_tool = ''get_mist_org'', cr_operation_id = ''getOrg'',
        cr_path = bt_from [(''org_id'', org_id)], cr_query = bt_empty, cr_cursor = None,
        cr_capability = OrdinaryRead, cr_redact_output = True\<rparr>"

definition get_mist_rrm :: "('v, 'c, json) tool" where
  "get_mist_rrm sv caller client args =
     named sv caller client ''get_mist_rrm'' ''getSiteCurrentChannelPlanning'' args
       [''site_id''] OrdinaryRead"

definition get_mist_self :: "('v, 'c, json) tool" where
  "get_mist_self sv caller client args =
     named sv caller client ''get_mist_self'' ''getSelf'' args
       [] PrivilegedRead"

definition get_mist_site :: "('v, 'c, json) tool" where
  "get_mist_site sv caller client args =
     named sv caller client ''get_mist_site'' ''getSiteInfo'' args
       [''site_id''] OrdinaryRead"

definition get_mist_sle :: "('v, 'c, json) tool" where
  "get_mist_sle sv caller client args =
     named sv caller client ''get_mist_sle'' ''getSiteSleSummaryTrend'' args
       [''site_id'', ''scope'', ''scope_id'', ''metric''] OrdinaryRead"

definition get_mist_sle_impact :: "('v, 'c, sle_impact_view \<times> json) tool" where
  "get_mist_sle_impact sv caller client = (\<lambda>(impact, args).
     let resolved = sle_impact impact in
     named sv caller client ''get_mist_sle_impact'' (res_operation_id resolved) args
       (res_path_names resolved) OrdinaryRead)"

definition get_mist_wan_config :: "('v, 'c, config_get_args) tool" where
  "get_mist_wan_config sv caller client a =
     catalogued sv caller client
       \<lparr>cr_tool = ''get_mist_wan_config'', cr_operation_id = res_operation_id (get_config (cg_object a)),
        cr_path = bt_from [(''org_id'', cg_org_id a), (object_id_name (cg_object a), cg_object_id a)],
        cr_query = bt_empty, cr_cursor = None, cr_capability = config_capability (cg_object a),
        cr_redact_output = True\<rparr>"

definition get_mist_wan_edge_stats :: "('v, 'c, edge_stats_args) tool" where
  "get_mist_wan_edge_stats sv caller client a =
     (let resolved = wan_edge_stats (es_device_id a \<noteq> None) in
       named sv caller client ''get_mist_wan_edge_stats'' (res_operation_id resolved) (edge_stats_value a)
         (res_path_names resolved) OrdinaryRead)"

definition invoke_mist_privileged_read :: "('v, 'c, invoke_args) tool" where
  "invoke_mist_privileged_read sv caller client args =
     invoked sv caller client ''invoke_mist_privileged_read'' args PrivilegedRead"

definition invoke_mist_read :: "('v, 'c, invoke_args) tool" where
  "invoke_mist_read sv caller client args =
     invoked sv caller client ''invoke_mist_read'' args OrdinaryRead"

definition list_mist_applications :: "('v, 'c, application_args) tool" where
  "list_mist_applications sv caller client a =
     (if ap_source a = AppSite \<and> ap_site_id a = None then ambiguous client ''list_mist_applications''
      else
       (let resolved = applications (ap_source a) (ap_mode a) in
         named sv caller client ''list_mist_applications'' (res_operation_id resolved) (application_value a)
           (res_path_names resolved) OrdinaryRead))"

definition list_mist_rogues :: "('v, 'c, json) tool" where
  "list_mist_rogues sv caller client args =
     named sv caller client ''list_mist_rogues'' ''listSiteRogueAPs'' args
       [''site_id''] OrdinaryRead"

definition list_mist_sites :: "('v, 'c, json) tool" where
  "list_mist_sites sv caller client args =
     named sv caller client ''list_mist_sites'' ''listOrgSites'' args
       [''org_id''] OrdinaryRead"

definition list_mist_sle_metrics :: "('v, 'c, json) tool" where
  "list_mist_sle_metrics sv caller client args =
     named sv caller client ''list_mist_sle_metrics'' ''listSiteSlesMetrics'' args
       [''site_id'', ''scope'', ''scope_id''] OrdinaryRead"

definition list_mist_upgrades :: "('v, 'c, json) tool" where
  "list_mist_upgrades sv caller client args =
     named sv caller client ''list_mist_upgrades'' ''listSiteDeviceUpgrades'' args
       [''site_id''] OrdinaryRead"

definition list_mist_wan_config :: "('v, 'c, wan_object \<times> scoped_args) tool" where
  "list_mist_wan_config sv caller client = (\<lambda>(object, a).
     (case resolve_scope (sc_org_id a) (sc_site_id a) of
        Inl _ \<Rightarrow> ambiguous client ''list_mist_wan_config''
      | Inr scope \<Rightarrow>
         (let resolved = list_config object scope in
           named sv caller client ''list_mist_wan_config'' (res_operation_id resolved) (scoped_value a)
             (res_path_names resolved) (config_capability object))))"

text \<open>The serialized arguments of \<open>list_mist_wan_edges\<close> always end with the device type.\<close>

definition edge_list_value :: "scoped_args \<Rightarrow> json" where
  "edge_list_value a = JObj ((''org_id'', opt_json (sc_org_id a)) # (''site_id'', opt_json (sc_site_id a)) #
     sc_fields a @ [(''type'', JStr ''gateway'')])"

definition list_mist_wan_edges :: "('v, 'c, scoped_args) tool" where
  "list_mist_wan_edges sv caller client a =
     (case resolve_scope (sc_org_id a) (sc_site_id a) of
        Inl _ \<Rightarrow> ambiguous client ''list_mist_wan_edges''
      | Inr scope \<Rightarrow>
         (let resolved = wan_edges scope in
           named sv caller client ''list_mist_wan_edges'' (res_operation_id resolved) (edge_list_value a)
             (res_path_names resolved) OrdinaryRead))"

definition list_mist_wlans :: "('v, 'c, json) tool" where
  "list_mist_wlans sv caller client args =
     named sv caller client ''list_mist_wlans'' ''listSiteWlans'' args
       [''site_id''] PrivilegedRead"

definition search_mist_alarms :: "('v, 'c, scoped_args) tool" where
  "search_mist_alarms sv caller client a =
     (case resolve_scope (sc_org_id a) (sc_site_id a) of
        Inl _ \<Rightarrow> ambiguous client ''search_mist_alarms''
      | Inr scope \<Rightarrow>
         (let resolved = alarms scope (sc_mode a) in
           named sv caller client ''search_mist_alarms'' (res_operation_id resolved) (scoped_value a)
             (res_path_names resolved) OrdinaryRead))"

definition list_mist_alarm_definitions :: "('v, 'c, json) tool" where
  "list_mist_alarm_definitions sv caller client args =
     named sv caller client ''list_mist_alarm_definitions'' ''listAlarmDefinitions'' args
       [] OrdinaryRead"

definition search_mist_audit_logs :: "('v, 'c, json) tool" where
  "search_mist_audit_logs sv caller client args =
     named sv caller client ''search_mist_audit_logs'' ''listOrgAuditLogs'' args
       [''org_id''] PrivilegedRead"

definition search_mist_bgp_peers :: "('v, 'c, scoped_args) tool" where
  "search_mist_bgp_peers sv caller client a =
     (case resolve_scope (sc_org_id a) (sc_site_id a) of
        Inl _ \<Rightarrow> ambiguous client ''search_mist_bgp_peers''
      | Inr scope \<Rightarrow>
         (let resolved = bgp_peers scope (sc_mode a) in
           named sv caller client ''search_mist_bgp_peers'' (res_operation_id resolved) (scoped_value a)
             (res_path_names resolved) OrdinaryRead))"

definition search_mist_clients :: "('v, 'c, json) tool" where
  "search_mist_clients sv caller client args =
     named sv caller client ''search_mist_clients'' ''searchSiteWirelessClients'' args
       [''site_id''] OrdinaryRead"

definition search_mist_events :: "('v, 'c, json) tool" where
  "search_mist_events sv caller client args =
     named sv caller client ''search_mist_events'' ''searchSiteSystemEvents'' args
       [''site_id''] OrdinaryRead"

definition search_mist_inventory :: "('v, 'c, json) tool" where
  "search_mist_inventory sv caller client args =
     named sv caller client ''search_mist_inventory'' ''searchOrgInventory'' args
       [''org_id''] OrdinaryRead"

definition search_mist_peer_paths :: "('v, 'c, stats_mode \<times> json) tool" where
  "search_mist_peer_paths sv caller client = (\<lambda>(mode, args).
     let resolved = peer_paths mode in
     named sv caller client ''search_mist_peer_paths'' (res_operation_id resolved) args
       (res_path_names resolved) OrdinaryRead)"

definition search_mist_service_path_events :: "('v, 'c, stats_mode \<times> json) tool" where
  "search_mist_service_path_events sv caller client = (\<lambda>(mode, args).
     let resolved = service_path_events mode in
     named sv caller client ''search_mist_service_path_events'' (res_operation_id resolved) args
       (res_path_names resolved) OrdinaryRead)"

definition search_mist_tunnels :: "('v, 'c, stats_mode \<times> json) tool" where
  "search_mist_tunnels sv caller client = (\<lambda>(mode, args).
     let resolved = tunnels mode in
     named sv caller client ''search_mist_tunnels'' (res_operation_id resolved) args
       (res_path_names resolved) OrdinaryRead)"

definition troubleshoot_mist :: "('v, 'c, json) tool" where
  "troubleshoot_mist sv caller client args =
     named sv caller client ''troubleshoot_mist'' ''listSiteTroubleshootCalls'' args
       [''site_id''] OrdinaryRead"

section \<open>The registry\<close>

definition KNOWN_TOOLS :: "string list" where
  "KNOWN_TOOLS = [''apply_mist_change_set'', ''approve_mist_change_set'', ''get_mist_change_set'',
     ''get_mist_device'', ''get_mist_device_stats'', ''get_mist_insight'',
     ''get_mist_operation_schema'', ''get_mist_org'', ''get_mist_rrm'', ''get_mist_self'',
     ''get_mist_site'', ''get_mist_sle'', ''get_mist_sle_impact'', ''get_mist_wan_config'',
     ''get_mist_wan_edge_stats'', ''invoke_mist_privileged_read'', ''invoke_mist_read'',
     ''list_mist_alarm_definitions'', ''list_mist_applications'', ''list_mist_orgs'',
     ''list_mist_rogues'', ''list_mist_sites'', ''list_mist_sle_metrics'', ''list_mist_upgrades'',
     ''list_mist_wan_config'', ''list_mist_wan_edges'', ''list_mist_wlans'', ''plan_mist_change'',
     ''search_mist_alarms'', ''search_mist_audit_logs'', ''search_mist_bgp_peers'',
     ''search_mist_clients'', ''search_mist_events'', ''search_mist_inventory'',
     ''search_mist_operations'', ''search_mist_peer_paths'', ''search_mist_service_path_events'',
     ''search_mist_tunnels'', ''troubleshoot_mist'']"

end
