(* ===== verification/LocalTools.thy ===== *)
theory LocalTools
  imports Tools
begin

text \<open>
  \<open>server/mod.rs\<close>, the tools that answer without calling the client: the search over the
  catalog, the schema of one operation, the configured organizations, and the listing of tools
  for a caller. A result is the value before \<open>tool_result\<close> redacts and serializes it.
\<close>

section \<open>Searching the catalog\<close>

datatype search_capability = SearchOrdinaryRead | SearchPrivilegedRead
datatype search_target = SearchNone | SearchOrg | SearchSite | SearchMsp

fun capability_from :: "search_capability \<Rightarrow> mist_capability" where
  "capability_from SearchOrdinaryRead = OrdinaryRead"
| "capability_from SearchPrivilegedRead = PrivilegedRead"

fun selector_from :: "search_target \<Rightarrow> target_selector" where
  "selector_from SearchNone = SelNone"
| "selector_from SearchOrg = SelOrg"
| "selector_from SearchSite = SelSite"
| "selector_from SearchMsp = SelMsp"

record search_operations_args =
  so_query :: string
  so_capability :: "search_capability option"
  so_target :: "search_target option"
  so_limit :: "u8 option"

record operation_summary =
  os_operation_id :: string
  os_summary :: string
  os_method :: string
  os_path :: string
  os_capability :: mist_capability
  os_target_selectors :: "target_selector list"
  os_pagination :: pagination_mode

definition summary_of :: "mist_operation \<Rightarrow> operation_summary" where
  "summary_of p = \<lparr>os_operation_id = operation_id p, os_summary = op_summary p, os_method = op_method p,
     os_path = op_path p, os_capability = capability p, os_target_selectors = target_selectors p,
     os_pagination = pagination p\<rparr>"

definition local_audit :: "string \<Rightarrow> audit_outcome \<Rightarrow> audit_record" where
  "local_audit tool out = \<lparr>au_tool = tool, au_kind = ''read_local'', au_targets = [], au_outcome = out\<rparr>"

text \<open>The text filter: the lower-case query occurs in one of the fields.\<close>

definition matches_query :: "string \<Rightarrow> mist_operation \<Rightarrow> bool" where
  "matches_query query p \<longleftrightarrow>
     str_contains query (to_ascii_lowercase (operation_id p))
     \<or> str_contains query (to_ascii_lowercase (op_summary p))
     \<or> str_contains query (to_ascii_lowercase (op_path p))
     \<or> list_ex (\<lambda>tag. str_contains query (to_ascii_lowercase tag)) (openapi_tags p)"

definition search_mist_operations ::
  "('v, 'c) server \<Rightarrow> caller_ctx option \<Rightarrow> search_operations_args
    \<Rightarrow> audit_record \<times> (mist_call_error + operation_summary list)" where
  "search_mist_operations sv caller args =
     (let tool = ''search_mist_operations'' in
      case de_authorize_call (sv_env sv) caller tool None RESTRICTED_TOOLS of
        Inl e \<Rightarrow> (local_audit tool (AuditDeny ''scope''), Inl (CallAuthorization e))
      | Inr _ \<Rightarrow>
          (let limit = (case so_limit args of None \<Rightarrow> 20 | Some n \<Rightarrow> unat n) in
           if so_query args = [] \<or> length (so_query args) > 128 \<or> \<not> (1 \<le> limit \<and> limit \<le> 50)
           then (local_audit tool AuditFail, Inl CallInvalidSearch)
           else
             (let query = to_ascii_lowercase (so_query args);
                  cap = map_option capability_from (so_capability args);
                  target = map_option selector_from (so_target args);
                  found = filter (matches_query query)
                    (filter (\<lambda>p. case target of None \<Rightarrow> True | Some t \<Rightarrow> t \<in> set (target_selectors p))
                    (filter (\<lambda>p. case cap of None \<Rightarrow> True | Some c \<Rightarrow> capability p = c)
                    (filter (\<lambda>p. SelMsp \<notin> set (target_selectors p))
                    (filter (\<lambda>p. capability p = OrdinaryRead \<or> capability p = PrivilegedRead)
                      (cat_operations (h_catalog (sv_handler sv)))))))
              in (local_audit tool AuditResult, Inr (map summary_of (take limit found))))))"

section \<open>The schema of an operation, the organizations, the list of tools\<close>

definition get_mist_operation_schema ::
  "('v, 'c) server \<Rightarrow> caller_ctx option \<Rightarrow> string \<Rightarrow> audit_record \<times> (mist_call_error + mist_operation)" where
  "get_mist_operation_schema sv caller i =
     (let tool = ''get_mist_operation_schema''; c = h_catalog (sv_handler sv) in
      case de_authorize_call (sv_env sv) caller tool None RESTRICTED_TOOLS of
        Inl e \<Rightarrow> (local_audit tool (AuditDeny ''scope''), Inl (CallAuthorization e))
      | Inr _ \<Rightarrow>
          (case catalog_operation c i of
             Some p \<Rightarrow> (local_audit tool AuditResult, Inr p)
           | None \<Rightarrow> (local_audit tool (AuditDeny ''catalog''), Inl (CallUnknownOperation (''operation '' @ i
               @ '' is not in the catalog (pinned Mist OpenAPI snapshot: revision ''
               @ take 8 (src_revision (cat_source c)) @ '')'')))))"

record local_org =
  lo_id :: string
  lo_target :: string

definition list_mist_orgs ::
  "('v, 'c) server \<Rightarrow> caller_ctx option \<Rightarrow> audit_record \<times> (mist_call_error + local_org list)" where
  "list_mist_orgs sv caller =
     (let tool = ''list_mist_orgs'' in
      case de_authorize_call (sv_env sv) caller tool None RESTRICTED_TOOLS of
        Inl e \<Rightarrow> (local_audit tool (AuditDeny ''scope''), Inl (CallAuthorization e))
      | Inr _ \<Rightarrow> (local_audit tool AuditResult, Inr (concat (map (\<lambda>i.
          let target = ''org/'' @ i in
          if (case caller of None \<Rightarrow> True | Some ctx \<Rightarrow> ca_devices ctx target)
          then [\<lparr>lo_id = i, lo_target = target\<rparr>] else [])
          (h_allowed_orgs (sv_handler sv))))))"

text \<open>
  \<open>list_tools\<close>; \<open>filter_tools_for_scope\<close> is outside the repository. \<open>listed_tools\<close> adds the
  cache fields for a client that negotiated the protocol that has them.
\<close>

record tool_list =
  tl_tools :: "string list"
  tl_ttl_ms :: "nat option"
  tl_private :: "bool option"

definition listed_tools :: "string list \<Rightarrow> bool \<Rightarrow> tool_list" where
  "listed_tools tools cache_hints =
     (if cache_hints then \<lparr>tl_tools = tools, tl_ttl_ms = Some 0, tl_private = Some True\<rparr>
      else \<lparr>tl_tools = tools, tl_ttl_ms = None, tl_private = None\<rparr>)"

definition list_tools ::
  "(string list \<Rightarrow> caller_ctx \<Rightarrow> string list \<Rightarrow> string list) \<Rightarrow> string list \<Rightarrow> caller_ctx option
    \<Rightarrow> bool \<Rightarrow> tool_list" where
  "list_tools filter_tools_for_scope tools caller cache_hints =
     (let visible = (case caller of
          Some ctx \<Rightarrow> filter_tools_for_scope tools ctx RESTRICTED_TOOLS
        | None \<Rightarrow> filter (\<lambda>tool. tool \<notin> set RESTRICTED_TOOLS) tools)
      in listed_tools visible cache_hints)"

section \<open>Properties\<close>

text \<open>An operation that the search may return.\<close>

definition searchable :: "search_operations_args \<Rightarrow> mist_operation \<Rightarrow> bool" where
  "searchable args p \<longleftrightarrow>
     capability p \<in> {OrdinaryRead, PrivilegedRead} \<and> SelMsp \<notin> set (target_selectors p) \<and>
     (case so_capability args of None \<Rightarrow> True | Some c \<Rightarrow> capability p = capability_from c) \<and>
     (case so_target args of None \<Rightarrow> True | Some t \<Rightarrow> selector_from t \<in> set (target_selectors p)) \<and>
     matches_query (to_ascii_lowercase (so_query args)) p"

text \<open>A search within its bounds returns, in catalog order, the first \<open>limit\<close> operations that
  match the query and the filters and are reads a tool could make (never an MSP one); with no
  limit given it is 20.\<close>

theorem search_returns_invocable_reads:
  assumes "de_authorize_call (sv_env sv) caller ''search_mist_operations'' None RESTRICTED_TOOLS = Inr ()"
    and "so_query args \<noteq> []" and "length (so_query args) \<le> 128"
    and "limit = (case so_limit args of None \<Rightarrow> 20 | Some n \<Rightarrow> unat n)" and "1 \<le> limit" and "limit \<le> 50"
  shows "snd (search_mist_operations sv caller args) =
    Inr (map summary_of (take limit (filter (searchable args) (cat_operations (h_catalog (sv_handler sv))))))"
  using assms
  by (simp add: search_mist_operations_def Let_def)
    (intro arg_cong [of _ _ "map summary_of"] arg_cong [of _ _ "take _"] filter_cong,
      auto simp: searchable_def split: option.splits)

text \<open>The organizations listed for a caller are exactly the configured ones whose subject the
  caller's tool scope allows.\<close>

theorem orgs_listed_exact:
  assumes "snd (list_mist_orgs sv caller) = Inr listed"
  shows "lo_id ` set listed = {i \<in> set (h_allowed_orgs (sv_handler sv)).
    case caller of None \<Rightarrow> True | Some ctx \<Rightarrow> ca_devices ctx (target_subject (MistTarget KindOrg i))}"
  using assms by (auto simp: list_mist_orgs_def Let_def image_iff split: sum.splits option.splits if_splits)

definition example_server :: "(nat, unit) server" where
  "example_server = \<lparr>sv_env = example_dispatch_env, sv_exec = example_exec, sv_budget = \<lambda>c. (c, None),
     sv_decode_cursor = \<lambda>_. None, sv_handler = example_handler\<rparr>"

definition example_search :: search_operations_args where
  "example_search = \<lparr>so_query = ''SELF'', so_capability = None, so_target = None, so_limit = Some 5\<rparr>"

theorem search_returns_invocable_reads_witness:
  "snd (search_mist_operations example_server None example_search) = Inr [summary_of get_self]"
proof -
  have found: "filter (searchable example_search) (cat_operations example_catalog) = [get_self]"
    by code_simp
  show ?thesis
    using search_returns_invocable_reads [of example_server None example_search 5]
    by (simp add: example_server_def example_dispatch_env_def example_handler_def found)
      (simp add: example_search_def)
qed

theorem orgs_listed_exact_witness:
  "snd (list_mist_orgs example_server None) = Inr [\<lparr>lo_id = example_org, lo_target = ''org/'' @ example_org\<rparr>] \<and>
   lo_id ` set [\<lparr>lo_id = example_org, lo_target = ''org/'' @ example_org\<rparr>] = {example_org}"
proof
  show listed: "snd (list_mist_orgs example_server None) = Inr [\<lparr>lo_id = example_org, lo_target = ''org/'' @ example_org\<rparr>]"
    by (simp add: list_mist_orgs_def example_server_def example_dispatch_env_def example_handler_def
        example_org_def Let_def)
  show "lo_id ` set [\<lparr>lo_id = example_org, lo_target = ''org/'' @ example_org\<rparr>] = {example_org}"
    using orgs_listed_exact [OF listed] by (simp add: example_server_def example_handler_def example_org_def)
qed

end
