(* ===== verification/Arguments.thy ===== *)
theory Arguments
  imports LocalTools
begin

text \<open>
  \<open>server/mod.rs\<close>, the arguments of the tools: the structs of the macro \<open>read_args!\<close> and the
  others, as tables of fields, with serde's derived reading of a JSON object into such a struct
  (\<open>deny_unknown_fields\<close>) and its derived writing of the fields that are not skipped. A struct
  that was read is the list of its fields in their order, an absent option as null.
\<close>

section \<open>Enumerations of the arguments\<close>

text \<open>The variants by their serde names, each with the value its \<open>From\<close> makes of it.\<close>

definition stats_mode_arg :: "(string \<times> stats_mode) list" where
  "stats_mode_arg = [(''records'', ModeRecords), (''count'', ModeCount)]"

definition sle_impact_arg :: "(string \<times> sle_impact_view) list" where
  "sle_impact_arg = [(''gateways'', ImpactGateways), (''applications'', ImpactApplications),
     (''summary'', ImpactSummary)]"

definition app_source_arg :: "(string \<times> app_source) list" where
  "app_source_arg = [(''site'', AppSite), (''catalog'', AppCatalog)]"

definition wan_object_arg :: "(string \<times> wan_object) list" where
  "wan_object_arg = [(''network'', ObjNetwork), (''service'', ObjService),
     (''servicepolicy'', ObjServicePolicy), (''gatewaytemplate'', ObjGatewayTemplate),
     (''deviceprofile'', ObjDeviceProfile)]"

definition search_capability_arg :: "(string \<times> search_capability) list" where
  "search_capability_arg = [(''ordinary_read'', SearchOrdinaryRead), (''privileged_read'', SearchPrivilegedRead)]"

definition search_target_arg :: "(string \<times> search_target) list" where
  "search_target_arg = [(''none'', SearchNone), (''org'', SearchOrg), (''site'', SearchSite), (''msp'', SearchMsp)]"

definition write_verb_arg :: "(string \<times> write_verb) list" where
  "write_verb_arg = [(''create'', VerbCreate), (''update'', VerbUpdate)]"

section \<open>Reading and writing a struct\<close>

datatype arg_type =
    ReqString
  | OptString
  | OptU8
  | OptU32
  | OptU64
  | OptBool
  | ReqEnum "string list"
  | OptEnum "string list"
  | DefEnum "string list" string
  | ReqValue
  | OptStrings
  | OptValues

text \<open>A unit variant is its name, or an object with the name as its one member, of value null.\<close>

fun unit_variant :: "json \<Rightarrow> string option" where
  "unit_variant (JStr s) = Some s"
| "unit_variant (JObj [(s, JNull)]) = Some s"
| "unit_variant _ = None"

definition variant_value :: "string list \<Rightarrow> json \<Rightarrow> json option" where
  "variant_value names v =
     Option.bind (unit_variant v) (\<lambda>s. if s \<in> set names then Some (JStr s) else None)"

definition unsigned_value :: "nat \<Rightarrow> json \<Rightarrow> json option" where
  "unsigned_value bound v =
     (case as_u64 v of None \<Rightarrow> None | Some n \<Rightarrow> if unat n < bound then Some v else None)"

text \<open>The value of an optional field that is neither absent nor null.\<close>

fun given_value :: "arg_type \<Rightarrow> json \<Rightarrow> json option" where
  "given_value OptString (JStr s) = Some (JStr s)"
| "given_value OptU8 v = unsigned_value (2 ^ 8) v"
| "given_value OptU32 v = unsigned_value (2 ^ 32) v"
| "given_value OptU64 v = unsigned_value (2 ^ 64) v"
| "given_value OptBool (JBool b) = Some (JBool b)"
| "given_value (OptEnum names) v = variant_value names v"
| "given_value OptStrings (JObj m) = (if list_all (\<lambda>(_, v). as_str v \<noteq> None) m then Some (JObj m) else None)"
| "given_value OptValues (JObj m) = Some (JObj m)"
| "given_value _ _ = None"

fun field_value :: "arg_type \<Rightarrow> json option \<Rightarrow> json option" where
  "field_value ReqString (Some (JStr s)) = Some (JStr s)"
| "field_value ReqString _ = None"
| "field_value (ReqEnum names) (Some v) = variant_value names v"
| "field_value (ReqEnum names) None = None"
| "field_value (DefEnum names d) None = Some (JStr d)"
| "field_value (DefEnum names d) (Some v) = variant_value names v"
| "field_value ReqValue x = x"
| "field_value _ None = Some JNull"
| "field_value t (Some v) = (if is_null v then Some JNull else given_value t v)"

text \<open>A field: its name, its type, and whether it is serialized.\<close>

type_synonym args_spec = "(string \<times> arg_type \<times> bool) list"

abbreviation sent :: "string \<Rightarrow> arg_type \<Rightarrow> string \<times> arg_type \<times> bool" where
  "sent n t \<equiv> (n, t, True)"

abbreviation kept :: "string \<Rightarrow> arg_type \<Rightarrow> string \<times> arg_type \<times> bool" where
  "kept n t \<equiv> (n, t, False)"

definition decode_args :: "args_spec \<Rightarrow> jmap \<Rightarrow> jmap option" where
  "decode_args spec m =
     (if list_all (\<lambda>(k, _). k \<in> fst ` set spec) m
      then those (map (\<lambda>(n, t, _). map_option (Pair n) (field_value t (obj_get m n))) spec)
      else None)"

definition sent_names :: "args_spec \<Rightarrow> string list" where
  "sent_names spec = [n. (n, _, s) \<leftarrow> spec, s]"

definition serialize_args :: "args_spec \<Rightarrow> jmap \<Rightarrow> jmap" where
  "serialize_args spec a = filter (\<lambda>(n, _). n \<in> set (sent_names spec)) a"

text \<open>The fields that a handler reads.\<close>

definition opt_str :: "jmap \<Rightarrow> string \<Rightarrow> string option" where
  "opt_str a n = Option.bind (obj_get a n) as_str"

definition enum_arg :: "(string \<times> 'e) list \<Rightarrow> jmap \<Rightarrow> string \<Rightarrow> 'e option" where
  "enum_arg variants a n = Option.bind (opt_str a n) (map_of variants)"

section \<open>The structs\<close>

definition EmptyArgs :: args_spec where
  "EmptyArgs = []"

definition GetOrgArgs :: args_spec where
  "GetOrgArgs = [sent ''org_id'' ReqString]"

definition InvokeReadArgs :: args_spec where
  "InvokeReadArgs = [kept ''operation_id'' ReqString, kept ''path'' OptStrings, kept ''query'' OptValues,
     kept ''cursor'' OptString]"

definition SearchOperationsArgs :: args_spec where
  "SearchOperationsArgs = [kept ''query'' ReqString,
     kept ''capability'' (OptEnum (map fst search_capability_arg)),
     kept ''target'' (OptEnum (map fst search_target_arg)), kept ''limit'' OptU8]"

definition OperationSchemaArgs :: args_spec where
  "OperationSchemaArgs = [kept ''operation_id'' ReqString]"

definition OrgPageArgs :: args_spec where
  "OrgPageArgs = [sent ''org_id'' ReqString, sent ''limit'' OptU32, sent ''page'' OptU32]"

definition SiteArgs :: args_spec where
  "SiteArgs = [sent ''site_id'' ReqString]"

definition InventoryArgs :: args_spec where
  "InventoryArgs = [sent ''org_id'' ReqString, sent ''limit'' OptU32, sent ''mac'' OptString,
     sent ''magic'' OptString, sent ''master'' OptString, sent ''model'' OptString,
     sent ''name'' OptString, sent ''search_after'' OptString, sent ''serial'' OptString,
     sent ''site_id'' OptString, sent ''sku'' OptString, sent ''sort'' OptString,
     sent ''status'' OptString, sent ''text'' OptString, sent ''type'' OptString,
     sent ''version'' OptString]"

definition SiteDeviceArgs :: args_spec where
  "SiteDeviceArgs = [sent ''site_id'' ReqString, sent ''device_id'' ReqString]"

definition DeviceStatsArgs :: args_spec where
  "DeviceStatsArgs = [sent ''site_id'' ReqString, sent ''device_id'' ReqString, sent ''fields'' OptString]"

definition SitePageArgs :: args_spec where
  "SitePageArgs = [sent ''site_id'' ReqString, sent ''limit'' OptU32, sent ''page'' OptU32]"

definition ClientSearchArgs :: args_spec where
  "ClientSearchArgs = [sent ''site_id'' ReqString, sent ''ap'' OptString, sent ''band'' OptString,
     sent ''device'' OptString, sent ''duration'' OptString, sent ''end'' OptString,
     sent ''hostname'' OptString, sent ''ip'' OptString, sent ''limit'' OptU32,
     sent ''mac'' OptString, sent ''model'' OptString, sent ''os'' OptString,
     sent ''psk_id'' OptString, sent ''psk_name'' OptString, sent ''search_after'' OptString,
     sent ''sort'' OptString, sent ''ssid'' OptString, sent ''start'' OptString,
     sent ''text'' OptString, sent ''username'' OptString, sent ''vlan'' OptString]"

definition EventSearchArgs :: args_spec where
  "EventSearchArgs = [sent ''site_id'' ReqString, sent ''duration'' OptString, sent ''end'' OptString,
     sent ''limit'' OptU32, sent ''search_after'' OptString, sent ''sort'' OptString,
     sent ''start'' OptString, sent ''type'' OptString]"

definition AlarmSearchArgs :: args_spec where
  "AlarmSearchArgs = [sent ''org_id'' OptString, sent ''site_id'' OptString,
     kept ''mode'' (DefEnum (map fst stats_mode_arg) ''records''),
     sent ''ack_admin_name'' OptString, sent ''acked'' OptBool, sent ''duration'' OptString,
     sent ''end'' OptString, sent ''group'' OptString, sent ''limit'' OptU32,
     sent ''search_after'' OptString, sent ''severity'' OptString, sent ''sort'' OptString,
     sent ''start'' OptString, sent ''type'' OptString]"

definition AuditSearchArgs :: args_spec where
  "AuditSearchArgs = [sent ''org_id'' ReqString, sent ''admin_name'' OptString, sent ''duration'' OptString,
     sent ''end'' OptString, sent ''limit'' OptU32, sent ''message'' OptString,
     sent ''page'' OptU32, sent ''site_id'' OptString, sent ''sort'' OptString,
     sent ''start'' OptString]"

definition SleMetricsArgs :: args_spec where
  "SleMetricsArgs = [sent ''site_id'' ReqString, sent ''scope'' ReqString, sent ''scope_id'' ReqString]"

definition SleArgs :: args_spec where
  "SleArgs = [sent ''site_id'' ReqString, sent ''scope'' ReqString, sent ''scope_id'' ReqString,
     sent ''metric'' ReqString, sent ''duration'' OptString, sent ''end'' OptString,
     sent ''start'' OptString]"

definition SleImpactArgs :: args_spec where
  "SleImpactArgs = [sent ''site_id'' ReqString, sent ''scope'' ReqString, sent ''scope_id'' ReqString,
     sent ''metric'' ReqString, kept ''impact'' (ReqEnum (map fst sle_impact_arg)),
     sent ''start'' OptU64, sent ''end'' OptU64, sent ''duration'' OptString]"

definition InsightArgs :: args_spec where
  "InsightArgs = [sent ''site_id'' ReqString, sent ''metrics'' ReqString, sent ''duration'' OptString,
     sent ''end'' OptString, sent ''interval'' OptString, sent ''limit'' OptU32,
     sent ''page'' OptU32, sent ''start'' OptString]"

definition TroubleshootArgs :: args_spec where
  "TroubleshootArgs = [sent ''site_id'' ReqString, sent ''ap'' OptString, sent ''app'' OptString,
     sent ''duration'' OptString, sent ''end'' OptString, sent ''limit'' OptU32,
     sent ''mac'' OptString, sent ''meeting_id'' OptString, sent ''page'' OptU32,
     sent ''start'' OptString, sent ''wired'' OptBool]"

definition RogueArgs :: args_spec where
  "RogueArgs = [sent ''site_id'' ReqString, sent ''duration'' OptString, sent ''end'' OptString,
     sent ''interval'' OptString, sent ''limit'' OptU32, sent ''start'' OptString,
     sent ''type'' OptString]"

definition UpgradeArgs :: args_spec where
  "UpgradeArgs = [sent ''site_id'' ReqString, sent ''status'' OptString]"

definition WanEdgeListArgs :: args_spec where
  "WanEdgeListArgs = [sent ''org_id'' OptString, sent ''site_id'' OptString, sent ''limit'' OptU32,
     sent ''search_after'' OptString, sent ''hostname'' OptString, sent ''mac'' OptString,
     sent ''model'' OptString, sent ''version'' OptString]"

definition WanEdgeStatsArgs :: args_spec where
  "WanEdgeStatsArgs = [sent ''site_id'' ReqString, sent ''device_id'' OptString, sent ''metrics'' OptString,
     sent ''start'' OptU64, sent ''end'' OptU64, sent ''duration'' OptString]"

definition TunnelSearchArgs :: args_spec where
  "TunnelSearchArgs = [sent ''org_id'' ReqString, kept ''mode'' (DefEnum (map fst stats_mode_arg) ''records''),
     sent ''limit'' OptU32, sent ''search_after'' OptString, sent ''start'' OptU64,
     sent ''end'' OptU64, sent ''duration'' OptString, sent ''distinct'' OptString]"

definition PeerPathSearchArgs :: args_spec where
  "PeerPathSearchArgs = [sent ''org_id'' ReqString, kept ''mode'' (DefEnum (map fst stats_mode_arg) ''records''),
     sent ''limit'' OptU32, sent ''search_after'' OptString, sent ''start'' OptU64,
     sent ''end'' OptU64, sent ''duration'' OptString, sent ''distinct'' OptString]"

definition BgpPeerSearchArgs :: args_spec where
  "BgpPeerSearchArgs = [sent ''org_id'' OptString, sent ''site_id'' OptString,
     kept ''mode'' (DefEnum (map fst stats_mode_arg) ''records''), sent ''limit'' OptU32,
     sent ''search_after'' OptString, sent ''start'' OptU64, sent ''end'' OptU64,
     sent ''duration'' OptString, sent ''distinct'' OptString]"

definition ServicePathEventArgs :: args_spec where
  "ServicePathEventArgs = [sent ''site_id'' ReqString, kept ''mode'' (DefEnum (map fst stats_mode_arg) ''records''),
     sent ''limit'' OptU32, sent ''search_after'' OptString, sent ''start'' OptU64,
     sent ''end'' OptU64, sent ''duration'' OptString, sent ''distinct'' OptString]"

definition ApplicationListArgs :: args_spec where
  "ApplicationListArgs = [kept ''source'' (ReqEnum (map fst app_source_arg)), sent ''site_id'' OptString,
     kept ''mode'' (DefEnum (map fst stats_mode_arg) ''records''), sent ''limit'' OptU32,
     sent ''distinct'' OptString]"

definition WanConfigListArgs :: args_spec where
  "WanConfigListArgs = [kept ''object'' (ReqEnum (map fst wan_object_arg)), sent ''org_id'' OptString,
     sent ''site_id'' OptString, sent ''limit'' OptU32, sent ''page'' OptU32]"

definition WanConfigGetArgs :: args_spec where
  "WanConfigGetArgs = [kept ''object'' (ReqEnum (map fst wan_object_arg)), sent ''org_id'' ReqString,
     kept ''object_id'' ReqString]"

definition PlanChangeArgs :: args_spec where
  "PlanChangeArgs = [kept ''object'' (ReqEnum (map fst wan_object_arg)),
     kept ''verb'' (ReqEnum (map fst write_verb_arg)), sent ''org_id'' ReqString,
     kept ''object_id'' OptString, kept ''patch'' ReqValue]"

definition GetChangeSetArgs :: args_spec where
  "GetChangeSetArgs = [sent ''change_set_id'' ReqString, kept ''object'' (ReqEnum (map fst wan_object_arg)),
     kept ''object_id'' OptString]"

definition ApproveChangeSetArgs :: args_spec where
  "ApproveChangeSetArgs = [sent ''change_set_id'' ReqString, sent ''plan_digest'' ReqString,
     kept ''object'' (ReqEnum (map fst wan_object_arg)), kept ''object_id'' OptString]"

definition ApplyChangeSetArgs :: args_spec where
  "ApplyChangeSetArgs = [sent ''change_set_id'' ReqString, kept ''object'' (ReqEnum (map fst wan_object_arg)),
     kept ''object_id'' OptString]"

section \<open>What reading and writing keep\<close>

fun is_enum :: "arg_type \<Rightarrow> bool" where
  "is_enum (ReqEnum _) = True"
| "is_enum (OptEnum _) = True"
| "is_enum (DefEnum _ _) = True"
| "is_enum _ = False"

text \<open>A struct whose enumerations are not serialized, and whose fields have different names.\<close>

definition args_spec_ok :: "args_spec \<Rightarrow> bool" where
  "args_spec_ok spec \<longleftrightarrow> distinct (map fst spec) \<and> list_all (\<lambda>(_, t, s). s \<longrightarrow> \<not> is_enum t) spec"

lemma unsigned_value_same: "unsigned_value n v = Some w \<Longrightarrow> w = v"
  by (auto simp: unsigned_value_def split: option.splits if_splits)

lemma given_value_same: "given_value t v = Some w \<Longrightarrow> \<not> is_enum t \<Longrightarrow> w = v"
  by (cases "(t, v)" rule: given_value.cases) (auto dest: unsigned_value_same split: if_splits)

text \<open>A field that is no enumeration is read as it was given, and as null when it was not.\<close>

lemma field_value_given:
  assumes "field_value t x = Some v" and "\<not> is_enum t"
  shows "x = Some v \<or> x = None \<and> v = JNull"
  using assms
proof (cases "(t, x)" rule: field_value.cases)
qed (auto dest: given_value_same unsigned_value_same simp: is_null_iff split: if_splits)

lemma those_Some_iff: "those xs = Some ys \<longleftrightarrow> xs = map Some ys"
proof (induction xs arbitrary: ys)
  case (Cons x xs)
  then show ?case by (cases x; cases ys) (auto split: option.splits)
qed auto

lemma decode_args_Some:
  assumes "decode_args spec m = Some a"
  shows "map fst a = map fst spec" and "fst ` set m \<subseteq> fst ` set spec"
    and "(k, v) \<in> set a \<Longrightarrow> \<exists>t s. (k, t, s) \<in> set spec \<and> field_value t (obj_get m k) = Some v"
    and "(k, t, s) \<in> set spec \<Longrightarrow> \<exists>v. (k, v) \<in> set a \<and> field_value t (obj_get m k) = Some v"
proof -
  have all: "map (\<lambda>(n, t, _). map_option (Pair n) (field_value t (obj_get m n))) spec = map Some a"
    and known: "list_all (\<lambda>(k, _). k \<in> fst ` set spec) m"
    using assms by (simp_all add: decode_args_def those_Some_iff split: if_splits)
  show "fst ` set m \<subseteq> fst ` set spec" using known by (auto simp: list_all_iff)
  from all show "map fst a = map fst spec"
  proof (induction a arbitrary: spec)
    case (Cons x a)
    then show ?case by (cases spec) (auto split: prod.splits)
  qed simp
  show "\<exists>t s. (k, t, s) \<in> set spec \<and> field_value t (obj_get m k) = Some v" if "(k, v) \<in> set a"
  proof -
    from that have "Some (k, v) \<in> set (map Some a)" by simp
    then show ?thesis unfolding all [symmetric]
      by (auto simp: eq_commute [of "Some (k, v)"]) blast
  qed
  show "\<exists>v. (k, v) \<in> set a \<and> field_value t (obj_get m k) = Some v" if "(k, t, s) \<in> set spec"
  proof -
    from that have "map_option (Pair k) (field_value t (obj_get m k)) \<in> set (map Some a)"
      unfolding all [symmetric] by force
    then show ?thesis by auto
  qed
qed

lemma decoded_get:
  assumes "decode_args spec m = Some a" and "args_spec_ok spec" and "(k, t, s) \<in> set spec"
  shows "obj_get a k = field_value t (obj_get m k)"
proof -
  obtain v where "(k, v) \<in> set a" "field_value t (obj_get m k) = Some v"
    using decode_args_Some(4) [OF assms(1,3)] by blast
  moreover have "distinct (map fst a)"
    using decode_args_Some(1) [OF assms(1)] assms(2) by (simp add: args_spec_ok_def)
  ultimately show ?thesis by (simp add: obj_get_def)
qed

end
