(* ===== verification/Router.thy ===== *)
theory Router
  imports Tools
begin

text \<open>
  The tool router over the handlers of \<open>Tools\<close>, what every read tool may ask of the client,
  and the tools of \<open>server/mod.rs\<close> that answer from local data: \<open>search_mist_operations\<close>,
  \<open>get_mist_operation_schema\<close>, \<open>list_mist_orgs\<close> and the listing of tools for a caller.
\<close>

section \<open>The router\<close>

text \<open>A call that the tool router hands to a handler, by the tool's name.\<close>

datatype tool_call =
    GetMistDevice json
  | GetMistDeviceStats json
  | GetMistInsight json
  | GetMistOrg string
  | GetMistRrm json
  | GetMistSelf json
  | GetMistSite json
  | GetMistSle json
  | GetMistSleImpact "sle_impact_view \<times> json"
  | GetMistWanConfig config_get_args
  | GetMistWanEdgeStats edge_stats_args
  | InvokeMistPrivilegedRead invoke_args
  | InvokeMistRead invoke_args
  | ListMistApplications application_args
  | ListMistRogues json
  | ListMistSites json
  | ListMistSleMetrics json
  | ListMistUpgrades json
  | ListMistWanConfig "wan_object \<times> scoped_args"
  | ListMistWanEdges scoped_args
  | ListMistWlans json
  | SearchMistAlarms scoped_args
  | ListMistAlarmDefinitions json
  | SearchMistAuditLogs json
  | SearchMistBgpPeers scoped_args
  | SearchMistClients json
  | SearchMistEvents json
  | SearchMistInventory json
  | SearchMistPeerPaths "stats_mode \<times> json"
  | SearchMistServicePathEvents "stats_mode \<times> json"
  | SearchMistTunnels "stats_mode \<times> json"
  | TroubleshootMist json

fun tool_of :: "tool_call \<Rightarrow> string" where
  "tool_of (GetMistDevice _) = ''get_mist_device''"
| "tool_of (GetMistDeviceStats _) = ''get_mist_device_stats''"
| "tool_of (GetMistInsight _) = ''get_mist_insight''"
| "tool_of (GetMistOrg _) = ''get_mist_org''"
| "tool_of (GetMistRrm _) = ''get_mist_rrm''"
| "tool_of (GetMistSelf _) = ''get_mist_self''"
| "tool_of (GetMistSite _) = ''get_mist_site''"
| "tool_of (GetMistSle _) = ''get_mist_sle''"
| "tool_of (GetMistSleImpact _) = ''get_mist_sle_impact''"
| "tool_of (GetMistWanConfig _) = ''get_mist_wan_config''"
| "tool_of (GetMistWanEdgeStats _) = ''get_mist_wan_edge_stats''"
| "tool_of (InvokeMistPrivilegedRead _) = ''invoke_mist_privileged_read''"
| "tool_of (InvokeMistRead _) = ''invoke_mist_read''"
| "tool_of (ListMistApplications _) = ''list_mist_applications''"
| "tool_of (ListMistRogues _) = ''list_mist_rogues''"
| "tool_of (ListMistSites _) = ''list_mist_sites''"
| "tool_of (ListMistSleMetrics _) = ''list_mist_sle_metrics''"
| "tool_of (ListMistUpgrades _) = ''list_mist_upgrades''"
| "tool_of (ListMistWanConfig _) = ''list_mist_wan_config''"
| "tool_of (ListMistWanEdges _) = ''list_mist_wan_edges''"
| "tool_of (ListMistWlans _) = ''list_mist_wlans''"
| "tool_of (SearchMistAlarms _) = ''search_mist_alarms''"
| "tool_of (ListMistAlarmDefinitions _) = ''list_mist_alarm_definitions''"
| "tool_of (SearchMistAuditLogs _) = ''search_mist_audit_logs''"
| "tool_of (SearchMistBgpPeers _) = ''search_mist_bgp_peers''"
| "tool_of (SearchMistClients _) = ''search_mist_clients''"
| "tool_of (SearchMistEvents _) = ''search_mist_events''"
| "tool_of (SearchMistInventory _) = ''search_mist_inventory''"
| "tool_of (SearchMistPeerPaths _) = ''search_mist_peer_paths''"
| "tool_of (SearchMistServicePathEvents _) = ''search_mist_service_path_events''"
| "tool_of (SearchMistTunnels _) = ''search_mist_tunnels''"
| "tool_of (TroubleshootMist _) = ''troubleshoot_mist''"

fun call_tool :: "('v, 'c, tool_call) tool" where
  "call_tool sv caller client (GetMistDevice a) = get_mist_device sv caller client a"
| "call_tool sv caller client (GetMistDeviceStats a) = get_mist_device_stats sv caller client a"
| "call_tool sv caller client (GetMistInsight a) = get_mist_insight sv caller client a"
| "call_tool sv caller client (GetMistOrg a) = get_mist_org sv caller client a"
| "call_tool sv caller client (GetMistRrm a) = get_mist_rrm sv caller client a"
| "call_tool sv caller client (GetMistSelf a) = get_mist_self sv caller client a"
| "call_tool sv caller client (GetMistSite a) = get_mist_site sv caller client a"
| "call_tool sv caller client (GetMistSle a) = get_mist_sle sv caller client a"
| "call_tool sv caller client (GetMistSleImpact a) = get_mist_sle_impact sv caller client a"
| "call_tool sv caller client (GetMistWanConfig a) = get_mist_wan_config sv caller client a"
| "call_tool sv caller client (GetMistWanEdgeStats a) = get_mist_wan_edge_stats sv caller client a"
| "call_tool sv caller client (InvokeMistPrivilegedRead a) = invoke_mist_privileged_read sv caller client a"
| "call_tool sv caller client (InvokeMistRead a) = invoke_mist_read sv caller client a"
| "call_tool sv caller client (ListMistApplications a) = list_mist_applications sv caller client a"
| "call_tool sv caller client (ListMistRogues a) = list_mist_rogues sv caller client a"
| "call_tool sv caller client (ListMistSites a) = list_mist_sites sv caller client a"
| "call_tool sv caller client (ListMistSleMetrics a) = list_mist_sle_metrics sv caller client a"
| "call_tool sv caller client (ListMistUpgrades a) = list_mist_upgrades sv caller client a"
| "call_tool sv caller client (ListMistWanConfig a) = list_mist_wan_config sv caller client a"
| "call_tool sv caller client (ListMistWanEdges a) = list_mist_wan_edges sv caller client a"
| "call_tool sv caller client (ListMistWlans a) = list_mist_wlans sv caller client a"
| "call_tool sv caller client (SearchMistAlarms a) = search_mist_alarms sv caller client a"
| "call_tool sv caller client (ListMistAlarmDefinitions a) = list_mist_alarm_definitions sv caller client a"
| "call_tool sv caller client (SearchMistAuditLogs a) = search_mist_audit_logs sv caller client a"
| "call_tool sv caller client (SearchMistBgpPeers a) = search_mist_bgp_peers sv caller client a"
| "call_tool sv caller client (SearchMistClients a) = search_mist_clients sv caller client a"
| "call_tool sv caller client (SearchMistEvents a) = search_mist_events sv caller client a"
| "call_tool sv caller client (SearchMistInventory a) = search_mist_inventory sv caller client a"
| "call_tool sv caller client (SearchMistPeerPaths a) = search_mist_peer_paths sv caller client a"
| "call_tool sv caller client (SearchMistServicePathEvents a) = search_mist_service_path_events sv caller client a"
| "call_tool sv caller client (SearchMistTunnels a) = search_mist_tunnels sv caller client a"
| "call_tool sv caller client (TroubleshootMist a) = troubleshoot_mist sv caller client a"

text \<open>The entries of \<open>docs/mist-api/catalog.json\<close> for the operations that are named here;
  those of the selectors are \<open>catalog_paths\<close>.\<close>

definition read_tool_paths :: "(string \<times> string \<times> mist_capability \<times> string) list" where
  "read_tool_paths = [
     (''getSiteDevice'', ''GET'', PrivilegedRead,
      ''/api/v1/sites/{site_id}/devices/{device_id}''),
     (''getSiteDeviceStats'', ''GET'', OrdinaryRead,
      ''/api/v1/sites/{site_id}/stats/devices/{device_id}''),
     (''getSiteInsightMetrics'', ''GET'', OrdinaryRead,
      ''/api/v1/sites/{site_id}/insights''),
     (''getSiteCurrentChannelPlanning'', ''GET'', OrdinaryRead,
      ''/api/v1/sites/{site_id}/rrm/current''),
     (''getSelf'', ''GET'', PrivilegedRead,
      ''/api/v1/self''),
     (''getSiteInfo'', ''GET'', OrdinaryRead,
      ''/api/v1/sites/{site_id}''),
     (''getSiteSleSummaryTrend'', ''GET'', OrdinaryRead,
      ''/api/v1/sites/{site_id}/sle/{scope}/{scope_id}/metric/{metric}/summary-trend''),
     (''listSiteRogueAPs'', ''GET'', OrdinaryRead,
      ''/api/v1/sites/{site_id}/insights/rogues''),
     (''listOrgSites'', ''GET'', OrdinaryRead,
      ''/api/v1/orgs/{org_id}/sites''),
     (''listSiteSlesMetrics'', ''GET'', OrdinaryRead,
      ''/api/v1/sites/{site_id}/sle/{scope}/{scope_id}/metrics''),
     (''listSiteDeviceUpgrades'', ''GET'', OrdinaryRead,
      ''/api/v1/sites/{site_id}/devices/upgrade''),
     (''listSiteWlans'', ''GET'', PrivilegedRead,
      ''/api/v1/sites/{site_id}/wlans''),
     (''listAlarmDefinitions'', ''GET'', OrdinaryRead,
      ''/api/v1/const/alarm_defs''),
     (''listOrgAuditLogs'', ''GET'', PrivilegedRead,
      ''/api/v1/orgs/{org_id}/logs/search''),
     (''searchSiteWirelessClients'', ''GET'', OrdinaryRead,
      ''/api/v1/sites/{site_id}/clients/search''),
     (''searchSiteSystemEvents'', ''GET'', OrdinaryRead,
      ''/api/v1/sites/{site_id}/events/system/search''),
     (''searchOrgInventory'', ''GET'', OrdinaryRead,
      ''/api/v1/orgs/{org_id}/inventory/search''),
     (''listSiteTroubleshootCalls'', ''GET'', OrdinaryRead,
      ''/api/v1/sites/{site_id}/stats/calls/troubleshoot''),
     (''getOrg'', ''GET'', OrdinaryRead,
      ''/api/v1/orgs/{org_id}'')]"

definition tool_catalog :: "string \<Rightarrow> (string \<times> mist_capability \<times> string) option" where
  "tool_catalog i = map_of (read_tool_paths @ catalog_paths) i"

section \<open>What a read tool may ask of the client\<close>

text \<open>Every call is for a catalogued GET operation of the capability, authorized for the tool.\<close>

definition call_permitted ::
  "('v, 'c) server \<Rightarrow> caller_ctx option \<Rightarrow> string \<Rightarrow> mist_capability \<Rightarrow> mist_request \<Rightarrow> bool" where
  "call_permitted sv caller tool cap r \<longleftrightarrow>
     (\<exists>p target. catalog_operation (h_catalog (sv_handler sv)) (req_operation_id r) = Some p \<and>
        op_method p = ''GET'' \<and> capability p = cap \<and> req_json r = None \<and>
        target_for (target_selectors p) (req_path r) = Inr target \<and>
        de_authorize_call (sv_env sv) caller tool (map_option target_subject target) RESTRICTED_TOOLS = Inr () \<and>
        grant_permits caller (req_operation_id r) cap target)"

lemma catalogued_calls:
  "set (do_calls (catalogued sv caller client rd)) \<subseteq>
     {(r, priority). call_permitted sv caller (cr_tool rd) (cr_capability rd) r \<and>
        req_operation_id r = cr_operation_id rd \<and> req_path r = cr_path rd \<and> req_query r = cr_query rd}"
proof (intro subsetI, clarify)
  fix r priority
  assume "(r, priority) \<in> set (do_calls (catalogued sv caller client rd))"
  then obtain p target where chk: "check_read (sv_env sv) (sv_handler sv) caller rd = Inr (p, target, r)"
    by (auto simp: dispatch_calls split: sum.splits dest: sym)
  show "call_permitted sv caller (cr_tool rd) (cr_capability rd) r \<and>
        req_operation_id r = cr_operation_id rd \<and> req_path r = cr_path rd \<and> req_query r = cr_query rd"
    using check_read_Inr [OF chk] by (auto simp: call_permitted_def check_read_request [OF chk])
qed

lemma named_calls:
  "set (do_calls (named sv caller client tool i (JObj m) names cap)) \<subseteq>
     {(r, priority). call_permitted sv caller tool cap r \<and> req_operation_id r = i \<and>
        req_path r = bt_from (named_arguments names m) \<and> req_query r = bt_from (other_arguments names m)}"
proof (cases "named_maps (JObj m) names")
  case (Inr pq)
  then have "pq = (bt_from (named_arguments names m), bt_from (other_arguments names m))"
    by (simp add: named_maps_loop_eq named_maps_def bt_from_def split: if_splits)
  with Inr show ?thesis
    using catalogued_calls by (fastforce simp: dispatch_named_def)
qed (simp add: dispatch_named_def refused_def)

lemma named_no_object:
  "as_object args = None \<Longrightarrow> do_calls (named sv caller client tool i args names cap) = []"
  by (simp add: dispatch_named_def named_maps_def refused_def)

lemma ambiguous_calls [simp]: "do_calls (ambiguous client tool) = []"
  by (simp add: ambiguous_def refused_def)

text \<open>A call of a tool fits the catalog: the operation is a GET of the capability and the path
  of the request fills only parameters of its path template.\<close>

definition fits :: "mist_capability \<Rightarrow> string \<Rightarrow> string list \<Rightarrow> bool" where
  "fits cap i names \<longleftrightarrow> (case tool_catalog i of
     Some (m, c, p) \<Rightarrow> m = ''GET'' \<and> c = cap \<and> set names \<subseteq> set (path_parameters p)
   | None \<Rightarrow> False)"

fun is_dispatcher :: "tool_call \<Rightarrow> bool" where
  "is_dispatcher (InvokeMistPrivilegedRead _) = True"
| "is_dispatcher (InvokeMistRead _) = True"
| "is_dispatcher _ = False"

fun tool_capability :: "tool_call \<Rightarrow> mist_capability" where
  "tool_capability (GetMistDevice _) = PrivilegedRead"
| "tool_capability (GetMistSelf _) = PrivilegedRead"
| "tool_capability (ListMistWlans _) = PrivilegedRead"
| "tool_capability (SearchMistAuditLogs _) = PrivilegedRead"
| "tool_capability (InvokeMistPrivilegedRead _) = PrivilegedRead"
| "tool_capability (GetMistWanConfig a) = config_capability (cg_object a)"
| "tool_capability (ListMistWanConfig x) = config_capability (fst x)"
| "tool_capability _ = OrdinaryRead"

definition reads_only ::
  "('v, 'c) server \<Rightarrow> caller_ctx option \<Rightarrow> string \<Rightarrow> mist_capability \<Rightarrow> bool \<Rightarrow> 'c dispatch_outcome \<Rightarrow> bool" where
  "reads_only sv caller tool cap dispatcher out \<longleftrightarrow>
     set (do_calls out) \<subseteq> {(r, priority). call_permitted sv caller tool cap r \<and>
       (dispatcher \<or> fits cap (req_operation_id r) (map fst (req_path r)))}"

lemma fits_mono: "fits cap i names \<Longrightarrow> set ks \<subseteq> set names \<Longrightarrow> fits cap i ks"
  by (auto simp: fits_def split: option.splits)

lemma keys_bt_from: "set (map fst (bt_from ps)) = set (map fst ps)"
proof -
  have "fst ` set (fold (\<lambda>(k, v) m. bt_insert k v m) ps m) = fst ` set ps \<union> fst ` set m"
      for m :: "('a::linorder \<times> 'b) list"
  proof (induction ps arbitrary: m)
    case (Cons p ps)
    then show ?case by (cases p) (simp add: set_keys_bt_insert)
  qed simp
  then show ?thesis by (simp add: bt_from_def bt_empty_def)
qed

lemma named_keys: "set (map fst (bt_from (named_arguments names m))) \<subseteq> set names"
  unfolding keys_bt_from by (auto simp: named_arguments_def split: json.splits)

lemma reads_only_named:
  assumes "fits cap i names"
  shows "reads_only sv caller tool cap d (named sv caller client tool i args names cap)"
proof (cases "as_object args")
  case None
  then show ?thesis by (simp add: reads_only_def named_no_object)
next
  case (Some m)
  then have "args = JObj m" by simp
  with named_calls [of sv caller client tool i m names cap] fits_mono [OF assms named_keys]
  show ?thesis by (auto simp: reads_only_def)
qed

lemma reads_only_catalogued:
  assumes "fits (cr_capability rd) (cr_operation_id rd) (map fst (cr_path rd))"
    "cr_tool rd = tool" "cr_capability rd = cap"
  shows "reads_only sv caller tool cap d (catalogued sv caller client rd)"
  using catalogued_calls [of sv caller client rd] assms by (auto simp: reads_only_def)

lemma reads_only_invoked: "reads_only sv caller tool cap True (invoked sv caller client tool args cap)"
proof -
  have "reads_only sv caller tool cap True (catalogued sv caller client rd)"
    if "cr_tool rd = tool" "cr_capability rd = cap" for rd
    using catalogued_calls [of sv caller client rd] that by (auto simp: reads_only_def)
  then show ?thesis
    by (auto simp: invoke_dispatcher_def refused_def reads_only_def split: sum.split prod.split)
qed

lemma reads_only_ambiguous: "reads_only sv caller tool cap d (ambiguous client name)"
  by (simp add: reads_only_def)

lemma plain_fits:
  "fits PrivilegedRead ''getSiteDevice'' [''site_id'', ''device_id'']"
  "fits OrdinaryRead ''getSiteDeviceStats'' [''site_id'', ''device_id'']"
  "fits OrdinaryRead ''getSiteInsightMetrics'' [''site_id'']"
  "fits OrdinaryRead ''getSiteCurrentChannelPlanning'' [''site_id'']"
  "fits PrivilegedRead ''getSelf'' []"
  "fits OrdinaryRead ''getSiteInfo'' [''site_id'']"
  "fits OrdinaryRead ''getSiteSleSummaryTrend'' [''site_id'', ''scope'', ''scope_id'', ''metric'']"
  "fits OrdinaryRead ''listSiteRogueAPs'' [''site_id'']"
  "fits OrdinaryRead ''listOrgSites'' [''org_id'']"
  "fits OrdinaryRead ''listSiteSlesMetrics'' [''site_id'', ''scope'', ''scope_id'']"
  "fits OrdinaryRead ''listSiteDeviceUpgrades'' [''site_id'']"
  "fits PrivilegedRead ''listSiteWlans'' [''site_id'']"
  "fits OrdinaryRead ''listAlarmDefinitions'' []"
  "fits PrivilegedRead ''listOrgAuditLogs'' [''org_id'']"
  "fits OrdinaryRead ''searchSiteWirelessClients'' [''site_id'']"
  "fits OrdinaryRead ''searchSiteSystemEvents'' [''site_id'']"
  "fits OrdinaryRead ''searchOrgInventory'' [''org_id'']"
  "fits OrdinaryRead ''listSiteTroubleshootCalls'' [''site_id'']"
  "fits OrdinaryRead ''getOrg'' [''org_id'']"
  by code_simp+

lemma wan_edges_fits: "fits OrdinaryRead (res_operation_id (wan_edges s)) (res_path_names (wan_edges s))"
  by (induct s; code_simp)

lemma wan_edge_stats_fits: "fits OrdinaryRead (res_operation_id (wan_edge_stats d)) (res_path_names (wan_edge_stats d))"
  by (induct d; code_simp)

lemma tunnels_fits: "fits OrdinaryRead (res_operation_id (tunnels m)) (res_path_names (tunnels m))"
  by (induct m; code_simp)

lemma peer_paths_fits: "fits OrdinaryRead (res_operation_id (peer_paths m)) (res_path_names (peer_paths m))"
  by (induct m; code_simp)

lemma bgp_peers_fits: "fits OrdinaryRead (res_operation_id (bgp_peers s m)) (res_path_names (bgp_peers s m))"
  by (induct s; induct m; code_simp)

lemma alarms_fits: "fits OrdinaryRead (res_operation_id (alarms s m)) (res_path_names (alarms s m))"
  by (induct s; induct m; code_simp)

lemma service_path_events_fits: "fits OrdinaryRead (res_operation_id (service_path_events m)) (res_path_names (service_path_events m))"
  by (induct m; code_simp)

lemma sle_impact_fits: "fits OrdinaryRead (res_operation_id (sle_impact i)) (res_path_names (sle_impact i))"
  by (induct i; code_simp)

lemma applications_fits: "fits OrdinaryRead (res_operation_id (applications a m)) (res_path_names (applications a m))"
  by (induct a; induct m; code_simp)

lemma list_config_fits: "fits (config_capability x) (res_operation_id (list_config x s)) (res_path_names (list_config x s))"
  by (induct x; induct s; code_simp)

lemma get_config_fits: "fits (config_capability x) (res_operation_id (get_config x)) (res_path_names (get_config x))"
  by (induct x; code_simp)

lemmas tool_fits = plain_fits wan_edges_fits wan_edge_stats_fits tunnels_fits peer_paths_fits bgp_peers_fits
  alarms_fits service_path_events_fits sle_impact_fits applications_fits list_config_fits

lemmas tool_defs = get_mist_device_def get_mist_device_stats_def get_mist_insight_def get_mist_org_def get_mist_rrm_def get_mist_self_def get_mist_site_def get_mist_sle_def get_mist_sle_impact_def get_mist_wan_config_def get_mist_wan_edge_stats_def invoke_mist_privileged_read_def invoke_mist_read_def list_mist_applications_def list_mist_rogues_def list_mist_sites_def list_mist_sle_metrics_def list_mist_upgrades_def list_mist_wan_config_def list_mist_wan_edges_def list_mist_wlans_def search_mist_alarms_def list_mist_alarm_definitions_def search_mist_audit_logs_def search_mist_bgp_peers_def search_mist_clients_def search_mist_events_def search_mist_inventory_def search_mist_peer_paths_def search_mist_service_path_events_def search_mist_tunnels_def troubleshoot_mist_def

section \<open>Properties of the read tools\<close>

lemma wan_config_fits:
  "fits (config_capability x) (res_operation_id (get_config x))
     (map fst (bt_from [(''org_id'', org), (object_id_name x, oid)]))"
proof (rule fits_mono [OF get_config_fits])
  show "set (map fst (bt_from [(''org_id'', org), (object_id_name x, oid)])) \<subseteq> set (res_path_names (get_config x))"
    unfolding keys_bt_from by (cases x) (simp_all add: resolve_def)
qed

lemma org_fits: "fits OrdinaryRead ''getOrg'' (map fst (bt_from [(''org_id'', org)]))"
  by (rule fits_mono [OF plain_fits(19)]) (simp only: keys_bt_from, simp)

lemma get_mist_org_reads: "reads_only sv caller ''get_mist_org'' OrdinaryRead False (get_mist_org sv caller client org)"
  unfolding get_mist_org_def by (rule reads_only_catalogued) (simp_all add: org_fits)

lemma get_mist_wan_config_reads:
  "reads_only sv caller ''get_mist_wan_config'' (config_capability (cg_object a)) False
     (get_mist_wan_config sv caller client a)"
  unfolding get_mist_wan_config_def by (rule reads_only_catalogued) (simp_all add: wan_config_fits)

lemma list_mist_wan_config_reads:
  "reads_only sv caller ''list_mist_wan_config'' (config_capability (fst a)) False
     (list_mist_wan_config sv caller client a)"
  unfolding list_mist_wan_config_def
  by (cases a) (simp add: Let_def reads_only_ambiguous reads_only_named list_config_fits split: sum.split)

lemma tool_reads:
  "reads_only sv caller (tool_of t) (tool_capability t) (is_dispatcher t) (call_tool sv caller client t)"
proof (cases t)
  case (GetMistOrg a)
  then show ?thesis by (simp add: get_mist_org_reads)
next
  case (GetMistWanConfig a)
  then show ?thesis by (simp add: get_mist_wan_config_reads)
next
  case (ListMistWanConfig a)
  then show ?thesis by (simp add: list_mist_wan_config_reads)
qed (simp_all add: tool_defs Let_def reads_only_named reads_only_ambiguous reads_only_invoked tool_fits
  split: sum.split prod.split)

text \<open>C5: Whatever read tool is called, whoever calls it: every request the client receives is a
  catalogued GET, authorized for that tool and its target and within the caller's grant; a
  privileged operation is read only by a tool that the wildcard scope excludes.\<close>

theorem privileged_reads_need_restricted_tools:
  "set (do_calls (call_tool sv caller client t)) \<subseteq>
     {(r, priority). tool_of t \<in> set KNOWN_TOOLS \<and> call_permitted sv caller (tool_of t) (tool_capability t) r \<and>
       (tool_capability t = OrdinaryRead \<or>
        tool_capability t = PrivilegedRead \<and> tool_of t \<in> set RESTRICTED_TOOLS)}"
proof -
  have known: "tool_of t \<in> set KNOWN_TOOLS" by (cases t) (simp_all add: KNOWN_TOOLS_def)
  have config: "config_capability x = OrdinaryRead \<or> config_capability x = PrivilegedRead" for x
    by (cases x) simp_all
  have "tool_capability t = OrdinaryRead \<or>
        tool_capability t = PrivilegedRead \<and> tool_of t \<in> set RESTRICTED_TOOLS"
    using config by (cases t) (simp_all add: RESTRICTED_TOOLS_def)
  with known tool_reads [of sv caller t client] show ?thesis
    unfolding reads_only_def by fast
qed

text \<open>C31: Every request of a named tool, that is of any but the two dispatchers, is for an operation
  of the shipped catalog, of the capability the tool asks for, and gives values only for
  parameters of that operation's path.\<close>

theorem named_tools_fit_catalog:
  "set (do_calls (call_tool sv caller client t)) \<subseteq>
     {(r, priority). is_dispatcher t \<or>
       (\<exists>p. tool_catalog (req_operation_id r) = Some (''GET'', tool_capability t, p) \<and>
          bt_keys (req_path r) \<in> lists (set (path_parameters p)))}"
proof -
  have "\<exists>p. tool_catalog i = Some (''GET'', cap, p) \<and> ks \<in> lists (set (path_parameters p))"
    if "fits cap i ks" for cap i and ks :: "string list"
    using that by (auto simp: fits_def split: option.splits prod.splits)
  with tool_reads [of sv caller t client] show ?thesis
    unfolding reads_only_def bt_keys_def by blast
qed

section \<open>The audit of the read tools\<close>

text \<open>
  An outcome with a request has the audit record of that request: a read by the tool, on the target that
  the request's path names, a failure exactly where the result is an error. An outcome without a request is an
  error, whose record denies or fails, or that was refused before there was a record.
\<close>

definition target_subjects :: "mist_target option \<Rightarrow> string list" where
  "target_subjects target = (case target of None \<Rightarrow> [] | Some t \<Rightarrow> [target_subject t])"

definition audited_call ::
  "('v, 'c) server \<Rightarrow> string \<Rightarrow> 'c dispatch_outcome \<Rightarrow> mist_request \<Rightarrow> bool" where
  "audited_call sv tool out r \<longleftrightarrow>
     (\<exists>p target. catalog_operation (h_catalog (sv_handler sv)) (req_operation_id r) = Some p \<and>
        target_for (target_selectors p) (req_path r) = Inr target \<and>
        do_audit out = audit tool (target_subjects target) (if is_ok (do_result out) then AuditResult else AuditFail))"

definition audited :: "('v, 'c) server \<Rightarrow> string \<Rightarrow> 'c dispatch_outcome \<Rightarrow> bool" where
  "audited sv tool out \<longleftrightarrow>
     (case do_calls out of
        [] \<Rightarrow> \<not> is_ok (do_result out) \<and> au_tool (do_audit out) = tool \<and> au_outcome (do_audit out) \<noteq> AuditResult
      | [(r, priority)] \<Rightarrow> audited_call sv tool out r
      | _ \<Rightarrow> False)"

lemma audited_catalogued: "cr_tool rd = tool \<Longrightarrow> audited sv tool (catalogued sv caller client rd)"
proof (cases "check_read (sv_env sv) (sv_handler sv) caller rd")
  case (Inl x)
  moreover assume "cr_tool rd = tool"
  moreover obtain au e where x: "x = (au, e)" by fastforce
  ultimately have "au_tool au = tool \<and> au_outcome au \<noteq> AuditResult"
    by (auto simp: check_read_def audit_def Let_def split: option.splits sum.splits if_splits)
  with Inl x show ?thesis by (simp add: dispatch_catalogued_read_def audited_def)
next
  case (Inr x)
  assume tool: "cr_tool rd = tool"
  obtain p target request where x: "x = (p, target, request)" by (cases x)
  note checked = check_read_Inr [OF Inr [unfolded x]] check_read_request [OF Inr [unfolded x]]
  obtain c outcome where exec: "sv_exec sv client request (call_priority_for caller) = (c, outcome)" by fastforce
  show ?thesis
    using Inr x exec tool checked
    by (auto simp: dispatch_catalogued_read_def audited_def audited_call_def Let_def target_subjects_def read_outcome_def
        split: sum.splits prod.splits)
qed

lemma audited_refused:
  assumes "au_tool au = tool" and "au_outcome au \<noteq> AuditResult"
  shows "audited sv tool (refused client au e)"
  using assms by (simp add: audited_def refused_def)

lemma audited_named: "audited sv tool (named sv caller client tool i args names cap)"
  by (auto simp: dispatch_named_def audited_catalogued audited_refused no_audit_def split: sum.split)

lemma audited_invoked: "audited sv tool (invoked sv caller client tool args cap)"
  by (auto simp: invoke_dispatcher_def audited_catalogued audited_refused audit_def split: sum.split)

lemma audited_ambiguous: "audited sv tool (ambiguous client tool)"
  by (simp add: ambiguous_def audited_refused no_audit_def)

text \<open>C14: No read goes unrecorded. Whatever read tool is called: it makes at most one request; a request that
  reaches the client is on an audit record of that tool with the subject of the organization or site it reads, and
  the record is a failure exactly where the caller gets an error; without a request the call is refused and
  nothing is recorded as a result.\<close>

theorem reads_are_audited:
  "case do_calls (call_tool sv caller client t) of
     [] \<Rightarrow> \<not> is_ok (do_result (call_tool sv caller client t)) \<and>
        au_tool (do_audit (call_tool sv caller client t)) = tool_of t \<and>
        au_outcome (do_audit (call_tool sv caller client t)) \<noteq> AuditResult
   | [(r, priority)] \<Rightarrow> audited_call sv (tool_of t) (call_tool sv caller client t) r
   | _ \<Rightarrow> False"
proof -
  have "audited sv (tool_of t) (call_tool sv caller client t)"
    by (cases t) (simp_all add: tool_defs Let_def audited_named audited_invoked audited_ambiguous audited_catalogued
        split: sum.split prod.split)
  then show ?thesis by (simp only: audited_def)
qed

end
