(* ===== verification/ChangeSet.thy ===== *)
theory ChangeSet
  imports Tools
begin

text \<open>
  \<open>server/change_set.rs\<close>: how an object is named as a concurrency key, the actor type of a caller,
  and the staging of a plan. The change-set coordinator, the evidence recorder, the system
  clock, the random source, SHA-256 and serde are outside the repository: they are the functions
  of the record \<open>change_env\<close>, over the state \<open>'s\<close> of what is outside (the coordinator's
  records, the recorder's chain, the clock).

  A handler works on a \<open>world\<close>: that state, the client's state and the trace of the
  effects it had, in order. It ends in a refusal or in a value.
\<close>

section \<open>Records of the coordinator\<close>

datatype change_set_state =
  StatePlanned | StateApproved | StateApplying | StateApplied | StateFailed | StateOther string

record preview_record =
  pv_artifact :: string
  pv_digest :: string
  pv_job_id :: "string option"

record approval_record = apr_waived :: "string option"

record change_set =
  cs_id :: string
  cs_owner :: string
  cs_device :: string
  cs_fingerprint :: string
  cs_actions :: "json list"
  cs_digest :: string
  cs_state :: change_set_state
  cs_approver :: "string option"
  cs_approval :: "approval_record option"
  cs_expires_at_unix :: u64
  cs_operation_id :: "string option"
  cs_policy_signature :: string
  cs_targets :: "string list"
  cs_preview :: "preview_record option"
  cs_apply_without_handle :: bool
  cs_task_id :: "string option"

record coordinator_error =
  coe_field :: string
  coe_message :: string

datatype apply_handle = HandleExpected | HandleNone

record operation_limits =
  max_operations :: nat
  max_change_sets :: nat
  max_actions_per_set :: nat
  max_change_set_bytes :: nat
  max_state_bytes :: nat
  max_targets_per_set :: nat
  max_preview_bytes :: nat

definition change_set_limits :: operation_limits where
  "change_set_limits = \<lparr>max_operations = 64, max_change_sets = 64, max_actions_per_set = 1,
     max_change_set_bytes = 256 * 1024, max_state_bytes = 4 * 1024 * 1024, max_targets_per_set = 1,
     max_preview_bytes = 128 * 1024\<rparr>"

section \<open>What is outside the repository\<close>

record 's coordinator =
  co_guard :: "string \<Rightarrow> 's \<Rightarrow> 's \<times> (coordinator_error + unit)"
  co_insert :: "change_set \<Rightarrow> 's \<Rightarrow> 's \<times> (coordinator_error + unit)"
  co_change_set :: "string \<Rightarrow> string \<Rightarrow> 's \<Rightarrow> 's \<times> (coordinator_error + change_set)"
  co_approve :: "string \<Rightarrow> string \<Rightarrow> string \<Rightarrow> string \<Rightarrow> actor_type \<Rightarrow> 's \<Rightarrow> 's \<times> (coordinator_error + string)"
  co_waive :: "string \<Rightarrow> string \<Rightarrow> string \<Rightarrow> string \<Rightarrow> 's \<Rightarrow> 's \<times> (coordinator_error + unit)"
  co_claim :: "string \<Rightarrow> string \<Rightarrow> apply_handle \<Rightarrow> 's \<Rightarrow> 's \<times> (coordinator_error + change_set)"
  co_release :: "string \<Rightarrow> 's \<Rightarrow> 's"
  co_update :: "change_set \<Rightarrow> 's \<Rightarrow> 's \<times> (coordinator_error + unit)"
  co_approval_ttl :: u64

record 's recorder =
  rc_proposal :: "string \<Rightarrow> string \<Rightarrow> string \<Rightarrow> string \<Rightarrow> string \<Rightarrow> 's \<Rightarrow> 's"
  rc_apply_intent :: "string \<Rightarrow> string \<Rightarrow> string \<Rightarrow> string \<Rightarrow> 's \<Rightarrow> 's \<times> (string + unit)"
  rc_result_receipt :: "string \<Rightarrow> string \<Rightarrow> string \<Rightarrow> string \<Rightarrow> bool \<Rightarrow> string \<Rightarrow> 's \<Rightarrow> 's \<times> (string + unit)"

text \<open>A tool result of the protocol: whether it is an error, and the text of its first content.\<close>

record call_result =
  cr_is_error :: bool
  cr_text :: "string option"

record ('v, 's, 'c) change_env =
  ce_server :: "('v, 'c) server"
  ce_coordinator :: "'s coordinator"
  ce_evidence :: "'s recorder option"
  ce_now :: "'s \<Rightarrow> string + u64"
  ce_random :: "'s \<Rightarrow> 's \<times> (string + string)"
  ce_hex_encode :: "string \<Rightarrow> string"
  ce_sha256 :: "string \<Rightarrow> string"
  ce_to_vec :: "json \<Rightarrow> string + string"
  ce_from_str :: "string \<Rightarrow> string + json"
  ce_json_text :: "json \<Rightarrow> string"
  ce_change_set_digest :: "string \<Rightarrow> string \<Rightarrow> string \<Rightarrow> json list \<Rightarrow> string + string"
  ce_preview_digest :: "string \<Rightarrow> string"
  ce_tool_result :: "mist_call_error + read_envelope \<Rightarrow> call_result"
  ce_state_name :: "change_set_state \<Rightarrow> string"

section \<open>The world of a handler\<close>

text \<open>The effects a handler can have, as they appear in the trace.\<close>

datatype event =
    EvCall mist_request call_priority
  | EvInsert change_set
  | EvApprove string string string string actor_type
  | EvWaive string
  | EvProposal string
  | EvIntent string string
  | EvClaim string apply_handle
  | EvReceipt string bool
  | EvUpdate change_set

record ('s, 'c) world =
  w_outside :: 's
  w_client :: 'c
  w_events :: "event list"

datatype tool_error =
    ToolText string
  | ToolCoordinator coordinator_error
  | ToolRead call_result
  | ToolWrite mist_error
  | ToolProtocol string

type_synonym refusal = "audit_outcome \<times> tool_error"

text \<open>
  A handler is a resumption: done, with a refusal or a value, or one step on the world with what is
  left to do. A step is what no other call can interrupt: one operation of the coordinator or the
  recorder, one call of the client. \<open>run\<close> takes all steps of a handler that no other
  call interrupts; the calls that interrupt each other are in \<open>Concurrent\<close>.
\<close>

datatype ('s, 'c, 'a) act =
    Done "refusal + 'a"
  | Step "('s, 'c) world \<Rightarrow> ('s, 'c) world \<times> ('s, 'c, 'a) act"

primrec run :: "('s, 'c, 'a) act \<Rightarrow> ('s, 'c) world \<Rightarrow> ('s, 'c) world \<times> (refusal + 'a)" where
  "run (Done r) = (\<lambda>w. (w, r))"
| "run (Step g) = (\<lambda>w. case map_prod id run (g w) of (w', k) \<Rightarrow> k w')"

primrec bind_act :: "('s, 'c, 'a) act \<Rightarrow> ('a \<Rightarrow> ('s, 'c, 'b) act) \<Rightarrow> ('s, 'c, 'b) act" where
  "bind_act (Done r) f = (case r of Inl e \<Rightarrow> Done (Inl e) | Inr x \<Rightarrow> f x)"
| "bind_act (Step g) f = Step (\<lambda>w. map_prod id (\<lambda>t. bind_act t f) (g w))"

text \<open>\<open>finally_do m f\<close> runs \<open>f\<close> after \<open>m\<close>, however that ended, and ends as \<open>m\<close> did: the drop of a guard.\<close>

primrec finally_do :: "('s, 'c, 'a) act \<Rightarrow> ('s, 'c, unit) act \<Rightarrow> ('s, 'c, 'a) act" where
  "finally_do (Done r) f = bind_act f (\<lambda>_. Done r)"
| "finally_do (Step g) f = Step (\<lambda>w. map_prod id (\<lambda>t. finally_do t f) (g w))"

definition ret :: "'a \<Rightarrow> ('s, 'c, 'a) act" where
  "ret x = Done (Inr x)"

definition refuse :: "audit_outcome \<Rightarrow> tool_error \<Rightarrow> ('s, 'c, 'a) act" where
  "refuse out e = Done (Inl (out, e))"

definition require :: "bool \<Rightarrow> audit_outcome \<Rightarrow> string \<Rightarrow> ('s, 'c, unit) act" where
  "require b out e = (if b then ret () else refuse out (ToolText e))"

text \<open>Run a step that is outside, keep its result as a value, and leave its event; or only read.\<close>

definition outside :: "('s \<Rightarrow> 's \<times> 'a) \<Rightarrow> event list \<Rightarrow> ('s, 'c, 'a) act" where
  "outside f evs = Step (\<lambda>w. case f (w_outside w) of (s, x) \<Rightarrow>
     (w\<lparr>w_outside := s, w_events := w_events w @ evs\<rparr>, Done (Inr x)))"

definition reading :: "('s \<Rightarrow> 'a) \<Rightarrow> ('s, 'c, 'a) act" where
  "reading f = Step (\<lambda>w. (w, Done (Inr (f (w_outside w)))))"

definition or_refuse :: "audit_outcome \<Rightarrow> ('e \<Rightarrow> tool_error) \<Rightarrow> 'e + 'a \<Rightarrow> ('s, 'c, 'a) act" where
  "or_refuse out f r = (case r of Inl e \<Rightarrow> refuse out (f e) | Inr x \<Rightarrow> ret x)"

section \<open>\<open>change_set.rs\<close>\<close>

text \<open>\<open>actor_type\<close>: no caller is an unknown actor, never a human.\<close>

definition actor_of :: "caller_ctx option \<Rightarrow> actor_type" where
  "actor_of caller = (case caller of
     Some ctx \<Rightarrow> (case ca_actor_type ctx of
         ActorHuman \<Rightarrow> ActorHuman | ActorAgent \<Rightarrow> ActorAgent | ActorUnknown \<Rightarrow> ActorUnknown)
   | None \<Rightarrow> ActorUnknown)"

fun object_name :: "wan_object \<Rightarrow> string" where
  "object_name ObjNetwork = ''network''"
| "object_name ObjService = ''service''"
| "object_name ObjServicePolicy = ''servicepolicy''"
| "object_name ObjGatewayTemplate = ''gatewaytemplate''"
| "object_name ObjDeviceProfile = ''deviceprofile''"

definition object_key :: "wan_object \<Rightarrow> string option \<Rightarrow> string" where
  "object_key x object_id = (case object_id of
     Some i \<Rightarrow> object_name x @ ''/'' @ i
   | None \<Rightarrow> object_name x @ ''/new'')"

record staged_plan =
  sp_change_set_id :: string
  sp_plan_digest :: string
  sp_preview_digest :: string
  sp_before :: json
  sp_after :: json

definition fingerprint_of :: "('v, 's, 'c) change_env \<Rightarrow> string \<Rightarrow> string" where
  "fingerprint_of env canonical = ''sha256:'' @ ce_hex_encode env (ce_sha256 env canonical)"

text \<open>The fingerprint of the state before: the word \<open>create\<close> where there is none.\<close>

definition before_fingerprint :: "('v, 's, 'c) change_env \<Rightarrow> json \<Rightarrow> coordinator_error + string" where
  "before_fingerprint env before =
     (if is_null before then Inr ''create''
      else and_then (map_err (\<lambda>e. \<lparr>coe_field = ''before'', coe_message = e\<rparr>) (ce_to_vec env before))
        (\<lambda>canonical. Inr (fingerprint_of env canonical)))"

definition plan_action :: "wan_object \<Rightarrow> json \<Rightarrow> json" where
  "plan_action x after = JObj [(''object'', JStr (object_name x)), (''body'', after)]"

definition preview_artifact :: "('v, 's, 'c) change_env \<Rightarrow> json \<Rightarrow> json \<Rightarrow> string \<Rightarrow> string" where
  "preview_artifact env before after org_id =
     ce_json_text env (JObj [(''before'', before), (''after'', after), (''org_id'', JStr org_id)])"

definition planned_record ::
  "('v, 's, 'c) change_env \<Rightarrow> string \<Rightarrow> string \<Rightarrow> string \<Rightarrow> string \<Rightarrow> json \<Rightarrow> string \<Rightarrow> u64 \<Rightarrow> string \<Rightarrow> change_set" where
  "planned_record env i owner device fingerprint action plan_digest now artifact =
     \<lparr>cs_id = i, cs_owner = owner, cs_device = device, cs_fingerprint = fingerprint,
      cs_actions = [action], cs_digest = plan_digest, cs_state = StatePlanned, cs_approver = None,
      cs_approval = None, cs_expires_at_unix = sat_add now 3600, cs_operation_id = None,
      cs_policy_signature = [], cs_targets = [],
      cs_preview = Some \<lparr>pv_artifact = artifact, pv_digest = ce_preview_digest env artifact, pv_job_id = None\<rparr>,
      cs_apply_without_handle = False, cs_task_id = None\<rparr>"

text \<open>\<open>stage_plan\<close>; every failing step is a coordinator error that refuses the plan.\<close>

definition stage_plan ::
  "('v, 's, 'c) change_env \<Rightarrow> string \<Rightarrow> wan_object \<Rightarrow> string option \<Rightarrow> string \<Rightarrow> json \<Rightarrow> json
    \<Rightarrow> ('s, 'c, staged_plan) act" where
  "stage_plan env owner x object_id org_id before after =
     (let fail = (\<lambda>field e. ToolCoordinator \<lparr>coe_field = field, coe_message = e\<rparr>);
          device = object_key x object_id;
          action = plan_action x after
      in
      bind_act (or_refuse AuditFail ToolCoordinator (before_fingerprint env before)) (\<lambda>fingerprint.
      bind_act (outside (ce_random env) []) (\<lambda>random.
      bind_act (or_refuse AuditFail (fail ''id'') random) (\<lambda>id_bytes.
      let change_set_id = ce_hex_encode env id_bytes in
      bind_act (or_refuse AuditFail (fail ''digest'')
        (ce_change_set_digest env owner device fingerprint [action])) (\<lambda>plan_digest.
      bind_act (or_refuse AuditFail (fail ''preview'') (ce_to_vec env after)) (\<lambda>preview_body.
      bind_act (reading (ce_now env)) (\<lambda>clock.
      bind_act (or_refuse AuditFail (fail ''time'') clock) (\<lambda>now.
      let rec = planned_record env change_set_id owner device fingerprint action plan_digest now
            (preview_artifact env before after org_id) in
      bind_act (outside (co_insert (ce_coordinator env) rec) [EvInsert rec]) (\<lambda>inserted.
      bind_act (or_refuse AuditFail ToolCoordinator inserted) (\<lambda>_.
      ret \<lparr>sp_change_set_id = change_set_id, sp_plan_digest = plan_digest,
           sp_preview_digest = ce_preview_digest env preview_body, sp_before = before,
           sp_after = after\<rparr>))))))))))"

section \<open>Reasoning about steps\<close>

lemma run_Step: "run (Step g) w = run (snd (g w)) (fst (g w))"
  by (cases "g w") simp

lemma run_bind:
  "run (bind_act m f) w = (case run m w of (w', Inl e) \<Rightarrow> (w', Inl e) | (w', Inr x) \<Rightarrow> run (f x) w')"
proof (induction m arbitrary: w)
  case (Done r)
  then show ?case by (simp split: sum.split)
next
  case (Step g)
  have "snd (g w) \<in> Basic_BNFs.snds (g w)" "g w \<in> range g" by (auto simp: prod_set_simps snds.simps)
  from Step.IH [OF this(2,1), of "fst (g w)"] show ?case
    by (simp only: bind_act.simps run_Step) (simp add: run_Step)
qed

lemma run_finally:
  "run (finally_do m f) w = (case run m w of (w', r) \<Rightarrow>
     (case run f w' of (w'', Inl e) \<Rightarrow> (w'', Inl e) | (w'', Inr u) \<Rightarrow> (w'', r)))"
proof (induction m arbitrary: w)
  case (Done r)
  then show ?case by (simp add: run_bind split: prod.split sum.split)
next
  case (Step g)
  have "snd (g w) \<in> Basic_BNFs.snds (g w)" "g w \<in> range g" by (auto simp: prod_set_simps snds.simps)
  from Step.IH [OF this(2,1), of "fst (g w)"] show ?case
    by (simp only: finally_do.simps run_Step) (simp add: run_Step)
qed

lemma run_ret: "run (ret x) w = (w, Inr x)"
  by (simp add: ret_def)

lemma run_refuse: "run (refuse out e) w = (w, Inl (out, e))"
  by (simp add: refuse_def)

lemma run_require: "run (require b out e) w = (w, if b then Inr () else Inl (out, ToolText e))"
  by (simp add: require_def run_ret run_refuse)

lemma run_or_refuse: "run (or_refuse out f r) w = (w, case r of Inl e \<Rightarrow> Inl (out, f e) | Inr x \<Rightarrow> Inr x)"
  by (simp add: or_refuse_def run_ret run_refuse split: sum.split)

lemma run_outside:
  "run (outside f evs) w = (case f (w_outside w) of (s, x) \<Rightarrow>
     (w\<lparr>w_outside := s, w_events := w_events w @ evs\<rparr>, Inr x))"
  by (simp add: outside_def split: prod.split)

lemma run_reading: "run (reading f) w = (w, Inr (f (w_outside w)))"
  by (simp add: reading_def)

lemmas run_steps = run_bind run_ret run_refuse run_require run_or_refuse run_outside run_reading

named_theorems act_simps \<open>what a step ends in\<close>

lemma bind_act_Inr [act_simps]:
  "run (bind_act m f) w = (w', Inr y) \<longleftrightarrow> (\<exists>w1 x. run m w = (w1, Inr x) \<and> run (f x) w1 = (w', Inr y))"
  by (auto simp: run_bind split: prod.splits sum.splits)

lemma ret_iff [act_simps]: "run (ret x) w = (w', r) \<longleftrightarrow> w' = w \<and> r = Inr x"
  by (auto simp: run_ret)

lemma refuse_Inr [act_simps]: "run (refuse out e) w = (w', Inr x) \<longleftrightarrow> False"
  by (simp add: run_refuse)

lemma or_refuse_Inr [act_simps]: "run (or_refuse out f r) w = (w', Inr x) \<longleftrightarrow> w' = w \<and> r = Inr x"
  by (auto simp: run_or_refuse split: sum.splits)

lemma require_Inr [act_simps]: "run (require b out e) w = (w', Inr u) \<longleftrightarrow> b \<and> w' = w"
  by (auto simp: run_require)

lemma reading_iff [act_simps]: "run (reading f) w = (w', r) \<longleftrightarrow> w' = w \<and> r = Inr (f (w_outside w))"
  by (auto simp: run_reading)

lemma outside_iff [act_simps]:
  "run (outside f evs) w = (w', r) \<longleftrightarrow> (\<exists>s x. f (w_outside w) = (s, x) \<and>
     w' = w\<lparr>w_outside := s, w_events := w_events w @ evs\<rparr> \<and> r = Inr x)"
  by (auto simp: run_outside split: prod.splits)

text \<open>A step only appends to the trace, and only events that satisfy a predicate.\<close>

definition emits :: "('s, 'c, 'a) act \<Rightarrow> (event \<Rightarrow> bool) \<Rightarrow> bool" where
  "emits m P \<longleftrightarrow> (\<forall>w. \<exists>evs. w_events (fst (run m w)) = w_events w @ evs \<and> list_all P evs)"

named_theorems emits_rules \<open>what a step may append\<close>

lemma emits_bind [emits_rules]:
  assumes "emits m P" "\<And>x. emits (f x) P"
  shows "emits (bind_act m f) P"
  unfolding emits_def
proof
  fix w
  obtain evs where evs: "w_events (fst (run m w)) = w_events w @ evs" "list_all P evs"
    using assms(1) unfolding emits_def by blast
  show "\<exists>evs. w_events (fst (run (bind_act m f) w)) = w_events w @ evs \<and> list_all P evs"
  proof (cases "run m w")
    case (Pair w1 r)
    show ?thesis
    proof (cases r)
      case (Inl e)
      with Pair evs show ?thesis by (auto simp: run_bind)
    next
      case (Inr x)
      obtain evs' where "w_events (fst (run (f x) w1)) = w_events w1 @ evs'" "list_all P evs'"
        using assms(2) unfolding emits_def by blast
      with Pair Inr evs show ?thesis by (intro exI [of _ "evs @ evs'"]) (simp add: run_bind)
    qed
  qed
qed

lemma emits_ret [emits_rules]: "emits (ret x) P"
  by (simp add: emits_def run_ret)

lemma emits_refuse [emits_rules]: "emits (refuse out e) P"
  by (simp add: emits_def run_refuse)

lemma emits_or_refuse [emits_rules]: "emits (or_refuse out f r) P"
  by (simp add: or_refuse_def emits_ret emits_refuse split: sum.split)

lemma emits_reading [emits_rules]: "emits (reading f) P"
  by (simp add: emits_def run_reading)

lemma emits_require [emits_rules]: "emits (require b out e) P"
  by (simp add: require_def emits_ret emits_refuse)

lemma emits_outside [emits_rules]: "list_all P evs \<Longrightarrow> emits (outside f evs) P"
  by (simp add: emits_def run_outside split: prod.split)

lemma emits_finally [emits_rules]:
  assumes "emits m P" "emits f P"
  shows "emits (finally_do m f) P"
  unfolding emits_def
proof
  fix w
  obtain w1 r where m: "run m w = (w1, r)" by fastforce
  obtain w2 q where f: "run f w1 = (w2, q)" by fastforce
  obtain es fs where "w_events w1 = w_events w @ es" "list_all P es" "w_events w2 = w_events w1 @ fs" "list_all P fs"
    using assms m f unfolding emits_def by (metis fst_conv)
  with m f show "\<exists>evs. w_events (fst (run (finally_do m f) w)) = w_events w @ evs \<and> list_all P evs"
    by (intro exI [of _ "es @ fs"]) (simp add: run_finally split: sum.split)
qed

lemma emits_mono: "emits m P \<Longrightarrow> (\<And>e. P e \<Longrightarrow> Q e) \<Longrightarrow> emits m Q"
  unfolding emits_def by (meson list_all_iff)

lemma emits_run:
  assumes "emits m P" "run m w = (w', r)"
  obtains evs where "w_events w' = w_events w @ evs" "list_all P evs"
  using assms unfolding emits_def by (metis fst_conv)

text \<open>A write is a call with a body.\<close>

definition is_write :: "event \<Rightarrow> bool" where
  "is_write e \<longleftrightarrow> (case e of EvCall r p \<Rightarrow> req_json r \<noteq> None | _ \<Rightarrow> False)"

definition writes_in :: "event list \<Rightarrow> event list" where
  "writes_in evs = filter is_write evs"

lemma writes_in_append [simp]: "writes_in (xs @ ys) = writes_in xs @ writes_in ys"
  by (simp add: writes_in_def)

lemma emits_no_write:
  assumes "emits m (\<lambda>e. \<not> is_write e)" "run m w = (w', r)"
  shows "writes_in (w_events w') = writes_in (w_events w)"
  using assms by (elim emits_run) (auto simp: writes_in_def list_all_iff filter_empty_conv)

section \<open>Properties of staging\<close>

lemma stage_plan_Inr:
  assumes "run (stage_plan env owner x object_id org_id before after) w = (w', Inr staged)"
  shows "\<exists>rec now fingerprint. w_events w' = w_events w @ [EvInsert rec] \<and> w_client w' = w_client w \<and>
    cs_id rec = sp_change_set_id staged \<and> cs_owner rec = owner \<and> cs_device rec = object_key x object_id \<and>
    cs_state rec = StatePlanned \<and> cs_approver rec = None \<and> cs_approval rec = None \<and>
    unat (cs_expires_at_unix rec) = min (unat (now :: u64) + 3600) (2 ^ 64 - 1) \<and>
    before_fingerprint env before = Inr fingerprint \<and> cs_fingerprint rec = fingerprint \<and>
    cs_actions rec = [plan_action x after] \<and>
    ce_change_set_digest env owner (object_key x object_id) fingerprint [plan_action x after] = Inr (cs_digest rec) \<and>
    sp_plan_digest staged = cs_digest rec \<and> sp_before staged = before \<and> sp_after staged = after \<and>
    map_option pv_artifact (cs_preview rec) = Some (preview_artifact env before after org_id)"
  using assms
  by (auto simp: stage_plan_def Let_def act_simps planned_record_def unat_sat_add)

text \<open>The fingerprint of the state before is the word \<open>create\<close>, from which an apply takes that
  it creates, exactly when that state is null: for a creation, and for an update whose read
  answered null.\<close>

theorem create_fingerprint_iff:
  assumes "before_fingerprint env before = Inr fingerprint"
  shows "fingerprint = ''create'' \<longleftrightarrow> before = JNull"
  using assms by (cases before) (auto simp: before_fingerprint_def fingerprint_of_def and_then_Inr_iff)

text \<open>Two objects share a concurrency key only when they are the same object, or both are
  creations of one type.\<close>

theorem object_key_injective:
  "object_key x i = object_key y j \<longleftrightarrow> x = y \<and> (i = j \<or> {i, j} = {None, Some ''new''})"
proof (cases i; cases j)
qed (cases x; cases y; auto simp: object_key_def)+

end
