(* ===== verification/Plan.thy ===== *)
theory Plan
  imports ChangeSet
begin

text \<open>
  \<open>server/mod.rs\<close>: planning, inspecting and approving a change set, and the internal read they
  share with applying one. The texts of \<open>audit.fail\<close> are not modelled, the outcome is.
\<close>

section \<open>Shared steps\<close>

definition principal_of :: "caller_ctx option \<Rightarrow> string" where
  "principal_of caller = (case caller of Some ctx \<Rightarrow> ca_token_name ctx | None \<Rightarrow> ''stdio'')"

text \<open>
  The read of the object that a plan or an apply makes through \<open>dispatch_catalogued_read\<close>: its
  tool result is parsed back and the \<open>data\<close> member taken. \<open>what\<close> names the read in the errors.
\<close>

definition object_read :: "string \<Rightarrow> write_target_info \<Rightarrow> string \<Rightarrow> string \<Rightarrow> catalog_read" where
  "object_read tool target object_id org_id =
     \<lparr>cr_tool = tool, cr_operation_id = wt_read_operation_id target,
      cr_path = bt_insert ''org_id'' org_id (bt_insert (wt_id_path_name target) object_id bt_empty),
      cr_query = bt_empty, cr_cursor = None,
      cr_capability = (if wt_privileged target then PrivilegedRead else OrdinaryRead),
      cr_redact_output = False\<rparr>"

definition dispatch_act ::
  "('v, 's, 'c) change_env \<Rightarrow> caller_ctx option \<Rightarrow> catalog_read \<Rightarrow> ('s, 'c, call_result) act" where
  "dispatch_act env caller rd = Step (\<lambda>w.
     let out = catalogued (ce_server env) caller (w_client w) rd in
     (w\<lparr>w_client := do_client out,
        w_events := w_events w @ map (\<lambda>(r, p). EvCall r p) (do_calls out)\<rparr>,
      Done (Inr (ce_tool_result env (do_result out)))))"

definition result_data ::
  "('v, 's, 'c) change_env \<Rightarrow> string \<Rightarrow> call_result \<Rightarrow> string + json" where
  "result_data env what result =
     (case cr_text result of
        None \<Rightarrow> Inl (what @ '' result was not text'')
      | Some text \<Rightarrow>
          and_then (map_err (\<lambda>e. ''failed to parse '' @ what @ '' response: '' @ e) (ce_from_str env text)) (\<lambda>v.
          (case jget v ''data'' of
             None \<Rightarrow> Inl (what @ '' response missing data field'')
           | Some d \<Rightarrow> Inr d)))"

definition internal_read ::
  "('v, 's, 'c) change_env \<Rightarrow> caller_ctx option \<Rightarrow> string \<Rightarrow> catalog_read \<Rightarrow> ('s, 'c, json) act" where
  "internal_read env caller what rd =
     bind_act (dispatch_act env caller rd) (\<lambda>result.
     if cr_is_error result then refuse AuditFail (ToolRead result)
     else or_refuse AuditFail ToolText (result_data env what result))"

section \<open>\<open>plan_mist_change\<close>\<close>

record plan_args =
  pa_object :: wan_object
  pa_verb :: write_verb
  pa_org_id :: string
  pa_object_id :: "string option"
  pa_patch :: json

text \<open>The refusals before anything is read.\<close>

definition plan_checks :: "handler \<Rightarrow> plan_args \<Rightarrow> ('s, 'c, unit) act" where
  "plan_checks h args =
     bind_act (require (reject_config_authority (pa_patch args) \<noteq> Inl MistConfigured) AuditFail
       ''patch sets mist_configured, which controls who may configure the device'') (\<lambda>_.
     bind_act (require (reject_redaction_placeholder (pa_patch args) \<noteq> Inl RedactionPlaceholder) AuditFail
       (''patch contains the redaction placeholder; omit secret fields to keep ''
        @ ''their current value (merge-patch preserves omitted keys), or supply the real value'')) (\<lambda>_.
     require (list_ex (\<lambda>allowed. allowed = pa_org_id args) (h_allowed_orgs h))
       (AuditDeny ''org not in allowed_orgs'')
       (''organization '' @ pa_org_id args @ '' is not in the server's allowed organizations'')))"

definition plan_before ::
  "('v, 's, 'c) change_env \<Rightarrow> caller_ctx option \<Rightarrow> plan_args \<Rightarrow> ('s, 'c, json) act" where
  "plan_before env caller args =
     (if pa_verb args = VerbUpdate then
        (case pa_object_id args of
           None \<Rightarrow> refuse AuditFail (ToolText ''update requires object_id'')
         | Some object_id \<Rightarrow> internal_read env caller ''read''
             (object_read ''plan_mist_change'' (write_target (pa_object args) (pa_verb args)) object_id
               (pa_org_id args)))
      else ret JNull)"

text \<open>In lab mode the approval is waived right away.\<close>

definition plan_waive ::
  "('v, 's, 'c) change_env \<Rightarrow> plan_args \<Rightarrow> string \<Rightarrow> staged_plan \<Rightarrow> ('s, 'c, unit) act" where
  "plan_waive env args owner staged =
     (if h_lab_mode (sv_handler (ce_server env)) then
        bind_act (outside (co_waive (ce_coordinator env) (sp_change_set_id staged)
            (object_key (pa_object args) (pa_object_id args)) owner (sp_plan_digest staged))
            [EvWaive (sp_change_set_id staged)])
          (or_refuse AuditFail ToolCoordinator)
      else ret ())"

definition plan_propose ::
  "('v, 's, 'c) change_env \<Rightarrow> plan_args \<Rightarrow> string \<Rightarrow> staged_plan \<Rightarrow> ('s, 'c, unit) act" where
  "plan_propose env args owner staged =
     (case ce_evidence env of
        None \<Rightarrow> ret ()
      | Some recorder \<Rightarrow> outside (\<lambda>s. (rc_proposal recorder (sp_change_set_id staged) (sp_change_set_id staged)
          (object_key (pa_object args) (pa_object_id args)) owner (sp_plan_digest staged) s, ()))
          [EvProposal (sp_change_set_id staged)])"

definition plan_response :: "('v, 's, 'c) change_env \<Rightarrow> json \<Rightarrow> staged_plan \<Rightarrow> json" where
  "plan_response env before staged =
     (let redact = de_redact (sv_env (ce_server env));
          digests = [(''change_set_id'', JStr (sp_change_set_id staged)),
            (''plan_digest'', JStr (sp_plan_digest staged)),
            (''preview_digest'', JStr (sp_preview_digest staged))]
      in if is_null before
         then JObj (digests @ [(''before'', JNull), (''before_state'', JStr ''absent (create)''),
           (''after'', redact (sp_after staged))])
         else JObj (digests @ [(''before'', redact (sp_before staged)), (''after'', redact (sp_after staged))]))"

definition plan_mist_change ::
  "('v, 's, 'c) change_env \<Rightarrow> caller_ctx option \<Rightarrow> plan_args \<Rightarrow> ('s, 'c, json) act" where
  "plan_mist_change env caller args =
     (let owner = principal_of caller in
      bind_act (plan_checks (sv_handler (ce_server env)) args) (\<lambda>_.
      bind_act (plan_before env caller args) (\<lambda>before.
      let after = merge_patch before (pa_patch args) in
      bind_act (stage_plan env owner (pa_object args) (pa_object_id args) (pa_org_id args) before after) (\<lambda>staged.
      bind_act (plan_propose env args owner staged) (\<lambda>_.
      bind_act (plan_waive env args owner staged) (\<lambda>_.
      ret (plan_response env before staged)))))))"

section \<open>\<open>get_mist_change_set\<close>\<close>

record change_set_args =
  ca_change_set_id :: string
  ca_object :: wan_object
  ca_object_id :: "string option"

definition preview_member :: "json \<Rightarrow> string \<Rightarrow> json" where
  "preview_member parsed name = (case jget parsed name of None \<Rightarrow> JNull | Some v \<Rightarrow> v)"

definition get_mist_change_set ::
  "('v, 's, 'c) change_env \<Rightarrow> change_set_args \<Rightarrow> ('s, 'c, json) act" where
  "get_mist_change_set env args =
     (let device = object_key (ca_object args) (ca_object_id args);
          redact = de_redact (sv_env (ce_server env)) in
      bind_act (outside (co_change_set (ce_coordinator env) (ca_change_set_id args) device) []) (\<lambda>found.
      bind_act (or_refuse AuditFail ToolCoordinator found) (\<lambda>rec.
      bind_act (case cs_preview rec of
          None \<Rightarrow> ret (JNull, JNull)
        | Some preview \<Rightarrow>
            bind_act (or_refuse AuditFail (\<lambda>e. ToolText (''failed to parse preview: '' @ e))
              (ce_from_str env (pv_artifact preview))) (\<lambda>parsed.
            ret (redact (preview_member parsed ''before''), redact (preview_member parsed ''after''))))
        (\<lambda>(before, after).
      ret (JObj [(''change_set_id'', JStr (cs_id rec)), (''state'', JStr (ce_state_name env (cs_state rec))),
        (''owner'', JStr (cs_owner rec)), (''approver'', opt_json (cs_approver rec)),
        (''approval_waiver'', opt_json (Option.bind (cs_approval rec) apr_waived)),
        (''plan_digest'', JStr (cs_digest rec)), (''before'', before), (''after'', after)])))))"

section \<open>\<open>approve_mist_change_set\<close>\<close>

record approve_args = change_set_args +
  ca_plan_digest :: string

definition approve_mist_change_set ::
  "('v, 's, 'c) change_env \<Rightarrow> caller_ctx option \<Rightarrow> approve_args \<Rightarrow> ('s, 'c, json) act" where
  "approve_mist_change_set env caller args =
     (let approver = principal_of caller;
          actor = actor_of caller;
          device = object_key (ca_object args) (ca_object_id args) in
      bind_act (outside (co_approve (ce_coordinator env) (ca_change_set_id args) device approver
          (ca_plan_digest args) actor)
        [EvApprove (ca_change_set_id args) device approver (ca_plan_digest args) actor]) (\<lambda>approved.
      case approved of
        Inl e \<Rightarrow>
          refuse (if coe_field e = ''change_set_id'' \<and> str_contains ''own plan'' (coe_message e)
            then AuditDeny ''self-approval'' else AuditFail) (ToolCoordinator e)
      | Inr change_set_id \<Rightarrow>
          ret (JObj [(''change_set_id'', JStr change_set_id), (''state'', JStr ''approved''),
            (''expires_in_seconds'', JNum (PosInt (co_approval_ttl (ce_coordinator env))))])))"

section \<open>Properties of a plan\<close>

lemma run_dispatch_act:
  "run (dispatch_act env caller rd) w =
     (let out = catalogued (ce_server env) caller (w_client w) rd in
      (w\<lparr>w_client := do_client out,
         w_events := w_events w @ map (\<lambda>(r, p). EvCall r p) (do_calls out)\<rparr>,
       Inr (ce_tool_result env (do_result out))))"
  by (simp add: dispatch_act_def Let_def)

lemma emits_dispatch_act:
  assumes "\<And>r. req_json r = None \<Longrightarrow> P (EvCall r (call_priority_for caller))"
  shows "emits (dispatch_act env caller rd) P"
proof -
  have "list_all P (map (\<lambda>(r, p). EvCall r p) (do_calls (catalogued (ce_server env) caller c rd)))" for c
    by (auto simp: dispatch_calls intro!: assms dest!: check_read_request split: sum.split)
  then show ?thesis by (simp add: emits_def run_dispatch_act Let_def)
qed

lemma emits_internal_read:
  assumes "\<And>r. req_json r = None \<Longrightarrow> P (EvCall r (call_priority_for caller))"
  shows "emits (internal_read env caller what rd) P"
  unfolding internal_read_def
  by (intro emits_rules emits_dispatch_act assms) (auto intro: emits_rules)

lemma internal_read_no_write: "emits (internal_read env caller what rd) (\<lambda>e. \<not> is_write e)"
  by (rule emits_internal_read) (simp add: is_write_def)

lemma dispatch_act_no_write: "emits (dispatch_act env caller rd) (\<lambda>e. \<not> is_write e)"
  by (rule emits_dispatch_act) (simp add: is_write_def)

lemma reject_config_Inl: "reject_config_authority v = Inl e \<Longrightarrow> e = MistConfigured"
proof (induction v)
  case (JArr xs)
  then show ?case using try_each_Inl [of reject_config_authority xs e] by auto
next
  case (JObj m)
  then show ?case
    using try_each_Inl [of "\<lambda>(k, v). reject_config_authority v" m e] by (auto split: if_splits)
qed simp_all

lemma reject_placeholder_Inl: "reject_redaction_placeholder v = Inl e \<Longrightarrow> e = RedactionPlaceholder"
proof (induction v)
  case (JArr xs)
  then show ?case using try_each_Inl [of reject_redaction_placeholder xs e] by auto
next
  case (JObj m)
  then show ?case
    using try_each_Inl [of "\<lambda>(k, v). reject_redaction_placeholder v" m e] by (auto split: if_splits)
qed (auto split: if_splits)

lemma config_accepted: "reject_config_authority v \<noteq> Inl MistConfigured \<longleftrightarrow> reject_config_authority v = Inr ()"
  using reject_config_Inl by (cases "reject_config_authority v") auto

lemma placeholder_accepted:
  "reject_redaction_placeholder v \<noteq> Inl RedactionPlaceholder \<longleftrightarrow> reject_redaction_placeholder v = Inr ()"
  using reject_placeholder_Inl by (cases "reject_redaction_placeholder v") auto

definition plan_accepted :: "handler \<Rightarrow> plan_args \<Rightarrow> bool" where
  "plan_accepted h args \<longleftrightarrow> reject_config_authority (pa_patch args) = Inr () \<and>
     reject_redaction_placeholder (pa_patch args) = Inr () \<and> pa_org_id args \<in> set (h_allowed_orgs h)"

lemma plan_checks_Inr: "run (plan_checks h args) w = (w', Inr u) \<longleftrightarrow> w' = w \<and> plan_accepted h args"
  by (auto simp: plan_checks_def act_simps config_accepted placeholder_accepted plan_accepted_def list_ex_iff)

lemma plan_checks_world: "fst (run (plan_checks h args) w) = w"
  by (auto simp: plan_checks_def run_steps)

lemma plan_before_emits: "emits (plan_before env caller args) (\<lambda>e. \<not> is_write e)"
  unfolding plan_before_def
  by (auto intro: emits_rules internal_read_no_write split: option.split)

lemma stage_plan_emits: "emits (stage_plan env owner x i org before after) (\<lambda>e. \<not> is_write e)"
  unfolding stage_plan_def Let_def by (intro emits_rules) (simp_all add: is_write_def)

lemma plan_propose_emits: "emits (plan_propose env args owner staged) (\<lambda>e. \<not> is_write e)"
  unfolding plan_propose_def by (auto intro!: emits_rules simp: is_write_def split: option.split)

lemma plan_waive_emits: "emits (plan_waive env args owner staged) (\<lambda>e. \<not> is_write e)"
  unfolding plan_waive_def by (auto intro!: emits_rules simp: is_write_def)

lemma plan_checks_emits: "emits (plan_checks h args) P"
  unfolding plan_checks_def by (intro emits_rules)

lemma plan_emits: "emits (plan_mist_change env caller args) (\<lambda>e. \<not> is_write e)"
  unfolding plan_mist_change_def Let_def
  by (intro emits_rules plan_checks_emits plan_before_emits stage_plan_emits plan_propose_emits plan_waive_emits)

text \<open>C9: A plan changes nothing in Mist: it sends no request with a body, and a patch that sets
  \<open>mist_configured\<close> or contains the redaction placeholder, or an organization that is not
  configured, is refused before it has any effect at all.\<close>

theorem plan_has_no_write:
  "writes_in (w_events (fst (run (plan_mist_change env caller args) w))) = writes_in (w_events w) \<and>
   (plan_accepted (sv_handler (ce_server env)) args \<or> fst (run (plan_mist_change env caller args) w) = w)"
proof
  show "writes_in (w_events (fst (run (plan_mist_change env caller args) w))) = writes_in (w_events w)"
    by (rule emits_no_write [OF plan_emits]) (rule prod.collapse [symmetric])
  have "fst (run (plan_mist_change env caller args) w) = w" if "\<not> plan_accepted (sv_handler (ce_server env)) args"
    using that plan_checks_Inr [of "sv_handler (ce_server env)" args w]
      plan_checks_world [of "sv_handler (ce_server env)" args w]
    by (auto simp: plan_mist_change_def Let_def run_bind split: prod.split sum.split)
  then show "plan_accepted (sv_handler (ce_server env)) args \<or> fst (run (plan_mist_change env caller args) w) = w"
    by blast
qed

lemma emits_all: "(\<And>e. P e) \<Longrightarrow> list_all P evs"
  by (simp add: list_all_iff)

lemma plan_before_Inr:
  "run (plan_before env caller args) w = (w1, Inr before) \<longleftrightarrow>
     pa_verb args = VerbCreate \<and> before = JNull \<and> w1 = w \<or>
     (\<exists>i. pa_verb args = VerbUpdate \<and> pa_object_id args = Some i \<and>
       run (internal_read env caller ''read'' (object_read ''plan_mist_change''
         (write_target (pa_object args) VerbUpdate) i (pa_org_id args))) w = (w1, Inr before))"
  by (cases "pa_verb args") (auto simp: plan_before_def act_simps split: option.splits)

lemma plan_propose_events:
  "run (plan_propose env args owner staged) w = (w', Inr u) \<Longrightarrow>
     \<exists>evs. w_events w' = w_events w @ evs \<and> set evs \<subseteq> {EvProposal (sp_change_set_id staged)}"
  by (auto simp: plan_propose_def act_simps split: option.splits)

lemma plan_waive_events:
  "run (plan_waive env args owner staged) w = (w', Inr u) \<Longrightarrow>
     w_events w' = w_events w @ (if h_lab_mode (sv_handler (ce_server env)) then [EvWaive (sp_change_set_id staged)] else [])"
  by (auto simp: plan_waive_def act_simps split: if_splits)


end
