(* ===== verification/Apply.thy ===== *)
theory Apply
  imports Plan
begin

text \<open>
  \<open>server/mod.rs\<close>, \<open>apply_mist_change_set\<close>, split at its numbered steps: the guard and the state of
  the record, the preview, the drift check, the intent, the claim, the write, the identifier of a
  created object, the verification and the final state. The device guard is held from
  the first step to the end, whatever the end is.
\<close>

section \<open>Step 1: the device guard\<close>

definition device_guarded ::
  "('v, 's, 'c) change_env \<Rightarrow> string \<Rightarrow> ('s, 'c, 'a) act \<Rightarrow> ('s, 'c, 'a) act" where
  "device_guarded env device m =
     (let co = ce_coordinator env in
      bind_act (outside (co_guard co device) []) (\<lambda>guard.
      bind_act (or_refuse AuditFail ToolCoordinator guard) (\<lambda>_.
      finally_do m (outside (\<lambda>s. (co_release co device s, ())) []))))"

section \<open>Steps 2 and 3: the record\<close>

definition apply_record ::
  "('v, 's, 'c) change_env \<Rightarrow> change_set_args \<Rightarrow> ('s, 'c, change_set) act" where
  "apply_record env args =
     (let co = ce_coordinator env; device = object_key (ca_object args) (ca_object_id args) in
      bind_act (outside (co_change_set co (ca_change_set_id args) device) []) (\<lambda>found.
      bind_act (or_refuse AuditFail ToolCoordinator found) (\<lambda>rec.
      bind_act (require (cs_state rec = StateApproved) AuditFail
        (''change set is '' @ ce_state_name env (cs_state rec) @ '', not approved'')) (\<lambda>_.
      bind_act (reading (ce_now env)) (\<lambda>clock.
      bind_act (or_refuse AuditFail (\<lambda>e. ToolProtocol (''time error: '' @ e)) clock) (\<lambda>now.
      bind_act (require (now \<le> cs_expires_at_unix rec) AuditFail
        (''approval expired at unix timestamp '' @ dec_nat (unat (cs_expires_at_unix rec)))) (\<lambda>_.
      ret rec)))))))"

text \<open>The body to write and the organization, out of the stored preview.\<close>

definition apply_preview ::
  "('v, 's, 'c) change_env \<Rightarrow> change_set \<Rightarrow> ('s, 'c, json \<times> string) act" where
  "apply_preview env rec =
     (case cs_preview rec of
        None \<Rightarrow> refuse AuditFail (ToolText ''change set has no preview'')
      | Some preview \<Rightarrow>
          bind_act (or_refuse AuditFail (\<lambda>e. ToolText (''failed to parse preview: '' @ e))
            (ce_from_str env (pv_artifact preview))) (\<lambda>parsed.
          (case Option.bind (jget parsed ''org_id'') as_str of
             None \<Rightarrow> refuse AuditFail
               (ToolText ''change set was planned before org-scope fix and must be re-planned'')
           | Some org_id \<Rightarrow> ret (preview_member parsed ''after'', org_id))))"

definition apply_verb :: "change_set \<Rightarrow> write_verb" where
  "apply_verb rec = (if cs_fingerprint rec = ''create'' then VerbCreate else VerbUpdate)"

definition apply_object_id :: "change_set \<Rightarrow> change_set_args \<Rightarrow> ('s, 'c, string) act" where
  "apply_object_id rec args =
     (if apply_verb rec = VerbUpdate then
        (case ca_object_id args of
           Some i \<Rightarrow> ret i
         | None \<Rightarrow> refuse AuditFail (ToolText ''update requires object_id''))
      else ret [])"

section \<open>Step 4: the drift check\<close>

text \<open>On drift the record is claimed, so that it can be marked failed, and the call refused.\<close>

definition settle_drift :: "('v, 's, 'c) change_env \<Rightarrow> change_set \<Rightarrow> ('s, 'c, unit) act" where
  "settle_drift env rec =
     (let co = ce_coordinator env in
      bind_act (outside (co_claim co (cs_id rec) (cs_device rec) HandleExpected)
          [EvClaim (cs_id rec) HandleExpected]) (\<lambda>claimed.
      bind_act (case claimed of
          Inl _ \<Rightarrow> ret ()
        | Inr c \<Rightarrow> (let failed = c\<lparr>cs_state := StateFailed\<rparr> in
            bind_act (outside (co_update co failed) [EvUpdate failed]) (\<lambda>_. ret ()))) (\<lambda>_.
      refuse AuditFail (ToolText ''object has been modified since planning; fingerprint mismatch''))))"

definition drift_check ::
  "('v, 's, 'c) change_env \<Rightarrow> caller_ctx option \<Rightarrow> change_set \<Rightarrow> write_target_info \<Rightarrow> string \<Rightarrow> string
    \<Rightarrow> ('s, 'c, bool) act" where
  "drift_check env caller rec target object_id org_id =
     (if apply_verb rec = VerbUpdate then
        bind_act (internal_read env caller ''drift check''
          (object_read ''apply_mist_change_set'' target object_id org_id)) (\<lambda>current.
        bind_act (or_refuse AuditFail (\<lambda>e. ToolText (''failed to serialize current state: '' @ e))
          (ce_to_vec env current)) (\<lambda>canonical.
        bind_act (if fingerprint_of env canonical \<noteq> cs_fingerprint rec then settle_drift env rec else ret ()) (\<lambda>_.
        ret True)))
      else ret False)"

section \<open>Step 5: the organization, the intent, the claim\<close>

definition apply_org :: "handler \<Rightarrow> string \<Rightarrow> ('s, 'c, unit) act" where
  "apply_org h org_id =
     require (list_ex (\<lambda>allowed. allowed = org_id) (h_allowed_orgs h)) (AuditDeny ''org not in allowed_orgs'')
       (''organization '' @ org_id @ '' is not in the server's allowed organizations'')"

definition apply_intent ::
  "('v, 's, 'c) change_env \<Rightarrow> string \<Rightarrow> string \<Rightarrow> change_set \<Rightarrow> ('s, 'c, unit) act" where
  "apply_intent env request_id who rec =
     (case ce_evidence env of
        None \<Rightarrow> ret ()
      | Some recorder \<Rightarrow>
          bind_act (outside (rc_apply_intent recorder request_id (cs_id rec) (cs_device rec) who)
            [EvIntent (cs_id rec) who])
          (or_refuse AuditFail (\<lambda>e. ToolText (''apply refused: the apply-intent evidence record could not be ''
             @ ''persisted ('' @ e @ ''); the change set is still approved and can be retried''))))"

definition apply_claim :: "('v, 's, 'c) change_env \<Rightarrow> change_set \<Rightarrow> ('s, 'c, change_set) act" where
  "apply_claim env rec =
     bind_act (outside (co_claim (ce_coordinator env) (cs_id rec) (cs_device rec) HandleNone)
         [EvClaim (cs_id rec) HandleNone])
       (or_refuse AuditFail ToolCoordinator)"

section \<open>Step 6: the write\<close>

definition write_request_of :: "write_target_info \<Rightarrow> write_verb \<Rightarrow> string \<Rightarrow> string \<Rightarrow> json \<Rightarrow> mist_request" where
  "write_request_of target verb object_id org_id after =
     \<lparr>req_operation_id = wt_write_operation_id target,
      req_path = (let path = bt_insert ''org_id'' org_id bt_empty in
        if verb = VerbUpdate then bt_insert (wt_id_path_name target) object_id path else path),
      req_query = bt_empty, req_json = Some after, req_cursor = None\<rparr>"

definition client_act ::
  "('v, 's, 'c) change_env \<Rightarrow> mist_request \<Rightarrow> call_priority \<Rightarrow> ('s, 'c, mist_error + mist_response) act" where
  "client_act env r priority = Step (\<lambda>w.
     case sv_exec (ce_server env) (w_client w) r priority of (c, outcome) \<Rightarrow>
       (w\<lparr>w_client := c, w_events := w_events w @ [EvCall r priority]\<rparr>, Done (Inr outcome)))"

lemma run_client_act:
  "run (client_act env r priority) w =
     (case sv_exec (ce_server env) (w_client w) r priority of (c, outcome) \<Rightarrow>
       (w\<lparr>w_client := c, w_events := w_events w @ [EvCall r priority]\<rparr>, Inr outcome))"
  by (simp add: client_act_def split: prod.split)

text \<open>Mark the record failed, dropping an error of that update, and refuse.\<close>

definition settle_failed ::
  "('v, 's, 'c) change_env \<Rightarrow> change_set \<Rightarrow> tool_error \<Rightarrow> ('s, 'c, 'a) act" where
  "settle_failed env rec e =
     (let failed = rec\<lparr>cs_state := StateFailed\<rparr> in
      bind_act (outside (co_update (ce_coordinator env) failed) [EvUpdate failed]) (\<lambda>_. refuse AuditFail e))"

definition apply_write ::
  "('v, 's, 'c) change_env \<Rightarrow> caller_ctx option \<Rightarrow> change_set \<Rightarrow> mist_request
    \<Rightarrow> ('s, 'c, mist_response) act" where
  "apply_write env caller rec write_request =
     bind_act (client_act env write_request (call_priority_for caller)) (\<lambda>outcome.
     case outcome of
       Inr response \<Rightarrow> ret response
     | Inl e \<Rightarrow> settle_failed env rec (ToolWrite e))"

section \<open>Steps 7 and 8: the receipt, the verification, the final state\<close>

definition result_receipt ::
  "('v, 's, 'c) change_env \<Rightarrow> string \<Rightarrow> string \<Rightarrow> change_set \<Rightarrow> bool \<Rightarrow> string \<Rightarrow> ('s, 'c, unit) act" where
  "result_receipt env request_id who rec success reason =
     (case ce_evidence env of
        None \<Rightarrow> ret ()
      | Some recorder \<Rightarrow>
          bind_act (outside (rc_result_receipt recorder request_id (cs_id rec) (cs_device rec) who success reason)
            [EvReceipt (cs_id rec) success]) (\<lambda>_. ret ()))"

definition failure_receipt ::
  "('v, 's, 'c) change_env \<Rightarrow> string \<Rightarrow> string \<Rightarrow> change_set \<Rightarrow> string \<Rightarrow> ('s, 'c, unit) act" where
  "failure_receipt env request_id who rec reason =
     result_receipt env request_id who rec False reason"

definition created_object_id :: "response_body \<Rightarrow> string + string" where
  "created_object_id body =
     (case body of
        BodyJson v \<Rightarrow> (case jget v ''id'' of
            Some (JStr i) \<Rightarrow> Inr i
          | _ \<Rightarrow> Inl ''create response missing id field'')
      | _ \<Rightarrow> Inl ''create response was not JSON'')"

definition final_object_id ::
  "('v, 's, 'c) change_env \<Rightarrow> string \<Rightarrow> string \<Rightarrow> change_set \<Rightarrow> write_verb \<Rightarrow> string
    \<Rightarrow> mist_response \<Rightarrow> ('s, 'c, string) act" where
  "final_object_id env request_id who rec verb object_id response =
     (if verb = VerbCreate then
        (case created_object_id (resp_body response) of
           Inr i \<Rightarrow> ret i
         | Inl reason \<Rightarrow>
             bind_act (failure_receipt env request_id who rec reason) (\<lambda>_.
             settle_failed env rec (ToolText reason)))
      else ret object_id)"

definition verified_data :: "('v, 's, 'c) change_env \<Rightarrow> call_result \<Rightarrow> json \<Rightarrow> bool" where
  "verified_data env result after =
     (\<not> cr_is_error result \<and> (case result_data env ''verify'' result of Inl _ \<Rightarrow> False | Inr data \<Rightarrow> json_eq data after))"

definition apply_verify ::
  "('v, 's, 'c) change_env \<Rightarrow> caller_ctx option \<Rightarrow> write_target_info \<Rightarrow> string \<Rightarrow> string \<Rightarrow> json
    \<Rightarrow> ('s, 'c, bool) act" where
  "apply_verify env caller target object_id org_id after =
     bind_act (dispatch_act env caller (object_read ''apply_mist_change_set'' target object_id org_id))
       (\<lambda>result. ret (verified_data env result after))"

definition apply_finish ::
  "('v, 's, 'c) change_env \<Rightarrow> change_set \<Rightarrow> bool \<Rightarrow> ('s, 'c, change_set) act" where
  "apply_finish env rec verified =
     (let settled = rec\<lparr>cs_state := (if verified then StateApplied else StateFailed)\<rparr> in
      bind_act (outside (co_update (ce_coordinator env) settled) [EvUpdate settled]) (\<lambda>updated.
      bind_act (or_refuse AuditFail ToolCoordinator updated) (\<lambda>_. ret settled)))"

section \<open>\<open>apply_mist_change_set\<close>\<close>

text \<open>What is known when the write may be issued.\<close>

record apply_ready =
  rd_record :: change_set
  rd_after :: json
  rd_org_id :: string
  rd_object_id :: string
  rd_drift_checked :: bool

definition apply_prepare ::
  "('v, 's, 'c) change_env \<Rightarrow> caller_ctx option \<Rightarrow> change_set_args \<Rightarrow> ('s, 'c, apply_ready) act" where
  "apply_prepare env caller args =
     bind_act (apply_record env args) (\<lambda>rec.
     bind_act (apply_preview env rec) (\<lambda>(after, org_id).
     bind_act (apply_object_id rec args) (\<lambda>object_id.
     bind_act (drift_check env caller rec (write_target (ca_object args) (apply_verb rec)) object_id org_id)
       (\<lambda>drift_checked.
     bind_act (apply_org (sv_handler (ce_server env)) org_id) (\<lambda>_.
     ret \<lparr>rd_record = rec, rd_after = after, rd_org_id = org_id, rd_object_id = object_id,
          rd_drift_checked = drift_checked\<rparr>)))))"

definition apply_request_id :: "caller_ctx option \<Rightarrow> string" where
  "apply_request_id caller = (case caller of None \<Rightarrow> ''stdio'' | Some ctx \<Rightarrow> ca_request_id ctx)"

text \<open>From the response of the write to the final state.\<close>

definition apply_settle ::
  "('v, 's, 'c) change_env \<Rightarrow> caller_ctx option \<Rightarrow> change_set_args \<Rightarrow> apply_ready \<Rightarrow> change_set
    \<Rightarrow> mist_response \<Rightarrow> ('s, 'c, json) act" where
  "apply_settle env caller args ready rec response =
     (let request_id = apply_request_id caller; who = principal_of caller;
          verb = apply_verb (rd_record ready);
          target = write_target (ca_object args) verb; after = rd_after ready in
      bind_act (final_object_id env request_id who rec verb (rd_object_id ready) response) (\<lambda>object_id.
      bind_act (apply_verify env caller target object_id (rd_org_id ready) after) (\<lambda>verified.
      bind_act (result_receipt env request_id who rec verified
        (if verified then [] else ''write not verified'')) (\<lambda>_.
      bind_act (apply_finish env rec verified) (\<lambda>settled.
      ret (JObj [(''change_set_id'', JStr (ca_change_set_id args)),
        (''state'', JStr (ce_state_name env (cs_state settled))), (''object_id'', JStr object_id),
        (''drift_checked'', JBool (rd_drift_checked ready)), (''verified'', JBool verified)]))))))"

text \<open>The write of a change that is ready.\<close>

definition ready_write :: "change_set_args \<Rightarrow> apply_ready \<Rightarrow> mist_request" where
  "ready_write args ready =
     (let verb = apply_verb (rd_record ready) in
      write_request_of (write_target (ca_object args) verb) verb (rd_object_id ready) (rd_org_id ready) (rd_after ready))"

definition apply_commit ::
  "('v, 's, 'c) change_env \<Rightarrow> caller_ctx option \<Rightarrow> change_set_args \<Rightarrow> apply_ready \<Rightarrow> ('s, 'c, json) act" where
  "apply_commit env caller args ready =
     bind_act (apply_intent env (apply_request_id caller) (principal_of caller) (rd_record ready)) (\<lambda>_.
     bind_act (apply_claim env (rd_record ready)) (\<lambda>rec.
     bind_act (apply_write env caller rec (ready_write args ready)) (\<lambda>response.
     apply_settle env caller args ready rec response)))"

definition apply_mist_change_set ::
  "('v, 's, 'c) change_env \<Rightarrow> caller_ctx option \<Rightarrow> change_set_args \<Rightarrow> ('s, 'c, json) act" where
  "apply_mist_change_set env caller args =
     device_guarded env (object_key (ca_object args) (ca_object_id args))
       (bind_act (apply_prepare env caller args) (apply_commit env caller args))"

section \<open>What an apply establishes before it writes\<close>

text \<open>What makes the write of a record permissible.\<close>

definition unspent_approval :: "('v, 's, 'c) change_env \<Rightarrow> change_set_args \<Rightarrow> change_set \<Rightarrow> bool" where
  "unspent_approval env args rec \<longleftrightarrow>
     cs_state rec = StateApproved \<and>
     (\<exists>s s'. co_change_set (ce_coordinator env) (ca_change_set_id args)
        (object_key (ca_object args) (ca_object_id args)) s = (s', Inr rec) \<and>
      (\<exists>now. ce_now env s' = Inr now \<and> now \<le> cs_expires_at_unix rec))"

definition planned_write :: "('v, 's, 'c) change_env \<Rightarrow> change_set \<Rightarrow> json \<Rightarrow> string \<Rightarrow> bool" where
  "planned_write env rec after org_id \<longleftrightarrow>
     (\<exists>preview parsed. cs_preview rec = Some preview \<and> ce_from_str env (pv_artifact preview) = Inr parsed \<and>
        jget parsed ''org_id'' = Some (JStr org_id) \<and> after = preview_member parsed ''after'')"

text \<open>An update found the object with the fingerprint of the plan; a creation has none to compare.\<close>

definition undrifted ::
  "('v, 's, 'c) change_env \<Rightarrow> caller_ctx option \<Rightarrow> change_set_args \<Rightarrow> change_set \<Rightarrow> string \<Rightarrow> string \<Rightarrow> bool" where
  "undrifted env caller args rec object_id org_id \<longleftrightarrow>
     (case apply_verb rec of
        VerbCreate \<Rightarrow> object_id = []
      | VerbUpdate \<Rightarrow> ca_object_id args = Some object_id \<and>
          (\<exists>w w' current canonical.
             run (internal_read env caller ''drift check'' (object_read ''apply_mist_change_set''
               (write_target (ca_object args) VerbUpdate) object_id org_id)) w = (w', Inr current) \<and>
             ce_to_vec env current = Inr canonical \<and> fingerprint_of env canonical = cs_fingerprint rec))"

lemma apply_record_Inr:
  assumes "run (apply_record env args) w = (w', Inr rec)"
  shows "unspent_approval env args rec"
proof -
  obtain s s' now where "co_change_set (ce_coordinator env) (ca_change_set_id args)
      (object_key (ca_object args) (ca_object_id args)) s = (s', Inr rec)"
      "cs_state rec = StateApproved" "ce_now env s' = Inr now" "now \<le> cs_expires_at_unix rec"
    using assms by (fastforce simp: apply_record_def Let_def act_simps)
  then show ?thesis unfolding unspent_approval_def by blast
qed

lemma apply_preview_Inr:
  "run (apply_preview env rec) w = (w', Inr (after, org_id)) \<Longrightarrow> planned_write env rec after org_id"
  by (auto simp: apply_preview_def act_simps planned_write_def bind_eq_Some_conv split: option.splits)

lemma settle_drift_refuses: "run (settle_drift env rec) w \<noteq> (w', Inr u)"
  by (simp add: settle_drift_def Let_def act_simps)

lemma drift_check_Inr:
  assumes "run (drift_check env caller rec (write_target (ca_object args) (apply_verb rec)) object_id org_id) w = (w', Inr checked)"
    and "run (apply_object_id rec args) w0 = (w0', Inr object_id)"
  shows "undrifted env caller args rec object_id org_id \<and> checked = (apply_verb rec = VerbUpdate)"
  using assms
  by (cases "apply_verb rec")
    (auto simp: drift_check_def apply_object_id_def undrifted_def act_simps settle_drift_refuses
      split: option.splits if_splits)

lemma apply_prepare_Inr:
  assumes "run (apply_prepare env caller args) w = (w', Inr ready)"
  shows "unspent_approval env args (rd_record ready)"
    "planned_write env (rd_record ready) (rd_after ready) (rd_org_id ready)"
    "undrifted env caller args (rd_record ready) (rd_object_id ready) (rd_org_id ready)"
    "rd_org_id ready \<in> set (h_allowed_orgs (sv_handler (ce_server env)))"
    "rd_drift_checked ready = (apply_verb (rd_record ready) = VerbUpdate)"
proof -
  obtain w1 rec after org_id object_id checked w2 w3 w4 where *:
    "run (apply_record env args) w = (w1, Inr rec)" "run (apply_preview env rec) w1 = (w2, Inr (after, org_id))"
    "run (apply_object_id rec args) w2 = (w3, Inr object_id)"
    "run (drift_check env caller rec (write_target (ca_object args) (apply_verb rec)) object_id org_id) w3 = (w4, Inr checked)"
    "org_id \<in> set (h_allowed_orgs (sv_handler (ce_server env)))"
    "ready = \<lparr>rd_record = rec, rd_after = after, rd_org_id = org_id, rd_object_id = object_id,
       rd_drift_checked = checked\<rparr>"
    using assms by (auto simp: apply_prepare_def act_simps apply_org_def list_ex_iff split: prod.splits)
  show "unspent_approval env args (rd_record ready)"
    "planned_write env (rd_record ready) (rd_after ready) (rd_org_id ready)"
    "undrifted env caller args (rd_record ready) (rd_object_id ready) (rd_org_id ready)"
    "rd_org_id ready \<in> set (h_allowed_orgs (sv_handler (ce_server env)))"
    "rd_drift_checked ready = (apply_verb (rd_record ready) = VerbUpdate)"
    using * apply_record_Inr [OF *(1)] apply_preview_Inr [OF *(2)] drift_check_Inr [OF *(4,3)] by simp_all
qed

section \<open>The trace of an apply\<close>

text \<open>Before the intent an apply only reads; on drift it claims the record and marks it failed.\<close>

definition preparing :: "event \<Rightarrow> bool" where
  "preparing e \<longleftrightarrow> (case e of
     EvCall r _ \<Rightarrow> req_json r = None
   | EvClaim _ handle \<Rightarrow> handle = HandleExpected
   | EvUpdate c \<Rightarrow> cs_state c = StateFailed
   | _ \<Rightarrow> False)"

lemma settle_drift_emits: "emits (settle_drift env rec) preparing"
  unfolding settle_drift_def Let_def
  by (intro emits_rules) (auto simp: preparing_def intro!: emits_rules split: sum.split)

lemma drift_check_emits: "emits (drift_check env caller rec target object_id org_id) preparing"
  unfolding drift_check_def
  by (auto intro!: emits_rules emits_internal_read settle_drift_emits simp: preparing_def)

lemma apply_prepare_emits: "emits (apply_prepare env caller args) preparing"
  unfolding apply_prepare_def apply_record_def apply_preview_def apply_object_id_def apply_org_def Let_def
  by (auto intro!: emits_rules drift_check_emits split: option.split prod.split)

lemma preparing_no_write: "preparing e \<Longrightarrow> \<not> is_write e"
  by (auto simp: preparing_def is_write_def split: event.splits)

lemma bind_act_cases:
  "run (bind_act m f) w = (w', r) \<longleftrightarrow> (\<exists>e. run m w = (w', Inl e) \<and> r = Inl e) \<or>
     (\<exists>w1 x. run m w = (w1, Inr x) \<and> run (f x) w1 = (w', r))"
  by (auto simp: run_bind split: prod.splits sum.splits)

text \<open>A guarded handler is refused the guard, or runs, with the same trace.\<close>

lemma run_guarded:
  assumes "run (device_guarded env device m) w = (w', r)"
  shows "\<exists>w0. w_events w0 = w_events w \<and> w_client w0 = w_client w \<and>
    w_outside w0 = fst (co_guard (ce_coordinator env) device (w_outside w)) \<and>
    ((\<exists>e. w' = w0 \<and> r = Inl e) \<or> (\<exists>w1. run m w0 = (w1, r) \<and> w_events w' = w_events w1 \<and> w_client w' = w_client w1 \<and>
      w_outside w' = co_release (ce_coordinator env) device (w_outside w1)))"
proof -
  obtain s g where g: "co_guard (ce_coordinator env) device (w_outside w) = (s, g)" by fastforce
  let ?w0 = "w\<lparr>w_outside := s\<rparr>"
  have run: "(case g of Inl e \<Rightarrow> (?w0, Inl (AuditFail, ToolCoordinator e)) | Inr u \<Rightarrow>
      run (finally_do m (outside (\<lambda>s. (co_release (ce_coordinator env) device s, ())) [])) ?w0) = (w', r)"
    using assms g by (simp add: device_guarded_def Let_def run_steps split: sum.splits)
  show ?thesis
  proof (cases g)
    case (Inl e)
    with run g show ?thesis by (intro exI [of _ ?w0]) auto
  next
    case (Inr u)
    obtain w1 q where m: "run m ?w0 = (w1, q)" by fastforce
    with run Inr have "w' = w1\<lparr>w_outside := co_release (ce_coordinator env) device (w_outside w1)\<rparr>" "r = q"
      by (auto simp: run_finally run_outside)
    with m g show ?thesis by (intro exI [of _ ?w0] conjI disjI2 exI [of _ w1]) auto
  qed
qed

lemma or_refuse_events: "run (or_refuse out f r) w = (w', x) \<Longrightarrow> w' = w"
  by (auto simp: run_or_refuse)

definition intent_events :: "('v, 's, 'c) change_env \<Rightarrow> caller_ctx option \<Rightarrow> change_set \<Rightarrow> event list" where
  "intent_events env caller rec =
     (if ce_evidence env = None then [] else [EvIntent (cs_id rec) (principal_of caller)])"

definition receipt_events :: "('v, 's, 'c) change_env \<Rightarrow> change_set \<Rightarrow> bool \<Rightarrow> event list" where
  "receipt_events env rec success = (if ce_evidence env = None then [] else [EvReceipt (cs_id rec) success])"

lemma apply_intent_events:
  "run (apply_intent env request_id (principal_of caller) rec) w = (w', r) \<Longrightarrow>
     w_events w' = w_events w @ intent_events env caller rec"
  by (auto simp: apply_intent_def intent_events_def run_ret bind_act_cases outside_iff
      dest!: or_refuse_events split: option.splits)

lemma apply_claim_events:
  "run (apply_claim env rec) w = (w', r) \<Longrightarrow> w_events w' = w_events w @ [EvClaim (cs_id rec) HandleNone]"
  by (auto simp: apply_claim_def bind_act_cases outside_iff dest!: or_refuse_events)

lemma apply_claim_Inr:
  "run (apply_claim env rec) w = (w', Inr c) \<Longrightarrow>
     \<exists>s s'. co_claim (ce_coordinator env) (cs_id rec) (cs_device rec) HandleNone s = (s', Inr c)"
  by (auto simp: apply_claim_def act_simps)

lemma settle_failed_iff:
  "run (settle_failed env rec e) w = (w', r) \<Longrightarrow>
     w_events w' = w_events w @ [EvUpdate (rec\<lparr>cs_state := StateFailed\<rparr>)] \<and> r = Inl (AuditFail, e)"
  by (auto simp: settle_failed_def Let_def bind_act_cases outside_iff run_refuse)

lemma apply_write_events:
  assumes "run (apply_write env caller rec q) w = (w', r)"
  shows "w_events w' = w_events w @ EvCall q (call_priority_for caller) #
    (case r of Inl _ \<Rightarrow> [EvUpdate (rec\<lparr>cs_state := StateFailed\<rparr>)] | Inr _ \<Rightarrow> [])"
  using assms
  by (auto simp: apply_write_def bind_act_cases run_client_act run_ret dest!: settle_failed_iff
      split: prod.splits sum.splits)

lemma result_receipt_iff:
  "run (result_receipt env request_id who rec success reason) w = (w', r) \<Longrightarrow>
     w_events w' = w_events w @ receipt_events env rec success \<and> r = Inr ()"
  by (auto simp: result_receipt_def receipt_events_def run_ret bind_act_cases outside_iff split: option.splits)

lemma final_object_id_events:
  assumes "run (final_object_id env request_id who rec verb object_id response) w = (w', r)"
  shows "w_events w' = w_events w @ (case r of
      Inl _ \<Rightarrow> receipt_events env rec False @ [EvUpdate (rec\<lparr>cs_state := StateFailed\<rparr>)] | Inr _ \<Rightarrow> [])"
  using assms
  by (auto simp: final_object_id_def failure_receipt_def bind_act_cases run_ret
      dest!: settle_failed_iff result_receipt_iff split: if_splits sum.splits)

lemma apply_verify_events:
  assumes "run (apply_verify env caller target object_id org_id after) w = (w', r)"
  shows "\<exists>reads result. w_events w' = w_events w @ reads \<and> list_all preparing reads \<and>
    run (dispatch_act env caller (object_read ''apply_mist_change_set'' target object_id org_id)) w = (w', Inr result) \<and>
    r = Inr (verified_data env result after)"
proof -
  obtain w1 result where run: "run (dispatch_act env caller (object_read ''apply_mist_change_set'' target object_id org_id)) w
      = (w1, Inr result)" "w' = w1" "r = Inr (verified_data env result after)"
    using assms by (auto simp: apply_verify_def bind_act_cases run_ret run_dispatch_act Let_def)
  have "emits (dispatch_act env caller (object_read ''apply_mist_change_set'' target object_id org_id)) preparing"
    by (rule emits_dispatch_act) (simp add: preparing_def)
  then obtain reads where "w_events w1 = w_events w @ reads" "list_all preparing reads"
    using emits_run run(1) by blast
  then show ?thesis
    by (intro exI [of _ reads] exI [of _ result]) (simp add: run)
qed

lemma apply_finish_events:
  "run (apply_finish env rec verified) w = (w', r) \<Longrightarrow>
     w_events w' = w_events w @ [EvUpdate (rec\<lparr>cs_state := (if verified then StateApplied else StateFailed)\<rparr>)]"
  by (auto simp: apply_finish_def Let_def bind_act_cases outside_iff run_ret dest!: or_refuse_events)

text \<open>The final update of a record agrees with the verification of its write.\<close>

definition verified_outcome ::
  "('v, 's, 'c) change_env \<Rightarrow> caller_ctx option \<Rightarrow> change_set_args \<Rightarrow> apply_ready \<Rightarrow> bool \<Rightarrow> bool" where
  "verified_outcome env caller args ready verified \<longleftrightarrow>
     (\<exists>object_id w w' result. run (dispatch_act env caller (object_read ''apply_mist_change_set''
          (write_target (ca_object args) (apply_verb (rd_record ready))) object_id (rd_org_id ready))) w = (w', Inr result) \<and>
        verified = verified_data env result (rd_after ready))"

text \<open>
  What may follow the write: the record is marked failed when the request failed (with no
  receipt) or the created object has no identifier (with a receipt of failure); otherwise the
  verification read, the receipt and the final state, both as verified.
\<close>

definition after_write ::
  "('v, 's, 'c) change_env \<Rightarrow> caller_ctx option \<Rightarrow> change_set_args \<Rightarrow> apply_ready \<Rightarrow> change_set
    \<Rightarrow> event list \<Rightarrow> bool" where
  "after_write env caller args ready c tail \<longleftrightarrow>
     (let failed = EvUpdate (c\<lparr>cs_state := StateFailed\<rparr>) in
      tail = [failed] \<or> tail = receipt_events env c False @ [failed] \<or>
      (\<exists>reads verified. list_all preparing reads \<and> verified_outcome env caller args ready verified \<and>
         tail = reads @ receipt_events env c verified @
           [EvUpdate (c\<lparr>cs_state := (if verified then StateApplied else StateFailed)\<rparr>)]))"

definition claimed_for ::
  "('v, 's, 'c) change_env \<Rightarrow> change_set \<Rightarrow> change_set \<Rightarrow> bool" where
  "claimed_for env rec c \<longleftrightarrow>
     (\<exists>s s'. co_claim (ce_coordinator env) (cs_id rec) (cs_device rec) HandleNone s = (s', Inr c))"

text \<open>The trace of a commit: it may stop at the intent or the claim; else it writes, once.\<close>

definition commit_trace ::
  "('v, 's, 'c) change_env \<Rightarrow> caller_ctx option \<Rightarrow> change_set_args \<Rightarrow> apply_ready \<Rightarrow> event list \<Rightarrow> bool" where
  "commit_trace env caller args ready post \<longleftrightarrow>
     (let intent = intent_events env caller (rd_record ready);
          claim = [EvClaim (cs_id (rd_record ready)) HandleNone] in
      post = intent \<or> post = intent @ claim \<or>
      (\<exists>c tail. claimed_for env (rd_record ready) c \<and> after_write env caller args ready c tail \<and>
         post = intent @ claim @ EvCall (ready_write args ready) (call_priority_for caller) # tail))"

lemma apply_settle_trace:
  assumes run: "run (apply_settle env caller args ready c response) w = (w', r)"
  shows "\<exists>tail. after_write env caller args ready c tail \<and> w_events w' = w_events w @ tail"
proof -
  let ?who = "principal_of caller" and ?rid = "apply_request_id caller"
  let ?verb = "apply_verb (rd_record ready)"
  let ?target = "write_target (ca_object args) ?verb"
  obtain w4 r4 where fin: "run (final_object_id env ?rid ?who c ?verb (rd_object_id ready) response) w = (w4, r4)"
    by fastforce
  note e4 = final_object_id_events [OF fin]
  show ?thesis
  proof (cases r4)
    case (Inl e)
    with run fin e4 show ?thesis
      by (simp add: apply_settle_def Let_def bind_act_cases after_write_def)
  next
    case Inr4: (Inr object_id)
    obtain w5 r5 where ver: "run (apply_verify env caller ?target object_id (rd_org_id ready) (rd_after ready)) w4 = (w5, r5)"
      by fastforce
    obtain reads result where e5: "w_events w5 = w_events w4 @ reads" "list_all preparing reads"
        "run (dispatch_act env caller (object_read ''apply_mist_change_set'' ?target object_id (rd_org_id ready))) w4
           = (w5, Inr result)" "r5 = Inr (verified_data env result (rd_after ready))"
      using apply_verify_events [OF ver] by blast
    let ?v = "verified_data env result (rd_after ready)"
    obtain w6 r6 where rec: "run (result_receipt env ?rid ?who c ?v (if ?v then [] else ''write not verified'')) w5 = (w6, r6)"
      by fastforce
    note e6 = result_receipt_iff [OF rec]
    obtain w7 r7 where finish: "run (apply_finish env c ?v) w6 = (w7, r7)" by fastforce
    note e7 = apply_finish_events [OF finish]
    let ?tail = "reads @ receipt_events env c ?v @ [EvUpdate (c\<lparr>cs_state := (if ?v then StateApplied else StateFailed)\<rparr>)]"
    have w': "w' = w7"
      using run fin Inr4 ver e5(4) rec e6 finish by (auto simp: apply_settle_def Let_def bind_act_cases run_ret)
    have "verified_outcome env caller args ready ?v"
      unfolding verified_outcome_def using e5(3) by blast
    then have "after_write env caller args ready c ?tail"
      unfolding after_write_def Let_def using e5(2) by blast
    moreover have "w_events w' = w_events w @ ?tail"
      using e4 e5(1) e6 e7 Inr4 w' by simp
    ultimately show ?thesis by blast
  qed
qed

lemma apply_commit_trace:
  assumes run: "run (apply_commit env caller args ready) w = (w', r)"
  shows "\<exists>post. commit_trace env caller args ready post \<and> w_events w' = w_events w @ post"
proof -
  let ?rec = "rd_record ready" and ?call = "EvCall (ready_write args ready) (call_priority_for caller)"
  obtain w1 r1 where intent: "run (apply_intent env (apply_request_id caller) (principal_of caller) ?rec) w = (w1, r1)"
    by fastforce
  obtain w2 r2 where claim: "run (apply_claim env ?rec) w1 = (w2, r2)" by fastforce
  note e1 = apply_intent_events [OF intent] and e2 = apply_claim_events [OF claim]
  consider e where "r1 = Inl e" | u e where "r1 = Inr u" "r2 = Inl e" | u c where "r1 = Inr u" "r2 = Inr c"
    by (cases r1; cases r2) auto
  then show ?thesis
  proof cases
    case 3
    have claimed: "claimed_for env ?rec c"
      using apply_claim_Inr claim 3 unfolding claimed_for_def by blast
    obtain w3 r3 where wr: "run (apply_write env caller c (ready_write args ready)) w2 = (w3, r3)" by fastforce
    note e3 = apply_write_events [OF wr]
    have "\<exists>tail. after_write env caller args ready c tail \<and> w_events w' = w_events w2 @ ?call # tail"
    proof (cases r3)
      case (Inl e)
      with run intent claim 3 wr e3 show ?thesis
        by (simp add: apply_commit_def Let_def bind_act_cases after_write_def)
    next
      case (Inr response)
      with run intent claim 3 wr have "run (apply_settle env caller args ready c response) w3 = (w', r)"
        by (simp add: apply_commit_def bind_act_cases)
      from apply_settle_trace [OF this] Inr e3 show ?thesis by auto
    qed
    then show ?thesis using claimed e1 e2 by (fastforce simp: commit_trace_def)
  qed (use run intent claim e1 e2 in \<open>simp_all add: apply_commit_def Let_def bind_act_cases commit_trace_def\<close>)
qed

lemma apply_trace:
  "\<exists>pre post. w_events (fst (run (apply_mist_change_set env caller args) w)) = w_events w @ pre @ post \<and>
     list_all preparing pre \<and>
     (post = [] \<or> (\<exists>ready w0 w1. run (apply_prepare env caller args) w0 = (w1, Inr ready) \<and>
        commit_trace env caller args ready post))"
proof -
  let ?m = "bind_act (apply_prepare env caller args) (apply_commit env caller args)"
  obtain w' r where run: "run (apply_mist_change_set env caller args) w = (w', r)" by fastforce
  from run_guarded [OF run [unfolded apply_mist_change_set_def]] obtain w0 where w0: "w_events w0 = w_events w"
      and cases: "w_events w' = w_events w0 \<or> (\<exists>w2. run ?m w0 = (w2, r) \<and> w_events w' = w_events w2)"
    by auto
  from cases show ?thesis
  proof (elim disjE exE conjE)
    assume "w_events w' = w_events w0"
    with run w0 show ?thesis by (intro exI [of _ "[]"]) simp
  next
    fix w2 assume m: "run ?m w0 = (w2, r)" and w': "w_events w' = w_events w2"
    obtain w1 r1 where prep: "run (apply_prepare env caller args) w0 = (w1, r1)" by fastforce
    obtain pre where pre: "w_events w1 = w_events w0 @ pre" "list_all preparing pre"
      using emits_run [OF apply_prepare_emits prep] by blast
    show ?thesis
    proof (cases r1)
      case (Inl e)
      with prep m pre run w0 w' show ?thesis
        by (intro exI [of _ pre] exI [of _ "[]"]) (simp add: run_bind)
    next
      case (Inr ready)
      with prep m have "run (apply_commit env caller args ready) w1 = (w2, r)" by (simp add: run_bind)
      then obtain post where "commit_trace env caller args ready post" "w_events w2 = w_events w1 @ post"
        using apply_commit_trace by blast
      with pre prep Inr run w0 w' show ?thesis
        by (intro exI [of _ pre] exI [of _ post]) auto
    qed
  qed
qed

lemma preparing_writes: "list_all preparing evs \<Longrightarrow> writes_in evs = []"
  by (induction evs) (auto simp: writes_in_def dest: preparing_no_write)

lemma bookkeeping_writes [simp]:
  "writes_in (intent_events env caller rec) = []" "writes_in (receipt_events env rec b) = []"
  "writes_in (EvClaim i hnd # evs) = writes_in evs" "writes_in (EvUpdate c # evs) = writes_in evs" "writes_in [] = []"
  "writes_in (EvCall (ready_write args ready) p # evs) = EvCall (ready_write args ready) p # writes_in evs"
  by (simp_all add: writes_in_def intent_events_def receipt_events_def is_write_def ready_write_def Let_def
      write_request_of_def)

lemma after_write_writes: "after_write env caller args ready c tail \<Longrightarrow> writes_in tail = []"
  by (auto simp: after_write_def Let_def preparing_writes)

lemma commit_trace_writes:
  assumes "commit_trace env caller args ready post"
  shows "writes_in post = [] \<or> (\<exists>c. claimed_for env (rd_record ready) c \<and>
    writes_in post = [EvCall (ready_write args ready) (call_priority_for caller)])"
  using assms unfolding commit_trace_def Let_def by (auto simp: after_write_writes)

section \<open>Properties of an apply\<close>


definition settled_at :: "event \<Rightarrow> change_set_state option" where
  "settled_at e = (case e of EvUpdate c \<Rightarrow> Some (cs_state c) | _ \<Rightarrow> None)"

definition is_receipt :: "event \<Rightarrow> bool" where
  "is_receipt e \<longleftrightarrow> (case e of EvReceipt _ _ \<Rightarrow> True | _ \<Rightarrow> False)"

lemma preparing_marks:
  "preparing e \<Longrightarrow> \<not> is_receipt e \<and> settled_at e \<noteq> Some StateApplied"
  by (auto simp: preparing_def is_receipt_def settled_at_def split: event.splits)

lemma preparing_quiet: "list_all preparing evs \<Longrightarrow> filter is_receipt evs = []"
  by (auto simp: filter_empty_conv list_all_iff dest: preparing_marks)

text \<open>A final state, after a receipt of the same outcome where Mist answered.\<close>

definition settled_tail :: "('v, 's, 'c) change_env \<Rightarrow> change_set \<Rightarrow> event list \<Rightarrow> bool" where
  "settled_tail env c tail \<longleftrightarrow> writes_in tail = [] \<and>
     (tail = [EvUpdate (c\<lparr>cs_state := StateFailed\<rparr>)] \<or>
      (\<exists>reads b. filter is_receipt reads = [] \<and> tail = reads @ receipt_events env c b @
         [EvUpdate (c\<lparr>cs_state := (if b then StateApplied else StateFailed)\<rparr>)]))"

lemma after_write_settled:
  assumes "after_write env caller args ready c tail"
  shows "settled_tail env c tail"
proof -
  note w = after_write_writes [OF assms]
  from assms show ?thesis
    unfolding after_write_def Let_def settled_tail_def
  proof (elim disjE exE conjE)
    assume "tail = receipt_events env c False @ [EvUpdate (c\<lparr>cs_state := StateFailed\<rparr>)]"
    then show "writes_in tail = [] \<and> (tail = [EvUpdate (c\<lparr>cs_state := StateFailed\<rparr>)] \<or>
      (\<exists>reads b. filter is_receipt reads = [] \<and> tail = reads @ receipt_events env c b @
         [EvUpdate (c\<lparr>cs_state := (if b then StateApplied else StateFailed)\<rparr>)]))"
      using w by (intro conjI disjI2 exI [of _ "[]"] exI [of _ False]) simp_all
  next
    fix reads b
    assume "list_all preparing reads" "tail = reads @ receipt_events env c b @
         [EvUpdate (c\<lparr>cs_state := (if b then StateApplied else StateFailed)\<rparr>)]"
    then show "writes_in tail = [] \<and> (tail = [EvUpdate (c\<lparr>cs_state := StateFailed\<rparr>)] \<or>
      (\<exists>reads b. filter is_receipt reads = [] \<and> tail = reads @ receipt_events env c b @
         [EvUpdate (c\<lparr>cs_state := (if b then StateApplied else StateFailed)\<rparr>)]))"
      using w preparing_quiet by (intro conjI disjI2 exI [of _ reads] exI [of _ b]) simp_all
  qed (use w in simp)
qed

lemma commit_trace_order:
  assumes "commit_trace env caller args ready post"
  shows "writes_in post = [] \<and> filter is_receipt post = [] \<or>
    (\<exists>c tail. claimed_for env (rd_record ready) c \<and> settled_tail env c tail \<and>
       post = intent_events env caller (rd_record ready) @
         [EvClaim (cs_id (rd_record ready)) HandleNone, EvCall (ready_write args ready) (call_priority_for caller)] @ tail)"
proof -
  have "filter is_receipt (intent_events env caller rec @ [EvClaim i hnd]) = []"
      "filter is_receipt (intent_events env caller rec) = []" for rec i hnd
    by (simp_all add: intent_events_def is_receipt_def)
  with assms show ?thesis
    unfolding commit_trace_def Let_def by (auto dest: after_write_settled)
qed

text \<open>C6: The evidence of an apply is in order: nothing before the intent is a write or a receipt; the
  write, if it comes to that, follows directly on the intent and the claim of the record; what
  follows the write is the record's final state, after a receipt when Mist answered.\<close>

theorem apply_evidence_order:
  "\<exists>pre post. w_events (fst (run (apply_mist_change_set env caller args) w)) = w_events w @ pre @ post \<and>
     writes_in pre = [] \<and> filter is_receipt pre = [] \<and>
     (writes_in post = [] \<and> filter is_receipt post = [] \<or>
      (\<exists>rec c q tail. claimed_for env rec c \<and> settled_tail env c tail \<and>
         post = intent_events env caller rec @
           [EvClaim (cs_id rec) HandleNone, EvCall q (call_priority_for caller)] @ tail))"
proof -
  obtain pre post where trace: "w_events (fst (run (apply_mist_change_set env caller args) w)) = w_events w @ pre @ post"
      "list_all preparing pre"
      "post = [] \<or> (\<exists>ready w0 w1. run (apply_prepare env caller args) w0 = (w1, Inr ready) \<and>
        commit_trace env caller args ready post)"
    using apply_trace by blast
  have "writes_in post = [] \<and> filter is_receipt post = [] \<or>
      (\<exists>rec c q tail. claimed_for env rec c \<and> settled_tail env c tail \<and>
         post = intent_events env caller rec @
           [EvClaim (cs_id rec) HandleNone, EvCall q (call_priority_for caller)] @ tail)"
    using trace(3) commit_trace_order by fastforce
  with trace show ?thesis
    by (intro exI [of _ pre] exI [of _ post]) (simp add: preparing_writes preparing_quiet)
qed

definition applied_in :: "event list \<Rightarrow> event set" where
  "applied_in evs = {e \<in> set evs. settled_at e = Some StateApplied}"

lemma applied_in_append [simp]: "applied_in (xs @ ys) = applied_in xs \<union> applied_in ys"
  by (auto simp: applied_in_def)

lemma applied_in_preparing: "list_all preparing evs \<Longrightarrow> applied_in evs = {}"
  by (auto simp: applied_in_def list_all_iff dest: preparing_marks)

lemma applied_in_books [simp]:
  "applied_in (intent_events env caller rec) = {}" "applied_in (receipt_events env rec b) = {}" "applied_in [] = {}"
  "applied_in (EvClaim i hnd # evs) = applied_in evs" "applied_in (EvCall q p # evs) = applied_in evs"
  "applied_in (EvUpdate (c\<lparr>cs_state := st\<rparr>) # evs) =
     (if st = StateApplied then {EvUpdate (c\<lparr>cs_state := st\<rparr>)} else {}) \<union> applied_in evs"
  by (auto simp: applied_in_def intent_events_def receipt_events_def settled_at_def)

lemma after_write_applied:
  assumes "after_write env caller args ready c tail"
  shows "applied_in tail \<subseteq>
    {e. e = EvUpdate (c\<lparr>cs_state := StateApplied\<rparr>) \<and> verified_outcome env caller args ready True}"
  using assms unfolding after_write_def Let_def
  by (auto simp: applied_in_preparing split: if_splits)

lemma commit_trace_applied:
  assumes "commit_trace env caller args ready post"
  shows "applied_in post \<subseteq> {EvUpdate (c\<lparr>cs_state := StateApplied\<rparr>) | c.
    claimed_for env (rd_record ready) c \<and> verified_outcome env caller args ready True}"
  using assms after_write_applied unfolding commit_trace_def Let_def by fastforce


section \<open>What an apply does not look at\<close>

text \<open>The status of the write's response plays no part in an apply: whatever it is, the same
  steps follow, and only the read back decides between applied and failed.\<close>

theorem write_status_ignored:
  "apply_settle env caller args ready rec (response\<lparr>resp_status := status\<rparr>) =
   apply_settle env caller args ready rec response"
proof -
  have "final_object_id env rid who rec verb i (response\<lparr>resp_status := status\<rparr>) =
      final_object_id env rid who rec verb i response" for rid who verb i
    by (simp add: final_object_id_def)
  then show ?thesis by (simp add: apply_settle_def)
qed

text \<open>A created object that the service stores with a member of its own, such as the identifier
  that an apply itself takes from the response, never verifies: the comparison with the
  planned body is exact.\<close>

theorem server_member_never_verifies:
  assumes "result_data env ''verify'' result = Inr (JObj data)"
    and "obj_get data name = Some v" and "obj_get body name = None"
  shows "\<not> verified_data env result (JObj body)"
proof -
  have "(name, v) \<in> set data" using assms(2) by (simp add: obj_get_def map_of_SomeD)
  moreover have "map_of body name = None" using assms(3) by (simp add: obj_get_def)
  ultimately have "\<not> json_eq (JObj data) (JObj body)" by (force simp: list_all_iff)
  with assms(1) show ?thesis by (simp add: verified_data_def)
qed

end
