(* ===== verification/Lifecycle.thy ===== *)
theory Lifecycle
  imports Apply
begin

text \<open>
  The change-set tools together: a sequence of calls by any callers, and what the coordinator's
  documented transition policy gives for it. The comment above the claim in
  \<open>apply_mist_change_set\<close> states that policy: the claim is the only transition from approved to
  applying, reads and writes under one lock, and no update leads back to approved.
\<close>

section \<open>Calls\<close>

datatype lifecycle_call =
    CallPlan "caller_ctx option" plan_args
  | CallInspect change_set_args
  | CallApprove "caller_ctx option" approve_args
  | CallApply "caller_ctx option" change_set_args

fun run_call :: "('v, 's, 'c) change_env \<Rightarrow> lifecycle_call \<Rightarrow> ('s, 'c, json) act" where
  "run_call env (CallPlan caller args) = plan_mist_change env caller args"
| "run_call env (CallInspect args) = get_mist_change_set env args"
| "run_call env (CallApprove caller args) = approve_mist_change_set env caller args"
| "run_call env (CallApply caller args) = apply_mist_change_set env caller args"

section \<open>The coordinator's policy\<close>

text \<open>\<open>spent i s\<close>: in the state \<open>s\<close> the approval of the change set \<open>i\<close> was claimed.\<close>

definition keeps_spent :: "(string \<Rightarrow> 's \<Rightarrow> bool) \<Rightarrow> ('s \<Rightarrow> 's) \<Rightarrow> bool" where
  "keeps_spent spent f \<longleftrightarrow> (\<forall>i s. spent i s \<longrightarrow> spent i (f s))"

definition transition_policy :: "('v, 's, 'c) change_env \<Rightarrow> (string \<Rightarrow> 's \<Rightarrow> bool) \<Rightarrow> bool" where
  "transition_policy env spent \<longleftrightarrow>
     (let co = ce_coordinator env in
      (\<forall>i device hnd s s' c. co_claim co i device hnd s = (s', Inr c) \<longrightarrow> \<not> spent i s \<and> spent i s') \<and>
      (\<forall>i device s s' rec. co_change_set co i device s = (s', Inr rec) \<longrightarrow> cs_id rec = i) \<and>
      (\<forall>d. keeps_spent spent (fst \<circ> co_guard co d)) \<and> (\<forall>d. keeps_spent spent (co_release co d)) \<and> (\<forall>rec. keeps_spent spent (fst \<circ> co_insert co rec)) \<and>
      (\<forall>i d. keeps_spent spent (fst \<circ> co_change_set co i d)) \<and>
      (\<forall>i d p g a. keeps_spent spent (fst \<circ> co_approve co i d p g a)) \<and>
      (\<forall>i d p g. keeps_spent spent (fst \<circ> co_waive co i d p g)) \<and>
      (\<forall>i d hnd. keeps_spent spent (fst \<circ> co_claim co i d hnd)) \<and>
      (\<forall>rec. keeps_spent spent (fst \<circ> co_update co rec)) \<and> keeps_spent spent (fst \<circ> ce_random env) \<and>
      (case ce_evidence env of None \<Rightarrow> True | Some recorder \<Rightarrow>
        (\<forall>i j d p g. keeps_spent spent (rc_proposal recorder i j d p g)) \<and>
        (\<forall>q i d p. keeps_spent spent (fst \<circ> rc_apply_intent recorder q i d p)) \<and>
        (\<forall>q i d p b r. keeps_spent spent (fst \<circ> rc_result_receipt recorder q i d p b r))))"

lemma transition_policyD:
  assumes "transition_policy env spent"
  shows "co_claim (ce_coordinator env) i d hnd s = (s', Inr c) \<Longrightarrow> \<not> spent i s \<and> spent i s'"
    "co_change_set (ce_coordinator env) i d s = (s', Inr rec) \<Longrightarrow> cs_id rec = i"
    "keeps_spent spent (fst \<circ> co_guard (ce_coordinator env) d)" "keeps_spent spent (co_release (ce_coordinator env) d)"
    "keeps_spent spent (fst \<circ> co_insert (ce_coordinator env) rec')"
    "keeps_spent spent (fst \<circ> co_change_set (ce_coordinator env) i d)"
    "keeps_spent spent (fst \<circ> co_approve (ce_coordinator env) i d p g a)"
    "keeps_spent spent (fst \<circ> co_waive (ce_coordinator env) i d p g)"
    "keeps_spent spent (fst \<circ> co_claim (ce_coordinator env) i d hnd)"
    "keeps_spent spent (fst \<circ> co_update (ce_coordinator env) rec')" "keeps_spent spent (fst \<circ> ce_random env)"
    "ce_evidence env = Some recorder \<Longrightarrow> keeps_spent spent (rc_proposal recorder i j d p g)"
    "ce_evidence env = Some recorder \<Longrightarrow> keeps_spent spent (fst \<circ> rc_apply_intent recorder q i d p)"
    "ce_evidence env = Some recorder \<Longrightarrow> keeps_spent spent (fst \<circ> rc_result_receipt recorder q i d p b r)"
proof -
  have claims: "\<forall>i d hnd s s' c. co_claim (ce_coordinator env) i d hnd s = (s', Inr c) \<longrightarrow> \<not> spent i s \<and> spent i s'"
    using assms unfolding transition_policy_def Let_def by (rule conjunct1)
  show "co_claim (ce_coordinator env) i d hnd s = (s', Inr c) \<Longrightarrow> \<not> spent i s \<and> spent i s'"
    using claims by blast
qed (use assms in \<open>simp_all add: transition_policy_def Let_def\<close>)

section \<open>Steps of a handler\<close>

text \<open>\<open>steps R P m\<close>: every step that \<open>m\<close> can take, from whatever world the others left, is in \<open>R\<close>, and a
  value it ends in satisfies \<open>P\<close>.\<close>

inductive steps ::
  "(('s, 'c) world \<Rightarrow> ('s, 'c) world \<Rightarrow> bool) \<Rightarrow> ('a \<Rightarrow> bool) \<Rightarrow> ('s, 'c, 'a) act \<Rightarrow> bool" for R P where
  steps_refused: "steps R P (Done (Inl e))"
| steps_value: "P x \<Longrightarrow> steps R P (Done (Inr x))"
| steps_step: "(\<And>w. R w (fst (g w)) \<and> steps R P (snd (g w))) \<Longrightarrow> steps R P (Step g)"

inductive_cases steps_StepE: "steps R P (Step g)"

named_theorems steps_rules \<open>the steps of the combinators\<close>

lemma steps_bind:
  assumes "steps R P m" and "\<And>x. P x \<Longrightarrow> steps R Q (f x)"
  shows "steps R Q (bind_act m f)"
  using assms(1) by induction (auto intro!: steps.intros assms(2))

lemma steps_then [steps_rules]:
  "steps R (\<lambda>_. True) m \<Longrightarrow> (\<And>x. steps R Q (f x)) \<Longrightarrow> steps R Q (bind_act m f)"
  by (rule steps_bind)

lemma steps_finally [steps_rules]:
  assumes "steps R P m" and "steps R (\<lambda>_. True) f"
  shows "steps R P (finally_do m f)"
  using assms(1) by induction (auto intro!: steps.intros steps_bind [OF assms(2)])

lemma steps_ret [steps_rules]: "P x \<Longrightarrow> steps R P (ret x)"
  by (simp add: ret_def steps_value)

lemma steps_refuse [steps_rules]: "steps R P (refuse out e)"
  by (simp add: refuse_def steps_refused)

lemma steps_or_refuse [steps_rules]: "(\<And>x. r = Inr x \<Longrightarrow> P x) \<Longrightarrow> steps R P (or_refuse out f r)"
  by (auto simp: or_refuse_def intro: steps_ret steps_refuse split: sum.split)

lemma steps_require [steps_rules]: "(b \<Longrightarrow> P ()) \<Longrightarrow> steps R P (require b out e)"
  by (auto simp: require_def intro: steps_ret steps_refuse)

lemma steps_weaken: "steps R P m \<Longrightarrow> (\<And>w w'. R w w' \<Longrightarrow> R' w w') \<Longrightarrow> (\<And>x. P x \<Longrightarrow> P' x) \<Longrightarrow> steps R' P' m"
  by (induction rule: steps.induct) (auto intro: steps.intros)

lemma steps_run:
  assumes "steps R P m" and "\<And>w. R w w" and "\<And>w1 w2 w3. R w1 w2 \<Longrightarrow> R w2 w3 \<Longrightarrow> R w1 w3"
  shows "R w (fst (run m w))"
  using assms(1)
proof (induction arbitrary: w)
  case (steps_step g)
  then show ?case using assms(3) by (simp only: run_Step) blast
qed (simp_all add: assms(2))

section \<open>The steps of the handlers\<close>

text \<open>Who is named as the owner of a plan or as an approver.\<close>

fun acting_principal :: "lifecycle_call \<Rightarrow> string option" where
  "acting_principal (CallPlan caller args) = Some (principal_of caller)"
| "acting_principal (CallApprove caller args) = Some (principal_of caller)"
| "acting_principal _ = None"

text \<open>The priority of the calls of the client that a call makes.\<close>

fun acting_priority :: "lifecycle_call \<Rightarrow> call_priority option" where
  "acting_priority (CallPlan caller args) = Some (call_priority_for caller)"
| "acting_priority (CallApply caller args) = Some (call_priority_for caller)"
| "acting_priority _ = None"

text \<open>
  Every operation that the handlers use is a step in \<open>R\<close>: insertions and approvals where the owner
  or the approver is one of \<open>own\<close>, reads for callers whose priority is one of \<open>uses\<close>, a waiver where it is
  used, in lab mode.
\<close>

definition handler_ops ::
  "(string \<Rightarrow> bool) \<Rightarrow> (call_priority \<Rightarrow> bool) \<Rightarrow> (('s, 'c) world \<Rightarrow> ('s, 'c) world \<Rightarrow> bool)
    \<Rightarrow> ('v, 's, 'c) change_env \<Rightarrow> bool" where
  "handler_ops own uses R env \<longleftrightarrow>
     (let co = ce_coordinator env in
      (\<forall>d. steps R (\<lambda>_. True) (outside (co_guard co d) [])) \<and>
      (\<forall>d. steps R (\<lambda>_. True) (outside (\<lambda>s. (co_release co d s, ())) [])) \<and>
      (\<forall>rec. own (cs_owner rec) \<longrightarrow> steps R (\<lambda>_. True) (outside (co_insert co rec) [EvInsert rec])) \<and>
      (\<forall>i d. steps R (\<lambda>_. True) (outside (co_change_set co i d) [])) \<and>
      (\<forall>i d p g a. own p \<longrightarrow> steps R (\<lambda>_. True) (outside (co_approve co i d p g a) [EvApprove i d p g a])) \<and>
      (h_lab_mode (sv_handler (ce_server env)) \<longrightarrow>
        (\<forall>i d p g. steps R (\<lambda>_. True) (outside (co_waive co i d p g) [EvWaive i]))) \<and>
      (\<forall>i d hnd. steps R (\<lambda>_. True) (outside (co_claim co i d hnd) [EvClaim i hnd])) \<and>
      (\<forall>rec. steps R (\<lambda>_. True) (outside (co_update co rec) [EvUpdate rec])) \<and>
      steps R (\<lambda>_. True) (outside (ce_random env) []) \<and> steps R (\<lambda>_. True) (reading (ce_now env)) \<and>
      (\<forall>caller rd. uses (call_priority_for caller) \<longrightarrow> steps R (\<lambda>_. True) (dispatch_act env caller rd)) \<and>
      (\<forall>recorder i j d p g. ce_evidence env = Some recorder \<longrightarrow>
        steps R (\<lambda>_. True) (outside (\<lambda>s. (rc_proposal recorder i j d p g s, ())) [EvProposal i])) \<and>
      (\<forall>recorder q i d p. ce_evidence env = Some recorder \<longrightarrow>
        steps R (\<lambda>_. True) (outside (rc_apply_intent recorder q i d p) [EvIntent i p])) \<and>
      (\<forall>recorder q i d p b g. ce_evidence env = Some recorder \<longrightarrow>
        steps R (\<lambda>_. True) (outside (rc_result_receipt recorder q i d p b g) [EvReceipt i b])))"

lemma handler_opsD:
  assumes "handler_ops own uses R env"
  shows "steps R (\<lambda>_. True) (outside (co_guard (ce_coordinator env) d) [])"
    "steps R (\<lambda>_. True) (outside (\<lambda>s. (co_release (ce_coordinator env) d s, ())) [])"
    "own (cs_owner rec) \<Longrightarrow> steps R (\<lambda>_. True) (outside (co_insert (ce_coordinator env) rec) [EvInsert rec])"
    "steps R (\<lambda>_. True) (outside (co_change_set (ce_coordinator env) i d) [])"
    "own p \<Longrightarrow> steps R (\<lambda>_. True) (outside (co_approve (ce_coordinator env) i d p g a) [EvApprove i d p g a])"
    "h_lab_mode (sv_handler (ce_server env)) \<Longrightarrow>
       steps R (\<lambda>_. True) (outside (co_waive (ce_coordinator env) i d p g) [EvWaive i])"
    "steps R (\<lambda>_. True) (outside (co_claim (ce_coordinator env) i d hnd) [EvClaim i hnd])"
    "steps R (\<lambda>_. True) (outside (co_update (ce_coordinator env) rec) [EvUpdate rec])"
    "steps R (\<lambda>_. True) (outside (ce_random env) [])" "steps R (\<lambda>_. True) (reading (ce_now env))"
    "uses (call_priority_for caller) \<Longrightarrow> steps R (\<lambda>_. True) (dispatch_act env caller rd)"
    "ce_evidence env = Some recorder \<Longrightarrow>
       steps R (\<lambda>_. True) (outside (\<lambda>s. (rc_proposal recorder i j d p g s, ())) [EvProposal i])"
    "ce_evidence env = Some recorder \<Longrightarrow> steps R (\<lambda>_. True) (outside (rc_apply_intent recorder q i d p) [EvIntent i p])"
    "ce_evidence env = Some recorder \<Longrightarrow>
       steps R (\<lambda>_. True) (outside (rc_result_receipt recorder q i d p b g) [EvReceipt i b])"
  using assms unfolding handler_ops_def Let_def by simp_all

lemma steps_internal_read:
  assumes "handler_ops own uses R env" and "uses (call_priority_for caller)"
  shows "steps R (\<lambda>_. True) (internal_read env caller what rd)"
  unfolding internal_read_def by (auto intro!: steps_rules handler_opsD [OF assms(1)] assms(2))

lemma steps_plan:
  assumes "handler_ops own uses R env" and "own (principal_of caller)" and "uses (call_priority_for caller)"
  shows "steps R (\<lambda>_. True) (plan_mist_change env caller args)"
  unfolding plan_mist_change_def plan_checks_def plan_before_def stage_plan_def plan_propose_def plan_waive_def Let_def
  by (auto intro!: steps_rules steps_internal_read handler_opsD [OF assms(1)] assms simp: planned_record_def
      split: option.split)

lemma steps_inspect:
  assumes "handler_ops own uses R env"
  shows "steps R (\<lambda>_. True) (get_mist_change_set env args)"
  unfolding get_mist_change_set_def Let_def
  by (auto intro!: steps_rules handler_opsD [OF assms] split: option.split prod.split)

lemma steps_approve:
  assumes "handler_ops own uses R env" and "own (principal_of caller)"
  shows "steps R (\<lambda>_. True) (approve_mist_change_set env caller args)"
  unfolding approve_mist_change_set_def Let_def
  by (auto intro!: steps_rules handler_opsD [OF assms(1)] assms split: sum.split)

lemma steps_settle:
  assumes "handler_ops own uses R env" and "uses (call_priority_for caller)"
  shows "steps R (\<lambda>_. True) (apply_settle env caller args ready rec response)"
    and "steps R (\<lambda>_. True) (settle_failed env rec e)"
    and "steps R (\<lambda>_. True) (apply_intent env q who rec)"
  unfolding apply_settle_def settle_failed_def apply_intent_def
    final_object_id_def failure_receipt_def result_receipt_def apply_verify_def apply_finish_def Let_def
  by (auto intro!: steps_rules handler_opsD [OF assms(1)] assms(2) split: option.split sum.split)

lemma steps_drift_check:
  assumes "handler_ops own uses R env" and "uses (call_priority_for caller)"
  shows "steps R (\<lambda>_. True) (drift_check env caller rec target object_id org_id)"
  unfolding drift_check_def settle_drift_def Let_def
  by (auto intro!: steps_rules steps_internal_read handler_opsD [OF assms(1)] assms split: sum.split)

lemma steps_prepare:
  assumes "handler_ops own uses R env" and "uses (call_priority_for caller)"
  shows "steps R (\<lambda>_. True) (apply_prepare env caller args)"
  unfolding apply_prepare_def apply_record_def apply_preview_def apply_object_id_def apply_org_def Let_def
  by (auto intro!: steps_rules steps_drift_check handler_opsD [OF assms(1)] assms split: option.split prod.split)

lemma steps_apply:
  assumes "handler_ops own uses R env" and "\<And>r p. uses p \<Longrightarrow> steps R (\<lambda>_. True) (client_act env r p)"
    and "uses (call_priority_for caller)"
  shows "steps R (\<lambda>_. True) (apply_mist_change_set env caller args)"
  unfolding apply_mist_change_set_def device_guarded_def apply_commit_def apply_claim_def apply_write_def Let_def
  by (auto intro!: steps_rules steps_prepare steps_settle handler_opsD [OF assms(1)] assms split: sum.split)

lemma steps_run_call:
  assumes "handler_ops own uses R env" and "\<And>r p. uses p \<Longrightarrow> steps R (\<lambda>_. True) (client_act env r p)"
    and "pred_option own (acting_principal call)" and "pred_option uses (acting_priority call)"
  shows "steps R (\<lambda>_. True) (run_call env call)"
  using assms(3,4)
  by (cases call)
    (simp_all add: steps_plan [OF assms(1)] steps_inspect [OF assms(1)] steps_approve [OF assms(1)]
      steps_apply [OF assms(1,2)])

section \<open>Steps that do not write\<close>

text \<open>What is spent stays spent, and the trace gets no write.\<close>

definition kept :: "(string \<Rightarrow> 's \<Rightarrow> bool) \<Rightarrow> ('s, 'c) world \<Rightarrow> ('s, 'c) world \<Rightarrow> bool" where
  "kept spent w w' \<longleftrightarrow> (\<forall>i. spent i (w_outside w) \<longrightarrow> spent i (w_outside w'))"

definition silent :: "('s, 'c) world \<Rightarrow> ('s, 'c) world \<Rightarrow> bool" where
  "silent w w' \<longleftrightarrow> writes_in (w_events w') = writes_in (w_events w)"

definition idle_step :: "(string \<Rightarrow> 's \<Rightarrow> bool) \<Rightarrow> ('s, 'c) world \<Rightarrow> ('s, 'c) world \<Rightarrow> bool" where
  "idle_step spent w w' \<longleftrightarrow> kept spent w w' \<and> silent w w'"

lemma steps_outside:
  assumes "\<And>w. R w (w\<lparr>w_outside := fst (f (w_outside w)), w_events := w_events w @ evs\<rparr>)" and "\<And>s. P (snd (f s))"
  shows "steps R P (outside f evs)"
  unfolding outside_def using assms by (auto intro!: steps.intros simp: split_beta)

lemma idle_outside:
  assumes "keeps_spent spent (fst \<circ> f)" and "writes_in evs = []" and "\<And>s. P (snd (f s))"
  shows "steps (idle_step spent) P (outside f evs)"
  using assms by (intro steps_outside) (auto simp: idle_step_def kept_def silent_def keeps_spent_def)

lemma idle_reading [steps_rules]: "(\<And>s. P (f s)) \<Longrightarrow> steps (idle_step spent) P (reading f)"
  unfolding reading_def by (auto intro!: steps.intros simp: idle_step_def kept_def silent_def)

lemma idle_dispatch [steps_rules]: "steps (idle_step spent) (\<lambda>_. True) (dispatch_act env caller rd)"
proof -
  have "writes_in (map (\<lambda>(r, p). EvCall r p) (do_calls (catalogued (ce_server env) caller c rd))) = []" for c
    using emits_no_write [OF dispatch_act_no_write, of env caller rd "\<lparr>w_outside = undefined, w_client = c, w_events = []\<rparr>"]
    by (simp add: run_dispatch_act Let_def)
  then show ?thesis
    unfolding dispatch_act_def Let_def by (auto intro!: steps.intros simp: idle_step_def kept_def silent_def)
qed

lemma no_write_events [simp]:
  "\<not> is_write (EvInsert c)" "\<not> is_write (EvApprove i d p g a)" "\<not> is_write (EvWaive i)" "\<not> is_write (EvProposal i)"
  "\<not> is_write (EvIntent i p)" "\<not> is_write (EvClaim i hnd)" "\<not> is_write (EvReceipt i b)" "\<not> is_write (EvUpdate c)"
  by (simp_all add: is_write_def)

lemma policy_idle:
  assumes "transition_policy env spent"
  shows "steps (idle_step spent) (\<lambda>_. True) (outside (co_guard (ce_coordinator env) d) [])"
    "steps (idle_step spent) (\<lambda>_. True) (outside (\<lambda>s. (co_release (ce_coordinator env) d s, ())) [])"
    "steps (idle_step spent) (\<lambda>_. True) (outside (co_insert (ce_coordinator env) rec) [EvInsert rec])"
    "steps (idle_step spent) (\<lambda>r. \<forall>rec. r = Inr rec \<longrightarrow> cs_id rec = i) (outside (co_change_set (ce_coordinator env) i d) [])"
    "steps (idle_step spent) (\<lambda>_. True) (outside (co_approve (ce_coordinator env) i d p g a) [EvApprove i d p g a])"
    "steps (idle_step spent) (\<lambda>_. True) (outside (co_waive (ce_coordinator env) i d p g) [EvWaive i])"
    "steps (idle_step spent) (\<lambda>_. True) (outside (co_claim (ce_coordinator env) i d hnd) [EvClaim i hnd])"
    "steps (idle_step spent) (\<lambda>_. True) (outside (co_update (ce_coordinator env) rec) [EvUpdate rec])"
    "steps (idle_step spent) (\<lambda>_. True) (outside (ce_random env) [])"
    "ce_evidence env = Some recorder \<Longrightarrow>
       steps (idle_step spent) (\<lambda>_. True) (outside (\<lambda>s. (rc_proposal recorder i j d p g s, ())) [EvProposal i])"
    "ce_evidence env = Some recorder \<Longrightarrow>
       steps (idle_step spent) (\<lambda>_. True) (outside (rc_apply_intent recorder q i d p) [EvIntent i p])"
    "ce_evidence env = Some recorder \<Longrightarrow>
       steps (idle_step spent) (\<lambda>_. True) (outside (rc_result_receipt recorder q i d p b g) [EvReceipt i b])"
proof -
  note policy = transition_policyD [OF assms]
  have "\<forall>rec. snd (co_change_set (ce_coordinator env) i d s) = Inr rec \<longrightarrow> cs_id rec = i" for s
    using policy(2) by (metis prod.collapse)
  then show "steps (idle_step spent) (\<lambda>r. \<forall>rec. r = Inr rec \<longrightarrow> cs_id rec = i) (outside (co_change_set (ce_coordinator env) i d) [])"
    by (intro idle_outside policy(6)) (auto simp: writes_in_def)
qed (auto intro!: idle_outside transition_policyD [OF assms] simp: writes_in_def
      simp: transition_policyD [OF assms] comp_def [of fst "\<lambda>s. (_ s, ())"])

lemma handler_ops_idle:
  assumes "transition_policy env spent"
  shows "handler_ops (\<lambda>_. True) (\<lambda>_. True) (idle_step spent) env"
  unfolding handler_ops_def Let_def
  by (auto intro!: policy_idle [OF assms] policy_idle(4) [OF assms, THEN steps_weaken] idle_reading idle_dispatch)

text \<open>The record that a preparation ends in is that of the change set that was asked for.\<close>

lemma idle_record:
  assumes "transition_policy env spent"
  shows "steps (idle_step spent) (\<lambda>rec. cs_id rec = ca_change_set_id args) (apply_record env args)"
  unfolding apply_record_def Let_def
  by (rule steps_bind, rule policy_idle(4) [OF assms], rule steps_bind,
      rule steps_or_refuse [where P = "\<lambda>rec. cs_id rec = ca_change_set_id args"])
    (auto intro!: steps_rules)

lemma idle_prepare:
  assumes "transition_policy env spent"
  shows "steps (idle_step spent) (\<lambda>ready. cs_id (rd_record ready) = ca_change_set_id args) (apply_prepare env caller args)"
  unfolding apply_prepare_def apply_preview_def apply_object_id_def apply_org_def
  by (intro steps_bind [OF idle_record [OF assms]])
    (auto intro!: steps_rules steps_drift_check handler_ops_idle assms split: option.split prod.split)

section \<open>Steps that write\<close>

definition one_write :: "('s, 'c) world \<Rightarrow> ('s, 'c) world \<Rightarrow> bool" where
  "one_write w w' \<longleftrightarrow> (\<exists>e. writes_in (w_events w') = writes_in (w_events w) @ [e])"

definition spends :: "(string \<Rightarrow> 's \<Rightarrow> bool) \<Rightarrow> string \<Rightarrow> ('s, 'c) world \<Rightarrow> ('s, 'c) world \<Rightarrow> bool" where
  "spends spent i w w' \<longleftrightarrow> \<not> spent i (w_outside w) \<and> spent i (w_outside w')"

text \<open>\<open>armed\<close>: one write at most is left. \<open>claiming i\<close>: no write is left but after a step that spends the
  approval of \<open>i\<close>, and then one at most.\<close>

inductive armed :: "(string \<Rightarrow> 's \<Rightarrow> bool) \<Rightarrow> ('s, 'c, 'a) act \<Rightarrow> bool" for spent where
  armed_done: "armed spent (Done r)"
| armed_step: "(\<And>w. kept spent w (fst (g w)) \<and>
     (silent w (fst (g w)) \<and> armed spent (snd (g w)) \<or>
      one_write w (fst (g w)) \<and> steps (idle_step spent) (\<lambda>_. True) (snd (g w)))) \<Longrightarrow> armed spent (Step g)"

inductive claiming :: "(string \<Rightarrow> 's \<Rightarrow> bool) \<Rightarrow> string \<Rightarrow> ('s, 'c, 'a) act \<Rightarrow> bool" for spent i where
  claiming_done: "claiming spent i (Done r)"
| claiming_step: "(\<And>w. kept spent w (fst (g w)) \<and> silent w (fst (g w)) \<and>
     (claiming spent i (snd (g w)) \<or> spends spent i w (fst (g w)) \<and> armed spent (snd (g w)))) \<Longrightarrow> claiming spent i (Step g)"

inductive_cases armed_StepE: "armed spent (Step g)"
inductive_cases claiming_StepE: "claiming spent i (Step g)"

lemma bind_act_assoc: "bind_act (bind_act m f) g = bind_act m (\<lambda>x. bind_act (f x) g)"
proof (induction m)
  case (Step h)
  have "map_prod id (\<lambda>t. bind_act (bind_act t f) g) (h w) = map_prod id (\<lambda>t. bind_act t (\<lambda>x. bind_act (f x) g)) (h w)" for w
    using Step.IH [of "h w" "snd (h w)"] rangeI [of h w] by (cases "h w") (auto simp: prod_set_simps)
  then show ?case by (simp add: prod.map_comp comp_def id_def)
qed (simp split: sum.split)

lemma armed_idle: "steps (idle_step spent) P m \<Longrightarrow> armed spent m"
  by (induction rule: steps.induct) (auto intro!: armed.intros simp: idle_step_def)

lemma claiming_idle: "steps (idle_step spent) P m \<Longrightarrow> claiming spent i m"
  by (induction rule: steps.induct) (auto intro!: claiming.intros simp: idle_step_def)

lemma claiming_bind:
  assumes "steps (idle_step spent) P m" and "\<And>x. P x \<Longrightarrow> claiming spent i (f x)"
  shows "claiming spent i (bind_act m f)"
  using assms(1) by induction (auto intro!: claiming.intros assms(2) simp: idle_step_def)

lemma armed_finally:
  assumes "armed spent m" and "steps (idle_step spent) (\<lambda>_. True) f"
  shows "armed spent (finally_do m f)"
  using assms(1)
proof induction
  case (armed_done r)
  have "steps (idle_step spent) (\<lambda>_. True) (bind_act f (\<lambda>_. Done r))"
    by (rule steps_then [OF assms(2)]) (cases r; auto intro: steps.intros)
  then show ?case by (simp add: armed_idle)
next
  case (armed_step g)
  have "kept spent w (fst (g w)) \<and> (silent w (fst (g w)) \<and> armed spent (finally_do (snd (g w)) f) \<or>
      one_write w (fst (g w)) \<and> steps (idle_step spent) (\<lambda>_. True) (finally_do (snd (g w)) f))" for w
    using armed_step [of w] steps_finally [OF _ assms(2)] by blast
  then show ?case by (simp only: finally_do.simps) (rule armed.armed_step, simp)
qed

lemma claiming_finally:
  assumes "claiming spent i m" and "steps (idle_step spent) (\<lambda>_. True) f"
  shows "claiming spent i (finally_do m f)"
  using assms(1)
proof induction
  case (claiming_done r)
  have "steps (idle_step spent) (\<lambda>_. True) (bind_act f (\<lambda>_. Done r))"
    by (rule steps_then [OF assms(2)]) (cases r; auto intro: steps.intros)
  then show ?case by (simp add: claiming_idle)
next
  case (claiming_step g)
  have "kept spent w (fst (g w)) \<and> silent w (fst (g w)) \<and> (claiming spent i (finally_do (snd (g w)) f) \<or>
      spends spent i w (fst (g w)) \<and> armed spent (finally_do (snd (g w)) f))" for w
    using claiming_step [of w] armed_finally [OF _ assms(2)] by blast
  then show ?case by (simp only: finally_do.simps) (rule claiming.claiming_step, simp)
qed

lemma armed_write:
  assumes "transition_policy env spent" and "\<And>x. steps (idle_step spent) (\<lambda>_. True) (f x)"
  shows "armed spent (bind_act (apply_write env caller rec r) f)"
proof -
  have idle: "steps (idle_step spent) (\<lambda>_. True) (bind_act (case outcome of Inr response \<Rightarrow> ret response
      | Inl e \<Rightarrow> settle_failed env rec (ToolWrite e)) f)" for outcome
    by (intro steps_then) (auto intro!: steps_rules assms steps_settle(2) [OF handler_ops_idle [OF assms(1)] TrueI] split: sum.split)
  show ?thesis
    unfolding apply_write_def bind_act_assoc client_act_def bind_act.simps
    by (rule armed_step) (auto simp: split_beta kept_def silent_def one_write_def writes_in_def idle armed_idle [OF idle])
qed

lemma claiming_outside:
  assumes "keeps_spent spent (fst \<circ> h)" and "writes_in evs = []"
    and "\<And>s. claiming spent i (f (snd (h s))) \<or> \<not> spent i s \<and> spent i (fst (h s)) \<and> armed spent (f (snd (h s)))"
  shows "claiming spent i (bind_act (outside h evs) f)"
  unfolding outside_def bind_act.simps
  by (rule claiming_step)
    (use assms in \<open>simp add: split_beta kept_def silent_def spends_def keeps_spent_def\<close>)

lemma claiming_claim:
  assumes "transition_policy env spent" and "\<And>c. armed spent (f c)"
  shows "claiming spent (cs_id rec) (bind_act (apply_claim env rec) f)"
proof -
  have claim: "\<not> spent i s \<and> spent i (fst (co_claim (ce_coordinator env) i d hnd s))"
    if "snd (co_claim (ce_coordinator env) i d hnd s) = Inr c" for i d hnd s c
    using transition_policyD(1) [OF assms(1)] that by (metis prod.collapse)
  have rest: "claiming spent i (bind_act (or_refuse AuditFail ToolCoordinator r) f) \<or>
      (\<exists>c. r = Inr c) \<and> armed spent (bind_act (or_refuse AuditFail ToolCoordinator r) f)" for i r
    by (cases r) (simp_all add: or_refuse_def refuse_def ret_def claiming_done assms(2))
  show ?thesis
    unfolding apply_claim_def bind_act_assoc
  proof (rule claiming_outside)
    show "keeps_spent spent (fst \<circ> co_claim (ce_coordinator env) (cs_id rec) (cs_device rec) HandleNone)"
      by (rule transition_policyD(9) [OF assms(1)])
  qed (use rest claim in \<open>simp_all add: writes_in_def, blast\<close>)
qed

text \<open>An apply.\<close>

lemma apply_claiming:
  assumes "transition_policy env spent"
  shows "claiming spent (ca_change_set_id args) (apply_mist_change_set env caller args)"
proof -
  have commit: "claiming spent (ca_change_set_id args) (apply_commit env caller args ready)"
    if "cs_id (rd_record ready) = ca_change_set_id args" for ready
    unfolding apply_commit_def that [symmetric]
    by (rule claiming_bind [OF steps_settle(3) [OF handler_ops_idle [OF assms] TrueI]], rule claiming_claim [OF assms], rule armed_write [OF assms],
        rule steps_settle(1) [OF handler_ops_idle [OF assms] TrueI])
  have "claiming spent (ca_change_set_id args) (bind_act (or_refuse AuditFail ToolCoordinator guard) (\<lambda>_.
      finally_do (bind_act (apply_prepare env caller args) (apply_commit env caller args))
        (outside (\<lambda>s. (co_release (ce_coordinator env) device s, ())) [])))" for guard device
    by (rule claiming_bind [OF steps_or_refuse [where P = "\<lambda>_. True"]])
      (auto intro!: claiming_finally claiming_bind [OF idle_prepare [OF assms]] commit policy_idle(2) [OF assms])
  then show ?thesis
    unfolding apply_mist_change_set_def device_guarded_def Let_def
    by (intro claiming_bind [OF policy_idle(1) [OF assms]])
qed

section \<open>Calls and their writes\<close>

text \<open>The change set a call applies, if it is an apply.\<close>

fun applied_id :: "lifecycle_call \<Rightarrow> string option" where
  "applied_id (CallApply caller args) = Some (ca_change_set_id args)"
| "applied_id _ = None"

definition new_writes :: "('s, 'c) world \<Rightarrow> ('s, 'c) world \<Rightarrow> nat" where
  "new_writes w w' = length (writes_in (w_events w')) - length (writes_in (w_events w))"

text \<open>What a call can do: an apply claims first, any other call writes nothing.\<close>

definition disciplined :: "(string \<Rightarrow> 's \<Rightarrow> bool) \<Rightarrow> string option \<Rightarrow> ('s, 'c, 'a) act \<Rightarrow> bool" where
  "disciplined spent i m \<longleftrightarrow>
     (case i of None \<Rightarrow> steps (idle_step spent) (\<lambda>_. True) m | Some j \<Rightarrow> claiming spent j m)"

lemma run_call_disciplined:
  assumes "transition_policy env spent"
  shows "disciplined spent (applied_id call) (run_call env call)"
proof -
  note ops = handler_ops_idle [OF assms]
  show ?thesis
    by (cases call)
      (simp_all add: disciplined_def steps_plan [OF ops] steps_inspect [OF ops] steps_approve [OF ops] apply_claiming assms)
qed

lemma idle_trans: "idle_step spent w w" "idle_step spent w w1 \<Longrightarrow> idle_step spent w1 w2 \<Longrightarrow> idle_step spent w w2"
  by (auto simp: idle_step_def kept_def silent_def)

lemma idle_run: "steps (idle_step spent) P m \<Longrightarrow> idle_step spent w (fst (run m w))"
  by (rule steps_run) (blast intro: idle_trans)+

lemma armed_run:
  "armed spent m \<Longrightarrow> kept spent w (fst (run m w)) \<and> (silent w (fst (run m w)) \<or> one_write w (fst (run m w)))"
proof (induction arbitrary: w rule: armed.induct)
  case (armed_step g)
  let ?w = "fst (g w)" and ?w' = "fst (run (snd (g w)) (fst (g w)))"
  have "kept spent w ?w" and "silent w ?w \<and> kept spent ?w ?w' \<and> (silent ?w ?w' \<or> one_write ?w ?w') \<or>
      one_write w ?w \<and> idle_step spent ?w ?w'"
    using armed_step [of w] idle_run [of spent "\<lambda>_. True" "snd (g w)" ?w] by blast+
  then have "kept spent w ?w' \<and> (silent w ?w' \<or> one_write w ?w')"
    by (elim disjE) (auto simp: kept_def silent_def one_write_def idle_step_def)
  then show ?case by (simp only: run_Step)
qed (simp add: kept_def silent_def)

lemma claiming_run:
  "claiming spent i m \<Longrightarrow> kept spent w (fst (run m w)) \<and>
     (silent w (fst (run m w)) \<or> one_write w (fst (run m w)) \<and> spends spent i w (fst (run m w)))"
proof (induction arbitrary: w rule: claiming.induct)
  case (claiming_step g)
  let ?w = "fst (g w)" and ?w' = "fst (run (snd (g w)) (fst (g w)))"
  from claiming_step [of w] armed_run [of spent "snd (g w)" ?w]
  have "kept spent w ?w'" "silent w ?w' \<or> one_write w ?w' \<and> spends spent i w ?w'"
    unfolding kept_def silent_def one_write_def spends_def by metis+
  then show ?case by (simp only: run_Step)
qed (simp add: kept_def silent_def)

lemma run_call_spends:
  assumes "transition_policy env spent"
  shows "kept spent w (fst (run (run_call env call) w)) \<and> (silent w (fst (run (run_call env call) w)) \<or>
    (\<exists>i. one_write w (fst (run (run_call env call) w)) \<and> applied_id call = Some i \<and>
      spends spent i w (fst (run (run_call env call) w))))"
proof (cases "applied_id call")
  case None
  with run_call_disciplined [OF assms, of call] show ?thesis
    using idle_run [of spent "\<lambda>_. True" "run_call env call" w] by (simp add: disciplined_def idle_step_def)
next
  case (Some i)
  with run_call_disciplined [OF assms, of call] show ?thesis
    using claiming_run [of spent i "run_call env call" w] by (simp add: disciplined_def)
qed

text \<open>An apply of a change set whose approval is spent writes nothing.\<close>

theorem spent_apply_writes_nothing:
  assumes "transition_policy env spent" and "spent (ca_change_set_id args) (w_outside w)"
  shows "writes_in (w_events (fst (run (apply_mist_change_set env caller args) w))) = writes_in (w_events w)"
  using claiming_run [OF apply_claiming [OF assms(1)]] assms(2) unfolding silent_def spends_def by blast

end
