(* ===== verification/Lab.thy ===== *)
theory Lab
  imports Lifecycle
begin

text \<open>
  A concrete outside for the change-set tools: a coordinator that keeps its records in a map and
  follows the documented transitions (planned, approved by another principal with the digest of
  the plan or waived, claimed once, settled once), a recorder that keeps nothing, and a catalog
  of one operation. The properties of the change-set tools are witnessed on it.
\<close>

section \<open>A coordinator\<close>

type_synonym lab_state = "string \<Rightarrow> change_set option"

definition lab_error :: "string \<Rightarrow> string \<Rightarrow> coordinator_error" where
  "lab_error field message = \<lparr>coe_field = field, coe_message = message\<rparr>"

definition lab_insert :: "change_set \<Rightarrow> lab_state \<Rightarrow> lab_state \<times> (coordinator_error + unit)" where
  "lab_insert rec s =
     (if s (cs_id rec) = None \<and> cs_state rec = StatePlanned then (s(cs_id rec \<mapsto> rec), Inr ()) else (s, Inl (lab_error ''id'' ''exists'')))"

definition lab_change_set ::
  "string \<Rightarrow> string \<Rightarrow> lab_state \<Rightarrow> lab_state \<times> (coordinator_error + change_set)" where
  "lab_change_set i device s =
     (case s i of
        Some rec \<Rightarrow> if cs_id rec = i \<and> cs_device rec = device then (s, Inr rec)
          else (s, Inl (lab_error ''change_set_id'' ''other device''))
      | None \<Rightarrow> (s, Inl (lab_error ''change_set_id'' ''unknown'')))"

text \<open>A transition of one record, from a state the predicate admits.\<close>

definition lab_transition ::
  "(change_set \<Rightarrow> bool) \<Rightarrow> (change_set \<Rightarrow> change_set) \<Rightarrow> string \<Rightarrow> lab_state
    \<Rightarrow> lab_state \<times> (coordinator_error + change_set)" where
  "lab_transition admits f i s =
     (case s i of
        Some rec \<Rightarrow> if admits rec then (s(i \<mapsto> f rec), Inr (f rec))
          else (s, Inl (lab_error ''change_set_id'' ''transition refused''))
      | None \<Rightarrow> (s, Inl (lab_error ''change_set_id'' ''unknown'')))"

definition lab_approve ::
  "string \<Rightarrow> string \<Rightarrow> string \<Rightarrow> string \<Rightarrow> actor_type \<Rightarrow> lab_state \<Rightarrow> lab_state \<times> (coordinator_error + string)" where
  "lab_approve i device approver digest actor s =
     (case lab_transition (\<lambda>rec. cs_state rec = StatePlanned \<and> cs_owner rec \<noteq> approver \<and>
          cs_digest rec = digest \<and> actor = ActorHuman)
        (\<lambda>rec. rec\<lparr>cs_state := StateApproved, cs_approver := Some approver\<rparr>) i s of
        (s', Inr rec) \<Rightarrow> (s', Inr i)
      | (s', Inl e) \<Rightarrow> (s', Inl e))"

definition lab_waive ::
  "string \<Rightarrow> string \<Rightarrow> string \<Rightarrow> string \<Rightarrow> lab_state \<Rightarrow> lab_state \<times> (coordinator_error + unit)" where
  "lab_waive i device owner digest s =
     (case lab_transition (\<lambda>rec. cs_state rec = StatePlanned \<and> cs_approver rec = None \<and> cs_digest rec = digest)
        (\<lambda>rec. rec\<lparr>cs_state := StateApproved, cs_approval := Some \<lparr>apr_waived = Some owner\<rparr>\<rparr>) i s of
        (s', Inr rec) \<Rightarrow> (s', Inr ())
      | (s', Inl e) \<Rightarrow> (s', Inl e))"

definition lab_claim ::
  "string \<Rightarrow> string \<Rightarrow> apply_handle \<Rightarrow> lab_state \<Rightarrow> lab_state \<times> (coordinator_error + change_set)" where
  "lab_claim i device hnd s =
     lab_transition (\<lambda>rec. cs_state rec = StateApproved) (\<lambda>rec. rec\<lparr>cs_state := StateApplying\<rparr>) i s"

definition lab_update :: "change_set \<Rightarrow> lab_state \<Rightarrow> lab_state \<times> (coordinator_error + unit)" where
  "lab_update new s =
     (case lab_transition (\<lambda>rec. cs_state rec = StateApplying \<and> cs_state new \<in> {StateApplied, StateFailed} \<and>
          cs_owner new = cs_owner rec \<and> cs_approver new = cs_approver rec)
        (\<lambda>rec. new) (cs_id new) s of
        (s', Inr rec) \<Rightarrow> (s', Inr ())
      | (s', Inl e) \<Rightarrow> (s', Inl e))"

definition lab_coordinator :: "lab_state coordinator" where
  "lab_coordinator = \<lparr>co_guard = \<lambda>_ s. (s, Inr ()), co_insert = lab_insert, co_change_set = lab_change_set,
     co_approve = lab_approve, co_waive = lab_waive, co_claim = lab_claim, co_release = \<lambda>_ s. s, co_update = lab_update,
     co_approval_ttl = 900\<rparr>"

section \<open>A server with it\<close>

definition lab_body :: json where
  "lab_body = JObj [(''name'', JStr ''lan'')]"

definition lab_artifact :: json where
  "lab_artifact = JObj [(''before'', JNull), (''after'', lab_body), (''org_id'', JStr example_org)]"

definition lab_exec ::
  "unit \<Rightarrow> mist_request \<Rightarrow> call_priority \<Rightarrow> unit \<times> (mist_error + mist_response)" where
  "lab_exec c r p = ((), Inr (example_response\<lparr>resp_body := BodyJson (JObj [(''id'', JStr ''n1'')])\<rparr>))"

definition bench_server :: "bool \<Rightarrow> (nat, unit) server" where
  "bench_server lab_mode = \<lparr>sv_env = example_dispatch_env, sv_exec = lab_exec, sv_budget = \<lambda>c. (c, None),
     sv_decode_cursor = \<lambda>_. None, sv_handler = example_handler\<lparr>h_lab_mode := lab_mode\<rparr>\<rparr>"

text \<open>The serializer and the parser are those of the one artifact of the example.\<close>

definition bench_env :: "bool \<Rightarrow> (nat, lab_state, unit) change_env" where
  "bench_env lab_mode = \<lparr>ce_server = bench_server lab_mode, ce_coordinator = lab_coordinator, ce_evidence = None,
     ce_now = \<lambda>s. Inr 100, ce_random = \<lambda>s. (s, Inr ''c1''), ce_hex_encode = \<lambda>x. x, ce_sha256 = \<lambda>x. x,
     ce_to_vec = \<lambda>v. Inr ''body'', ce_from_str = \<lambda>t. if t = ''artifact'' then Inr lab_artifact else Inl ''syntax'',
     ce_json_text = \<lambda>v. if v = lab_artifact then ''artifact'' else [],
     ce_change_set_digest = \<lambda>owner device fp acts. Inr ''digest'', ce_preview_digest = \<lambda>t. t,
     ce_tool_result = \<lambda>r. \<lparr>cr_is_error = True, cr_text = None\<rparr>, ce_state_name = \<lambda>st. []\<rparr>"

text \<open>In lab mode, and without it.\<close>

abbreviation lab_env :: "(nat, lab_state, unit) change_env" where
  "lab_env \<equiv> bench_env True"

abbreviation office_env :: "(nat, lab_state, unit) change_env" where
  "office_env \<equiv> bench_env False"

definition lab_spent :: "string \<Rightarrow> lab_state \<Rightarrow> bool" where
  "lab_spent i s \<longleftrightarrow> (case s i of None \<Rightarrow> False | Some rec \<Rightarrow> cs_state rec \<notin> {StatePlanned, StateApproved})"

lemma keeps_transition:
  assumes "\<And>rec. admits rec \<Longrightarrow> cs_state rec \<notin> {StatePlanned, StateApproved} \<Longrightarrow>
      cs_state (f rec) \<notin> {StatePlanned, StateApproved}"
  shows "keeps_spent lab_spent (fst \<circ> lab_transition admits f i)"
  using assms by (auto simp: keeps_spent_def lab_spent_def lab_transition_def split: option.splits)

lemma lab_policy: "transition_policy (bench_env b) lab_spent"
proof -
  have claim: "\<not> lab_spent i s \<and> lab_spent i s'" if "lab_claim i device hnd s = (s', Inr c)" for i device hnd s s' c
    using that by (auto simp: lab_claim_def lab_transition_def lab_spent_def split: option.splits if_splits)
  have found: "cs_id rec = i" if "lab_change_set i device s = (s', Inr rec)" for i device s s' rec
    using that by (auto simp: lab_change_set_def split: option.splits if_splits)
  have insert: "keeps_spent lab_spent (fst \<circ> lab_insert rec)" for rec
    by (auto simp: keeps_spent_def lab_spent_def lab_insert_def split: option.splits)
  have look: "fst \<circ> lab_change_set i d = id" for i d
    by (rule ext) (simp add: lab_change_set_def split: option.split)
  have approve: "keeps_spent lab_spent (fst \<circ> lab_approve i d p g a)" for i d p g a
  proof -
    have "fst \<circ> lab_approve i d p g a = fst \<circ> lab_transition (\<lambda>rec. cs_state rec = StatePlanned \<and> cs_owner rec \<noteq> p \<and>
          cs_digest rec = g \<and> a = ActorHuman) (\<lambda>rec. rec\<lparr>cs_state := StateApproved, cs_approver := Some p\<rparr>) i"
      by (rule ext) (simp add: lab_approve_def split: prod.split sum.split)
    then show ?thesis by (simp only:) (rule keeps_transition, auto)
  qed
  have waive: "keeps_spent lab_spent (fst \<circ> lab_waive i d p g)" for i d p g
  proof -
    have "fst \<circ> lab_waive i d p g = fst \<circ> lab_transition (\<lambda>rec. cs_state rec = StatePlanned \<and> cs_approver rec = None \<and> cs_digest rec = g)
        (\<lambda>rec. rec\<lparr>cs_state := StateApproved, cs_approval := Some \<lparr>apr_waived = Some p\<rparr>\<rparr>) i"
      by (rule ext) (simp add: lab_waive_def split: prod.split sum.split)
    then show ?thesis by (simp only:) (rule keeps_transition, auto)
  qed
  have claim': "keeps_spent lab_spent (fst \<circ> lab_claim i d hnd)" for i d hnd
  proof -
    have "fst \<circ> lab_claim i d hnd =
        fst \<circ> lab_transition (\<lambda>rec. cs_state rec = StateApproved) (\<lambda>rec. rec\<lparr>cs_state := StateApplying\<rparr>) i"
      by (rule ext) (simp add: lab_claim_def)
    then show ?thesis by (simp only:) (rule keeps_transition, auto)
  qed
  have update: "keeps_spent lab_spent (fst \<circ> lab_update new)" for new
  proof -
    have "fst \<circ> lab_update new = fst \<circ> lab_transition (\<lambda>rec. cs_state rec = StateApplying \<and>
        cs_state new \<in> {StateApplied, StateFailed} \<and> cs_owner new = cs_owner rec \<and> cs_approver new = cs_approver rec) (\<lambda>rec. new) (cs_id new)"
      by (rule ext) (simp add: lab_update_def split: prod.split sum.split)
    then show ?thesis by (simp only:) (rule keeps_transition, auto)
  qed
  have idle: "keeps_spent lab_spent id" "keeps_spent lab_spent (\<lambda>s. s)" by (simp_all add: keeps_spent_def)
  show ?thesis
    unfolding transition_policy_def bench_env_def lab_coordinator_def Let_def
    by (simp add: insert look approve waive claim' update idle comp_def [of fst "\<lambda>s. (s, _)"])
      (use claim found in blast)
qed

section \<open>A plan and two applies\<close>

definition lab_plan :: plan_args where
  "lab_plan = \<lparr>pa_object = ObjNetwork, pa_verb = VerbCreate, pa_org_id = example_org, pa_object_id = None,
     pa_patch = lab_body\<rparr>"

definition lab_apply :: change_set_args where
  "lab_apply = \<lparr>ca_change_set_id = ''c1'', ca_object = ObjNetwork, ca_object_id = None\<rparr>"

definition lab_start :: "(lab_state, unit) world" where
  "lab_start = \<lparr>w_outside = Map.empty, w_client = (), w_events = []\<rparr>"

definition lab_record :: change_set where
  "lab_record = planned_record lab_env ''c1'' ''stdio'' ''network/new'' ''create'' (plan_action ObjNetwork lab_body)
     ''digest'' 100 ''artifact''"

text \<open>The approval: in lab mode the plan waives it, otherwise another principal gives it.\<close>

definition bench_approved :: "bool \<Rightarrow> change_set" where
  "bench_approved b = (if b then lab_record\<lparr>cs_state := StateApproved, cs_approval := Some \<lparr>apr_waived = Some ''stdio''\<rparr>\<rparr>
     else lab_record\<lparr>cs_state := StateApproved, cs_approver := Some ''noc''\<rparr>)"

definition bench_planned :: "bool \<Rightarrow> (lab_state, unit) world" where
  "bench_planned b = \<lparr>w_outside = [''c1'' \<mapsto> bench_approved b],
     w_client = (), w_events = [EvInsert lab_record,
       if b then EvWaive ''c1'' else EvApprove ''c1'' ''network/new'' ''noc'' ''digest'' ActorHuman]\<rparr>"

abbreviation lab_planned :: "(lab_state, unit) world" where
  "lab_planned \<equiv> bench_planned True"

abbreviation lab_approved :: change_set where
  "lab_approved \<equiv> bench_approved True"

lemmas lab_defs = bench_env_def bench_server_def lab_coordinator_def lab_plan_def lab_apply_def lab_start_def


lemma bind_run: "run m w = (w', Inr x) \<Longrightarrow> run (bind_act m f) w = run (f x) w'"
  by (simp add: run_bind)

lemma lab_guarded: "run (device_guarded (bench_env b) d m) w = run m w"
  by (simp add: device_guarded_def Let_def run_steps bench_env_def lab_coordinator_def run_finally split: prod.split)

lemma lab_merge: "merge_patch JNull lab_body = lab_body"
  by (simp add: lab_body_def) code_simp

lemma lab_body_accepted:
  "reject_config_authority lab_body = Inr ()" "reject_redaction_placeholder lab_body = Inr ()"
  unfolding lab_body_def by code_simp+

text \<open>Planned, and neither waived nor approved.\<close>

definition office_pending :: "(lab_state, unit) world" where
  "office_pending = \<lparr>w_outside = [''c1'' \<mapsto> lab_record], w_client = (), w_events = [EvInsert lab_record]\<rparr>"

lemma bench_plan_run:
  "\<exists>response. run (plan_mist_change (bench_env b) None lab_plan) lab_start =
     (if b then lab_planned else office_pending, Inr response)"
proof -
  have "run (plan_checks (sv_handler (ce_server (bench_env b))) lab_plan) lab_start = (lab_start, Inr ())"
    by (simp add: plan_checks_def lab_defs run_steps example_handler_def example_org_def lab_body_accepted)
  moreover have "run (plan_before (bench_env b) None lab_plan) lab_start = (lab_start, Inr JNull)"
    by (simp add: plan_before_def lab_plan_def run_ret)
  moreover obtain staged where "run (stage_plan (bench_env b) ''stdio'' ObjNetwork None example_org JNull lab_body) lab_start =
      (office_pending, Inr staged)"
    "sp_change_set_id staged = ''c1''" "sp_plan_digest staged = ''digest''"
    by (simp add: stage_plan_def Let_def run_steps lab_defs before_fingerprint_def object_key_def preview_artifact_def
        lab_insert_def office_pending_def lab_record_def and_then_def planned_record_def lab_artifact_def)
  ultimately have "run (plan_mist_change (bench_env b) None lab_plan) lab_start =
      run (bind_act (plan_propose (bench_env b) lab_plan ''stdio'' staged) (\<lambda>_.
      bind_act (plan_waive (bench_env b) lab_plan ''stdio'' staged) (\<lambda>_. ret (plan_response (bench_env b) JNull staged))))
        office_pending"
    unfolding plan_mist_change_def Let_def
    by (simp add: bind_run lab_merge principal_of_def) (simp add: lab_plan_def bind_run lab_merge)
  with \<open>sp_change_set_id staged = ''c1''\<close> \<open>sp_plan_digest staged = ''digest''\<close> show ?thesis
    by (simp add: plan_propose_def plan_waive_def run_steps lab_defs lab_waive_def lab_transition_def
        office_pending_def bench_planned_def bench_approved_def lab_record_def planned_record_def)
qed

lemma lab_planned_run:
  "\<exists>response. run (plan_mist_change lab_env None lab_plan) lab_start = (lab_planned, Inr response)"
  using bench_plan_run [of True] by simp

text \<open>Without lab mode nothing is waived, and another principal approves.\<close>

definition office_approval :: approve_args where
  "office_approval = \<lparr>ca_change_set_id = ''c1'', ca_object = ObjNetwork, ca_object_id = None, ca_plan_digest = ''digest''\<rparr>"

lemma office_approve_run:
  "\<exists>response. run (approve_mist_change_set office_env (Some example_caller) office_approval) office_pending =
     (bench_planned False, Inr response)"
  by (simp add: approve_mist_change_set_def Let_def run_steps office_approval_def office_pending_def lab_defs principal_of_def
      actor_of_def example_caller_def object_key_def lab_approve_def lab_transition_def bench_planned_def bench_approved_def
      lab_record_def planned_record_def)

text \<open>The apply of that plan: it writes, the service answers with an identifier, and as the
  catalog of the example has no read of networks the change is marked failed.\<close>

definition bench_ready :: "bool \<Rightarrow> apply_ready" where
  "bench_ready b = \<lparr>rd_record = bench_approved b, rd_after = lab_body, rd_org_id = example_org, rd_object_id = [],
     rd_drift_checked = False\<rparr>"

definition bench_applied :: "bool \<Rightarrow> (lab_state, unit) world" where
  "bench_applied b = (bench_planned b)\<lparr>w_outside := [''c1'' \<mapsto> (bench_approved b)\<lparr>cs_state := StateFailed\<rparr>],
     w_events := w_events (bench_planned b) @ [EvClaim ''c1'' HandleNone, EvCall (ready_write lab_apply (bench_ready b)) Standard,
       EvUpdate ((bench_approved b)\<lparr>cs_state := StateFailed\<rparr>)]\<rparr>"

abbreviation lab_ready :: apply_ready where
  "lab_ready \<equiv> bench_ready True"

abbreviation lab_applied :: "(lab_state, unit) world" where
  "lab_applied \<equiv> bench_applied True"

lemma lab_prepare: "run (apply_prepare (bench_env b) None lab_apply) (bench_planned b) = (bench_planned b, Inr (bench_ready b))"
proof -
  have fields: "cs_state (bench_approved b) = StateApproved" "cs_expires_at_unix (bench_approved b) = 3700"
    "cs_id (bench_approved b) = ''c1''" "cs_device (bench_approved b) = ''network/new''" "cs_fingerprint (bench_approved b) = ''create''"
    "cs_preview (bench_approved b) = Some \<lparr>pv_artifact = ''artifact'', pv_digest = ''artifact'', pv_job_id = None\<rparr>"
    by (simp_all add: bench_approved_def lab_record_def planned_record_def sat_add_def bench_env_def)
  have "run (apply_record (bench_env b) lab_apply) (bench_planned b) = (bench_planned b, Inr (bench_approved b))"
    by (simp add: apply_record_def Let_def run_steps lab_defs bench_planned_def lab_change_set_def fields
        object_key_def flip: bench_approved_def)
  moreover have "run (apply_preview (bench_env b) (bench_approved b)) (bench_planned b) = (bench_planned b, Inr (lab_body, example_org))"
    by (simp add: apply_preview_def run_steps fields lab_defs lab_artifact_def preview_member_def jget_def obj_get_def)
  ultimately show ?thesis
    by (simp add: apply_prepare_def bind_run apply_object_id_def drift_check_def apply_verb_def fields
        run_steps bench_ready_def apply_org_def lab_defs example_handler_def example_org_def)
qed

lemma lab_dispatch:
  assumes "catalog_operation example_catalog (cr_operation_id rd) = None"
  shows "run (dispatch_act (bench_env b) caller rd) w = (w, Inr \<lparr>cr_is_error = True, cr_text = None\<rparr>)"
  using assms
  by (simp add: run_dispatch_act Let_def dispatch_catalogued_read_def check_read_def bench_env_def bench_server_def
      example_handler_def split: option.splits)

lemma lab_no_read:
  "catalog_operation example_catalog (cr_operation_id (object_read tool (write_target ObjNetwork v) i org)) = None"
  by (cases v) (simp_all add: object_read_def catalog_operation_def example_catalog_def index_get_def
      bt_get_def list_get_def target_info_def)

definition bench_claimed :: "bool \<Rightarrow> (lab_state, unit) world" where
  "bench_claimed b = (bench_planned b)\<lparr>w_outside := [''c1'' \<mapsto> (bench_approved b)\<lparr>cs_state := StateApplying\<rparr>],
     w_events := w_events (bench_planned b) @ [EvClaim ''c1'' HandleNone]\<rparr>"

definition lab_response :: mist_response where
  "lab_response = example_response\<lparr>resp_body := BodyJson (JObj [(''id'', JStr ''n1'')])\<rparr>"

definition bench_written :: "bool \<Rightarrow> (lab_state, unit) world" where
  "bench_written b = (bench_claimed b)\<lparr>w_events := w_events (bench_claimed b) @ [EvCall (ready_write lab_apply (bench_ready b)) Standard]\<rparr>"

lemma bench_approved_fields:
  "cs_state (bench_approved b) = StateApproved" "cs_id (bench_approved b) = ''c1''"
  "cs_device (bench_approved b) = ''network/new''" "cs_fingerprint (bench_approved b) = ''create''"
  by (simp_all add: bench_approved_def lab_record_def planned_record_def)

lemma lab_intent: "run (apply_intent (bench_env b) q who rec) w = (w, Inr ())"
  by (simp add: apply_intent_def run_ret bench_env_def)

lemma lab_claim_run:
  "run (apply_claim (bench_env b) (bench_approved b)) (bench_planned b) = (bench_claimed b, Inr ((bench_approved b)\<lparr>cs_state := StateApplying\<rparr>))"
  by (simp add: apply_claim_def run_steps bench_env_def lab_coordinator_def lab_claim_def lab_transition_def
      bench_approved_fields bench_planned_def bench_claimed_def flip: bench_approved_def)

lemma lab_write_step:
  "client_act (bench_env b) (ready_write lab_apply (bench_ready b)) Standard = Step (\<lambda>w.
     (w\<lparr>w_events := w_events w @ [EvCall (ready_write lab_apply (bench_ready b)) Standard]\<rparr>, Done (Inr (Inr lab_response))))"
  by (auto simp: client_act_def bench_env_def bench_server_def lab_exec_def lab_response_def)

lemma lab_write_run:
  "run (apply_write (bench_env b) None c (ready_write lab_apply (bench_ready b))) (bench_claimed b) = (bench_written b, Inr lab_response)"
  by (simp add: apply_write_def call_priority_for_def lab_write_step run_steps bench_written_def)

lemma lab_settle_run:
  "\<exists>response. run (apply_settle (bench_env b) None lab_apply (bench_ready b) ((bench_approved b)\<lparr>cs_state := StateApplying\<rparr>) lab_response) (bench_written b) =
     (bench_applied b, Inr response)"
proof -
  let ?c = "(bench_approved b)\<lparr>cs_state := StateApplying\<rparr>"
  have object: "ca_object lab_apply = ObjNetwork" by (simp add: lab_apply_def)
  have verb: "apply_verb (rd_record (bench_ready b)) = VerbCreate"
    by (simp add: bench_ready_def apply_verb_def bench_approved_fields)
  have final: "run (final_object_id (bench_env b) q who ?c VerbCreate i lab_response) w = (w, Inr ''n1'')"
    for q who i and w :: "(lab_state, unit) world"
    by (simp add: final_object_id_def created_object_id_def jget_def obj_get_def run_ret lab_response_def)
  have verify: "run (apply_verify (bench_env b) None (write_target ObjNetwork v) i org after) w = (w, Inr False)"
    for v i org after and w :: "(lab_state, unit) world"
    by (simp add: apply_verify_def bind_run [OF lab_dispatch [OF lab_no_read]] verified_data_def run_ret)
  have verify': "run (bind_act (apply_verify (bench_env b) None (write_target ObjNetwork v) i org after) f) w = run (f False) w"
    for v i org after and w :: "(lab_state, unit) world" and f :: "bool \<Rightarrow> (lab_state, unit, json) act"
    by (simp add: run_bind verify del: write_target.simps)
  have receipt: "run (result_receipt (bench_env b) q who rec ok reason) w = (w, Inr ())"
    for q who rec ok reason and w :: "(lab_state, unit) world"
    by (simp add: result_receipt_def bench_env_def run_ret)
  have finish: "run (apply_finish (bench_env b) ?c False) (bench_written b) = (bench_applied b, Inr ((bench_approved b)\<lparr>cs_state := StateFailed\<rparr>))"
    by (simp add: apply_finish_def Let_def run_steps bench_env_def lab_coordinator_def lab_update_def lab_transition_def
        bench_approved_fields bench_applied_def bench_written_def bench_claimed_def)
  show ?thesis
    unfolding apply_settle_def Let_def verb
    by (simp add: verify' bind_run final receipt finish [simplified] object run_ret del: write_target.simps)
qed

lemma lab_commit_run:
  "\<exists>response. run (apply_commit (bench_env b) None lab_apply (bench_ready b)) (bench_planned b) = (bench_applied b, Inr response)"
proof -
  have "rd_record (bench_ready b) = bench_approved b" by (simp add: bench_ready_def)
  then show ?thesis
    using lab_settle_run by (simp add: apply_commit_def bind_run lab_intent lab_claim_run lab_write_run)
qed

lemma lab_apply_run:
  "\<exists>response. run (apply_mist_change_set (bench_env b) None lab_apply) (bench_planned b) = (bench_applied b, Inr response)"
  using lab_commit_run by (simp add: apply_mist_change_set_def lab_guarded bind_run lab_prepare)

text \<open>A second apply of the same change set is refused, as it is not approved any more.\<close>

lemma lab_second_apply:
  "\<exists>e. run (apply_mist_change_set (bench_env b) None lab_apply) (bench_applied b) = (bench_applied b, Inl e)"
proof -
  have "\<exists>e. run (apply_record (bench_env b) lab_apply) (bench_applied b) = (bench_applied b, Inl e)"
    by (simp add: apply_record_def Let_def run_steps lab_defs bench_applied_def lab_change_set_def object_key_def
        bench_planned_def bench_approved_def lab_record_def planned_record_def)
  then show ?thesis
    by (auto simp: apply_mist_change_set_def lab_guarded apply_prepare_def run_bind)
qed

section \<open>Witnesses\<close>

theorem spent_apply_writes_nothing_witness:
  "writes_in (w_events (fst (run (apply_mist_change_set lab_env None lab_apply) lab_applied))) =
     writes_in (w_events lab_applied)"
proof (rule spent_apply_writes_nothing [OF lab_policy])
  show "lab_spent (ca_change_set_id lab_apply) (w_outside lab_applied)"
    by (simp add: lab_spent_def lab_apply_def bench_applied_def)
qed


theorem create_fingerprint_iff_witness: "\<exists>f. before_fingerprint lab_env (JObj []) = Inr f \<and> f \<noteq> ''create''"
proof -
  obtain f where f: "before_fingerprint lab_env (JObj []) = Inr f"
    by (simp add: before_fingerprint_def bench_env_def and_then_def)
  from create_fingerprint_iff [OF this] f show ?thesis by auto
qed

theorem server_member_never_verifies_witness:
  "\<not> verified_data (lab_env\<lparr>ce_from_str := \<lambda>_. Inr (JObj [(''data'', JObj [(''id'', JStr ''n1'')])])\<rparr>)
       \<lparr>cr_is_error = False, cr_text = Some []\<rparr> lab_body"
  unfolding lab_body_def
  by (rule server_member_never_verifies [of _ _ "[(''id'', JStr ''n1'')]" "''id''" "JStr ''n1''"])
    (simp_all add: result_data_def jget_def obj_get_def and_then_def map_err_def)

end
