(* ===== verification/Server.thy ===== *)
theory Server
  imports Router LocalTools Lab
begin

text \<open>
  The whole server: any call of any of its tools, over the world of the change-set handlers. A read tool reaches the client only; the tools that answer from
  local data reach nothing; the change-set tools are those of \<open>Lifecycle\<close>.
\<close>

section \<open>Calls\<close>

datatype server_call =
    ReadTool "caller_ctx option" tool_call
  | SearchOperations "caller_ctx option" search_operations_args
  | OperationSchema "caller_ctx option" string
  | ListOrgs "caller_ctx option"
  | ChangeTool lifecycle_call

text \<open>The name a call is registered under.\<close>

fun lifecycle_tool :: "lifecycle_call \<Rightarrow> string" where
  "lifecycle_tool (CallPlan _ _) = ''plan_mist_change''"
| "lifecycle_tool (CallInspect _) = ''get_mist_change_set''"
| "lifecycle_tool (CallApprove _ _) = ''approve_mist_change_set''"
| "lifecycle_tool (CallApply _ _) = ''apply_mist_change_set''"

fun server_tool :: "server_call \<Rightarrow> string" where
  "server_tool (ReadTool _ t) = tool_of t"
| "server_tool (SearchOperations _ _) = ''search_mist_operations''"
| "server_tool (OperationSchema _ _) = ''get_mist_operation_schema''"
| "server_tool (ListOrgs _) = ''list_mist_orgs''"
| "server_tool (ChangeTool c) = lifecycle_tool c"

text \<open>
  What a call does to the world, as a resumption and run without interruption. A read tool is one
  step, of its calls of the client; the results of the tools that only read are not kept here.
\<close>

fun server_task :: "('v, 's, 'c) change_env \<Rightarrow> server_call \<Rightarrow> ('s, 'c, unit) act" where
  "server_task env (ReadTool caller t) = Step (\<lambda>w.
     let out = call_tool (ce_server env) caller (w_client w) t in
     (w\<lparr>w_client := do_client out, w_events := w_events w @ map (\<lambda>(r, p). EvCall r p) (do_calls out)\<rparr>,
      Done (Inr ())))"
| "server_task env (SearchOperations caller args) = ret ()"
| "server_task env (OperationSchema caller i) = ret ()"
| "server_task env (ListOrgs caller) = ret ()"
| "server_task env (ChangeTool c) = bind_act (run_call env c) (\<lambda>_. ret ())"

definition serve :: "('v, 's, 'c) change_env \<Rightarrow> server_call \<Rightarrow> ('s, 'c) world \<Rightarrow> ('s, 'c) world" where
  "serve env call w = fst (run (server_task env call) w)"

text \<open>The change set that a call applies, if it is an apply.\<close>

fun served_id :: "server_call \<Rightarrow> string option" where
  "served_id (ChangeTool c) = applied_id c"
| "served_id _ = None"

fun served_principal :: "server_call \<Rightarrow> string option" where
  "served_principal (ChangeTool c) = acting_principal c"
| "served_principal _ = None"

section \<open>What a call may do\<close>

lemma read_tool_no_write:
  "writes_in (map (\<lambda>(r, p). EvCall r p) (do_calls (call_tool sv caller client t))) = []"
proof -
  have "req_json r = None" if "(r, p) \<in> set (do_calls (call_tool sv caller client t))" for r p
    using tool_reads [of sv caller t client] that unfolding reads_only_def call_permitted_def by blast
  then show ?thesis by (force simp: writes_in_def filter_empty_conv is_write_def)
qed

lemma claiming_discard:
  assumes "claiming spent i m"
  shows "claiming spent i (bind_act m (\<lambda>_. ret ()))"
proof -
  have ret: "steps (idle_step spent) (\<lambda>_. True) (case r of Inl e \<Rightarrow> Done (Inl e) | Inr _ \<Rightarrow> ret ())" for r
    by (cases r) (auto intro: steps.intros steps_ret)
  have discard: "steps (idle_step spent) (\<lambda>_. True) (bind_act t (\<lambda>_. ret ()))" if "steps (idle_step spent) (\<lambda>_. True) t" for t
    using that by (rule steps_then) (simp add: steps_ret)
  have armed: "armed spent (bind_act t (\<lambda>_. ret ()))" if "armed spent t" for t
    using that
  proof induction
    case (armed_step g)
    have "kept spent w (fst (g w)) \<and> (silent w (fst (g w)) \<and> armed spent (bind_act (snd (g w)) (\<lambda>_. ret ())) \<or>
        one_write w (fst (g w)) \<and> steps (idle_step spent) (\<lambda>_. True) (bind_act (snd (g w)) (\<lambda>_. ret ())))" for w
      using armed_step [of w] discard by blast
    then show ?case by (simp only: bind_act.simps) (rule armed.armed_step, simp)
  qed (simp add: armed_idle [OF ret])
  from assms show ?thesis
  proof induction
    case (claiming_step g)
    have "kept spent w (fst (g w)) \<and> silent w (fst (g w)) \<and> (claiming spent i (bind_act (snd (g w)) (\<lambda>_. ret ())) \<or>
        spends spent i w (fst (g w)) \<and> armed spent (bind_act (snd (g w)) (\<lambda>_. ret ())))" for w
      using claiming_step [of w] armed by blast
    then show ?case by (simp only: bind_act.simps) (rule claiming.claiming_step, simp)
  qed (simp add: claiming_idle [OF ret])
qed

text \<open>Every call of the server is disciplined.\<close>

lemma server_task_disciplined:
  assumes "transition_policy env spent"
  shows "disciplined spent (served_id call) (server_task env call)"
proof (cases call)
  case (ReadTool caller t)
  then show ?thesis
    by (auto simp: disciplined_def idle_step_def kept_def silent_def read_tool_no_write Let_def intro!: steps.intros)
next
  case (ChangeTool c)
  with run_call_disciplined [OF assms, of c] show ?thesis
    by (auto simp: disciplined_def intro!: claiming_discard steps_then steps_ret split: option.splits)
qed (simp_all add: disciplined_def steps_ret)

text \<open>In lab mode a plan and an apply without any caller write: no step of the two asks for one.\<close>

theorem unauthenticated_lab_write:
  "lab_applied = serve lab_env (ChangeTool (CallApply None lab_apply))
      (serve lab_env (ChangeTool (CallPlan None lab_plan)) lab_start) \<and>
   writes_in (w_events lab_start) = [] \<and> length (writes_in (w_events lab_applied)) = 1"
proof -
  have "serve lab_env (ChangeTool (CallPlan None lab_plan)) lab_start = lab_planned"
    "serve lab_env (ChangeTool (CallApply None lab_apply)) lab_planned = lab_applied"
    using lab_planned_run lab_apply_run [of True] by (auto simp: serve_def run_bind run_ret)
  then show ?thesis
    by (simp add: lab_start_def bench_planned_def bench_applied_def writes_in_def is_write_def ready_write_def
        write_request_of_def Let_def)
qed

end
