(* ===== verification/Preflight.thy ===== *)
theory Preflight
  imports Target Json
begin

text \<open>
  \<open>http_transport.rs\<close>: the early scope check of the HTTP transport, over the raw body of a
  request. The scope sets of the caller belong to the shared authentication crate: they are the
  record \<open>caller_scopes\<close>, of which tools (given the restricted ones) and which subjects they
  allow. Parsing the body is the parameter \<open>from_slice\<close>. The rest of the file hands values to
  the shared transport crate and is not modelled.
\<close>

section \<open>The check\<close>

record caller_scopes =
  scope_allows_tool :: "string \<Rightarrow> string list \<Rightarrow> bool"
  scope_allows :: "string \<Rightarrow> bool"

record mist_scope_preflight =
  restricted_tools :: "string list"

definition canonical_target :: "string \<Rightarrow> string \<Rightarrow> string option" where
  "canonical_target field i =
     map_option target_subject
       (if field = ''org_id'' then (case target_org i of Inr t \<Rightarrow> Some t | Inl _ \<Rightarrow> None)
        else if field = ''site_id'' then (case target_site i of Inr t \<Rightarrow> Some t | Inl _ \<Rightarrow> None)
        else None)"

definition target_map_exceeds_scope :: "jmap \<Rightarrow> (string \<Rightarrow> bool) \<Rightarrow> bool" where
  "target_map_exceeds_scope values allows =
     list_ex (\<lambda>field. case obj_get values field of
         None \<Rightarrow> False
       | Some v \<Rightarrow> (case Option.bind (as_str v) (canonical_target field) of
           None \<Rightarrow> True
         | Some subject \<Rightarrow> \<not> allows subject)) [''org_id'', ''site_id'']"

definition request_exceeds_scope :: "mist_scope_preflight \<Rightarrow> json \<Rightarrow> caller_scopes \<Rightarrow> bool" where
  "request_exceeds_scope pre v scopes =
     (if Option.bind (jget v ''method'') as_str \<noteq> Some ''tools/call'' then False
      else case jget v ''params'' of
        None \<Rightarrow> False
      | Some params \<Rightarrow>
      (case Option.bind (jget params ''name'') as_str of
        None \<Rightarrow> False
      | Some tool \<Rightarrow>
      if \<not> scope_allows_tool scopes tool (restricted_tools pre) then True
      else case jget params ''arguments'' of
        None \<Rightarrow> False
      | Some arguments \<Rightarrow>
      (case as_object arguments of
        None \<Rightarrow> True
      | Some arguments \<Rightarrow>
      if target_map_exceeds_scope arguments (scope_allows scopes) then True
      else list_ex (\<lambda>container. case obj_get arguments container of
          None \<Rightarrow> False
        | Some w \<Rightarrow> if is_null w then False
            else (case as_object w of
                None \<Rightarrow> True
              | Some values \<Rightarrow> target_map_exceeds_scope values (scope_allows scopes))) [''path'', ''query''])))"

definition preflight_check ::
  "(string \<Rightarrow> json option) \<Rightarrow> mist_scope_preflight \<Rightarrow> string \<Rightarrow> caller_scopes \<Rightarrow> string + unit" where
  "preflight_check from_slice pre body scopes =
     (if body = [] then Inr ()
      else case from_slice body of
        None \<Rightarrow> Inr ()
      | Some v \<Rightarrow>
          (let denied = (case v of
              JArr values \<Rightarrow> list_ex (\<lambda>w. request_exceeds_scope pre w scopes) values
            | w \<Rightarrow> request_exceeds_scope pre w scopes)
           in if denied then Inl ''insufficient_scope'' else Inr ()))"

section \<open>What passes\<close>

text \<open>The calls of a body: the members of a batch, or the one value.\<close>

fun calls_of :: "json \<Rightarrow> json list" where
  "calls_of (JArr values) = values"
| "calls_of v = [v]"

text \<open>The tool that a value calls, if it is a tool call that names one, and its arguments.\<close>

definition called_tool :: "json \<Rightarrow> string option" where
  "called_tool v =
     (if Option.bind (jget v ''method'') as_str = Some ''tools/call''
      then Option.bind (jget v ''params'') (\<lambda>params. Option.bind (jget params ''name'') as_str) else None)"

definition call_arguments :: "json \<Rightarrow> json option" where
  "call_arguments v = Option.bind (jget v ''params'') (\<lambda>params. jget params ''arguments'')"

text \<open>A value that is a canonical identifier of the field's kind, and whose subject is in scope.\<close>

fun id_in_scope :: "caller_scopes \<Rightarrow> mist_target_kind \<Rightarrow> json option \<Rightarrow> bool" where
  "id_in_scope scopes kind None = True"
| "id_in_scope scopes kind (Some (JStr i)) =
     (is_canonical_uuid i \<and> scope_allows scopes (target_subject (MistTarget kind i)))"
| "id_in_scope scopes kind (Some _) = False"

definition ids_in_scope :: "caller_scopes \<Rightarrow> jmap \<Rightarrow> bool" where
  "ids_in_scope scopes m \<longleftrightarrow>
     id_in_scope scopes KindOrg (obj_get m ''org_id'') \<and> id_in_scope scopes KindSite (obj_get m ''site_id'')"

fun container_in_scope :: "caller_scopes \<Rightarrow> json option \<Rightarrow> bool" where
  "container_in_scope scopes (Some (JObj m)) = ids_in_scope scopes m"
| "container_in_scope scopes (Some JNull) = True"
| "container_in_scope scopes (Some _) = False"
| "container_in_scope scopes None = True"

fun arguments_in_scope :: "caller_scopes \<Rightarrow> json option \<Rightarrow> bool" where
  "arguments_in_scope scopes None = True"
| "arguments_in_scope scopes (Some (JObj m)) =
     (ids_in_scope scopes m \<and> container_in_scope scopes (obj_get m ''path'') \<and>
      container_in_scope scopes (obj_get m ''query''))"
| "arguments_in_scope scopes (Some _) = False"

definition call_in_scope :: "mist_scope_preflight \<Rightarrow> caller_scopes \<Rightarrow> json \<Rightarrow> bool" where
  "call_in_scope pre scopes v \<longleftrightarrow>
     (case called_tool v of
        None \<Rightarrow> True
      | Some tool \<Rightarrow> scope_allows_tool scopes tool (restricted_tools pre) \<and>
          arguments_in_scope scopes (call_arguments v))"

lemma target_map_iff: "\<not> target_map_exceeds_scope m (scope_allows scopes) \<longleftrightarrow> ids_in_scope scopes m"
proof -
  have "(case x of None \<Rightarrow> False
      | Some v \<Rightarrow> (case Option.bind (as_str v) (canonical_target ''org_id'') of
          None \<Rightarrow> True | Some subject \<Rightarrow> \<not> scope_allows scopes subject)) \<longleftrightarrow> \<not> id_in_scope scopes KindOrg x"
    "(case x of None \<Rightarrow> False
      | Some v \<Rightarrow> (case Option.bind (as_str v) (canonical_target ''site_id'') of
          None \<Rightarrow> True | Some subject \<Rightarrow> \<not> scope_allows scopes subject)) \<longleftrightarrow> \<not> id_in_scope scopes KindSite x" for x
    by (cases "(scopes, KindOrg, x)" rule: id_in_scope.cases;
        simp add: canonical_target_def target_org_def target_site_def)+
  then show ?thesis by (simp add: target_map_exceeds_scope_def ids_in_scope_def)
qed

lemma request_exceeds_iff: "\<not> request_exceeds_scope pre v scopes \<longleftrightarrow> call_in_scope pre scopes v"
proof -
  have container: "(case x of None \<Rightarrow> False
        | Some w \<Rightarrow> if is_null w then False
            else (case as_object w of None \<Rightarrow> True
              | Some values \<Rightarrow> target_map_exceeds_scope values (scope_allows scopes))) \<longleftrightarrow>
      \<not> container_in_scope scopes x" for x
    using target_map_iff by (cases "(scopes, x)" rule: container_in_scope.cases) auto
  have arguments: "(case as_object a of None \<Rightarrow> True
      | Some m \<Rightarrow> if target_map_exceeds_scope m (scope_allows scopes) then True
          else list_ex (\<lambda>name. case obj_get m name of None \<Rightarrow> False
            | Some w \<Rightarrow> if is_null w then False
                else (case as_object w of None \<Rightarrow> True
                  | Some values \<Rightarrow> target_map_exceeds_scope values (scope_allows scopes))) [''path'', ''query'']) \<longleftrightarrow>
      \<not> arguments_in_scope scopes (Some a)" for a
    using target_map_iff by (cases a) (simp_all add: container, metis)
  show ?thesis
  proof (cases "call_arguments v")
    case None
    then show ?thesis
      by (auto simp: request_exceeds_scope_def call_in_scope_def called_tool_def call_arguments_def
          bind_eq_None_conv split: option.split bind_split)
  next
    case (Some a)
    then obtain params where p: "jget v ''params'' = Some params" "jget params ''arguments'' = Some a"
      by (auto simp: call_arguments_def bind_eq_Some_conv)
    show ?thesis
      unfolding request_exceeds_scope_def p option.case arguments
      using p by (auto simp: call_in_scope_def called_tool_def call_arguments_def bind_eq_Some_conv
          simp del: arguments_in_scope.simps split: option.split)
  qed
qed

lemma denied_iff:
  "(case v of JArr values \<Rightarrow> list_ex (\<lambda>w. request_exceeds_scope pre w scopes) values
      | w \<Rightarrow> request_exceeds_scope pre w scopes) \<longleftrightarrow> \<not> list_all (call_in_scope pre scopes) (calls_of v)"
  using request_exceeds_iff [of pre _ scopes] by (cases v) (auto simp: list_ex_iff list_all_iff)

lemma preflight_passed:
  assumes "preflight_check from_slice pre body scopes = Inr ()" and "body \<noteq> []" and "from_slice body = Some v"
  shows "list_all (call_in_scope pre scopes) (calls_of v)"
  using assms denied_iff [of pre scopes v] by (auto simp: preflight_check_def Let_def split: if_splits)

text \<open>C21: The preflight refuses a body exactly when one of its tool calls names a tool or an
  organization or site, in its arguments or in their path or query, that the caller's scope does
  not allow, or an identifier that is not canonical; it never refuses a body it cannot parse.\<close>

theorem preflight_exact:
  "preflight_check from_slice pre body scopes = Inr () \<longleftrightarrow>
     (case (if body = [] then None else from_slice body) of
        None \<Rightarrow> True
      | Some v \<Rightarrow> list_all (call_in_scope pre scopes) (calls_of v))"
proof (cases "if body = [] then None else from_slice body")
  case None
  then show ?thesis by (simp add: preflight_check_def split: if_splits)
next
  case (Some v)
  with denied_iff [of pre scopes v] show ?thesis by (auto simp: preflight_check_def Let_def split: if_splits)
qed

end
