(* ===== verification/Wire.thy ===== *)
theory Wire
  imports Arguments Server Preflight
begin

text \<open>
  From the wire to the handlers: the router of \<open>server/mod.rs\<close> as a table from the names of the
  tools to the reading of their arguments, and what it gives together with the scope preflight of
  \<open>http_transport.rs\<close>, which sees the same body before. A call whose arguments cannot be read
  is answered by the \<open>rmcp\<close> crate and reaches no handler.
\<close>

section \<open>The arguments of the read tools\<close>

definition plain :: "(json \<Rightarrow> tool_call) \<Rightarrow> args_spec \<Rightarrow> jmap \<Rightarrow> tool_call option" where
  "plain con spec m = map_option (\<lambda>a. con (JObj (serialize_args spec a))) (decode_args spec m)"

definition moded :: "(stats_mode \<times> json \<Rightarrow> tool_call) \<Rightarrow> args_spec \<Rightarrow> jmap \<Rightarrow> tool_call option" where
  "moded con spec m =
     Option.bind (decode_args spec m) (\<lambda>a.
     map_option (\<lambda>mode. con (mode, JObj (serialize_args spec a))) (enum_arg stats_mode_arg a ''mode''))"

definition other_fields :: "string list \<Rightarrow> args_spec \<Rightarrow> jmap \<Rightarrow> jmap" where
  "other_fields names spec a = filter (\<lambda>(n, _). n \<notin> set names) (serialize_args spec a)"

definition scoped_of :: "args_spec \<Rightarrow> jmap \<Rightarrow> stats_mode \<Rightarrow> scoped_args" where
  "scoped_of spec a mode = \<lparr>sc_org_id = opt_str a ''org_id'', sc_site_id = opt_str a ''site_id'', sc_mode = mode,
     sc_fields = other_fields [''org_id'', ''site_id''] spec a\<rparr>"

definition scoped :: "(scoped_args \<Rightarrow> tool_call) \<Rightarrow> args_spec \<Rightarrow> jmap \<Rightarrow> tool_call option" where
  "scoped con spec m =
     Option.bind (decode_args spec m) (\<lambda>a.
     map_option (\<lambda>mode. con (scoped_of spec a mode)) (enum_arg stats_mode_arg a ''mode''))"

definition edge_list :: "jmap \<Rightarrow> tool_call option" where
  "edge_list m = map_option (\<lambda>a. ListMistWanEdges (scoped_of WanEdgeListArgs a ModeRecords))
     (decode_args WanEdgeListArgs m)"

definition config_list :: "jmap \<Rightarrow> tool_call option" where
  "config_list m =
     Option.bind (decode_args WanConfigListArgs m) (\<lambda>a.
     map_option (\<lambda>object. ListMistWanConfig (object, scoped_of WanConfigListArgs a ModeRecords))
       (enum_arg wan_object_arg a ''object''))"

definition config_get :: "jmap \<Rightarrow> tool_call option" where
  "config_get m =
     Option.bind (decode_args WanConfigGetArgs m) (\<lambda>a.
     Option.bind (enum_arg wan_object_arg a ''object'') (\<lambda>object.
     Option.bind (opt_str a ''org_id'') (\<lambda>org_id.
     map_option (\<lambda>object_id. GetMistWanConfig
       \<lparr>cg_object = object, cg_org_id = org_id, cg_object_id = object_id\<rparr>) (opt_str a ''object_id''))))"

definition sle_impact_call :: "jmap \<Rightarrow> tool_call option" where
  "sle_impact_call m =
     Option.bind (decode_args SleImpactArgs m) (\<lambda>a.
     map_option (\<lambda>impact. GetMistSleImpact (impact, JObj (serialize_args SleImpactArgs a)))
       (enum_arg sle_impact_arg a ''impact''))"

definition edge_stats :: "jmap \<Rightarrow> tool_call option" where
  "edge_stats m = map_option (\<lambda>a. GetMistWanEdgeStats
       \<lparr>es_device_id = opt_str a ''device_id'', es_fields = other_fields [''device_id''] WanEdgeStatsArgs a\<rparr>)
     (decode_args WanEdgeStatsArgs m)"

definition application_list :: "jmap \<Rightarrow> tool_call option" where
  "application_list m =
     Option.bind (decode_args ApplicationListArgs m) (\<lambda>a.
     Option.bind (enum_arg app_source_arg a ''source'') (\<lambda>source.
     map_option (\<lambda>mode. ListMistApplications
       \<lparr>ap_source = source, ap_site_id = opt_str a ''site_id'', ap_mode = mode,
        ap_fields = other_fields [''site_id''] ApplicationListArgs a\<rparr>) (enum_arg stats_mode_arg a ''mode'')))"

definition get_org :: "jmap \<Rightarrow> tool_call option" where
  "get_org m = Option.bind (decode_args GetOrgArgs m) (\<lambda>a. map_option GetMistOrg (opt_str a ''org_id''))"

text \<open>The maps of a dispatcher call.\<close>

definition strings_map :: "jmap \<Rightarrow> (string, string) btree" where
  "strings_map m = bt_from [(k, s). (k, JStr s) \<leftarrow> m]"

definition opt_map :: "jmap \<Rightarrow> string \<Rightarrow> jmap option" where
  "opt_map a n = Option.bind (obj_get a n) as_object"

definition invoke :: "(invoke_args \<Rightarrow> tool_call) \<Rightarrow> jmap \<Rightarrow> tool_call option" where
  "invoke con m =
     Option.bind (decode_args InvokeReadArgs m) (\<lambda>a.
     map_option (\<lambda>i. con \<lparr>ia_operation_id = i, ia_path = map_option strings_map (opt_map a ''path''),
       ia_query = map_option bt_from (opt_map a ''query''), ia_cursor = opt_str a ''cursor''\<rparr>)
       (opt_str a ''operation_id''))"

section \<open>The router\<close>

text \<open>The read tools in the order of the file.\<close>

definition read_table :: "(string \<times> (jmap \<Rightarrow> tool_call option)) list" where
  "read_table = [
     (''get_mist_device'', plain GetMistDevice SiteDeviceArgs),
     (''get_mist_device_stats'', plain GetMistDeviceStats DeviceStatsArgs),
     (''get_mist_insight'', plain GetMistInsight InsightArgs),
     (''get_mist_org'', get_org),
     (''get_mist_rrm'', plain GetMistRrm SiteArgs),
     (''get_mist_self'', plain GetMistSelf EmptyArgs),
     (''get_mist_site'', plain GetMistSite SiteArgs),
     (''get_mist_sle'', plain GetMistSle SleArgs),
     (''get_mist_sle_impact'', sle_impact_call),
     (''get_mist_wan_config'', config_get),
     (''get_mist_wan_edge_stats'', edge_stats),
     (''invoke_mist_privileged_read'', invoke InvokeMistPrivilegedRead),
     (''invoke_mist_read'', invoke InvokeMistRead),
     (''list_mist_applications'', application_list),
     (''list_mist_rogues'', plain ListMistRogues RogueArgs),
     (''list_mist_sites'', plain ListMistSites OrgPageArgs),
     (''list_mist_sle_metrics'', plain ListMistSleMetrics SleMetricsArgs),
     (''list_mist_upgrades'', plain ListMistUpgrades UpgradeArgs),
     (''list_mist_wan_config'', config_list),
     (''list_mist_wan_edges'', edge_list),
     (''list_mist_wlans'', plain ListMistWlans SitePageArgs),
     (''search_mist_alarms'', scoped SearchMistAlarms AlarmSearchArgs),
     (''list_mist_alarm_definitions'', plain ListMistAlarmDefinitions EmptyArgs),
     (''search_mist_audit_logs'', plain SearchMistAuditLogs AuditSearchArgs),
     (''search_mist_bgp_peers'', scoped SearchMistBgpPeers BgpPeerSearchArgs),
     (''search_mist_clients'', plain SearchMistClients ClientSearchArgs),
     (''search_mist_events'', plain SearchMistEvents EventSearchArgs),
     (''search_mist_inventory'', plain SearchMistInventory InventoryArgs),
     (''search_mist_peer_paths'', moded SearchMistPeerPaths PeerPathSearchArgs),
     (''search_mist_service_path_events'', moded SearchMistServicePathEvents ServicePathEventArgs),
     (''search_mist_tunnels'', moded SearchMistTunnels TunnelSearchArgs),
     (''troubleshoot_mist'', plain TroubleshootMist TroubleshootArgs)]"

text \<open>The tools that answer from local data, and the change-set tools.\<close>

definition search_call :: "caller_ctx option \<Rightarrow> jmap \<Rightarrow> server_call option" where
  "search_call caller m =
     Option.bind (decode_args SearchOperationsArgs m) (\<lambda>a.
     map_option (\<lambda>query. SearchOperations caller \<lparr>so_query = query,
         so_capability = enum_arg search_capability_arg a ''capability'',
         so_target = enum_arg search_target_arg a ''target'',
         so_limit = map_option (\<lambda>n. word_of_nat (unat n)) (Option.bind (obj_get a ''limit'') as_u64)\<rparr>)
       (opt_str a ''query''))"

definition schema_call :: "caller_ctx option \<Rightarrow> jmap \<Rightarrow> server_call option" where
  "schema_call caller m = Option.bind (decode_args OperationSchemaArgs m) (\<lambda>a.
     map_option (OperationSchema caller) (opt_str a ''operation_id''))"

definition orgs_call :: "caller_ctx option \<Rightarrow> jmap \<Rightarrow> server_call option" where
  "orgs_call caller m = map_option (\<lambda>_. ListOrgs caller) (decode_args EmptyArgs m)"

definition plan_call :: "caller_ctx option \<Rightarrow> jmap \<Rightarrow> server_call option" where
  "plan_call caller m =
     Option.bind (decode_args PlanChangeArgs m) (\<lambda>a.
     Option.bind (enum_arg wan_object_arg a ''object'') (\<lambda>object.
     Option.bind (enum_arg write_verb_arg a ''verb'') (\<lambda>verb.
     Option.bind (opt_str a ''org_id'') (\<lambda>org_id.
     map_option (\<lambda>patch. ChangeTool (CallPlan caller \<lparr>pa_object = object, pa_verb = verb, pa_org_id = org_id,
       pa_object_id = opt_str a ''object_id'', pa_patch = patch\<rparr>)) (obj_get a ''patch'')))))"

definition change_args :: "args_spec \<Rightarrow> (jmap \<Rightarrow> change_set_args \<Rightarrow> server_call option) \<Rightarrow> jmap \<Rightarrow> server_call option" where
  "change_args spec f m =
     Option.bind (decode_args spec m) (\<lambda>a.
     Option.bind (opt_str a ''change_set_id'') (\<lambda>i.
     Option.bind (enum_arg wan_object_arg a ''object'') (\<lambda>object.
     f a \<lparr>ca_change_set_id = i, ca_object = object, ca_object_id = opt_str a ''object_id''\<rparr>)))"

definition change_table :: "(string \<times> (caller_ctx option \<Rightarrow> jmap \<Rightarrow> server_call option)) list" where
  "change_table = [
     (''plan_mist_change'', plan_call),
     (''get_mist_change_set'', \<lambda>_. change_args GetChangeSetArgs (\<lambda>_ args. Some (ChangeTool (CallInspect args)))),
     (''approve_mist_change_set'', \<lambda>caller. change_args ApproveChangeSetArgs (\<lambda>a args.
        map_option (\<lambda>digest. ChangeTool (CallApprove caller
          (change_set_args.extend args \<lparr>ca_plan_digest = digest\<rparr>))) (opt_str a ''plan_digest''))),
     (''apply_mist_change_set'', \<lambda>caller. change_args ApplyChangeSetArgs (\<lambda>_ args.
        Some (ChangeTool (CallApply caller args))))]"

definition tool_router :: "(string \<times> (caller_ctx option \<Rightarrow> jmap \<Rightarrow> server_call option)) list" where
  "tool_router = map (\<lambda>(name, f). (name, \<lambda>caller m. map_option (ReadTool caller) (f m))) read_table @
     [(''get_mist_operation_schema'', schema_call), (''list_mist_orgs'', orgs_call),
      (''search_mist_operations'', search_call)] @ change_table"

text \<open>A call by its name and arguments, where absent arguments are an empty object.\<close>

definition route :: "caller_ctx option \<Rightarrow> string \<Rightarrow> jmap option \<Rightarrow> server_call option" where
  "route caller name arguments =
     Option.bind (map_of tool_router name) (\<lambda>f. f caller (case arguments of None \<Rightarrow> [] | Some m \<Rightarrow> m))"

section \<open>The router is complete\<close>

definition names_tool :: "string \<Rightarrow> (jmap \<Rightarrow> tool_call option) \<Rightarrow> bool" where
  "names_tool name f \<longleftrightarrow> (\<forall>m t. f m = Some t \<longrightarrow> tool_of t = name)"

lemma names_tool_intros:
  "(\<And>j. tool_of (con j) = name) \<Longrightarrow> names_tool name (plain con spec)"
  "(\<And>x. tool_of (con' x) = name) \<Longrightarrow> names_tool name (moded con' spec)"
  "(\<And>a. tool_of (con2 a) = name) \<Longrightarrow> names_tool name (scoped con2 spec)"
  "(\<And>a. tool_of (con3 a) = name) \<Longrightarrow> names_tool name (invoke con3)"
  "names_tool ''get_mist_org'' get_org" "names_tool ''get_mist_sle_impact'' sle_impact_call"
  "names_tool ''get_mist_wan_config'' config_get" "names_tool ''get_mist_wan_edge_stats'' edge_stats"
  "names_tool ''list_mist_applications'' application_list" "names_tool ''list_mist_wan_config'' config_list"
  "names_tool ''list_mist_wan_edges'' edge_list"
  by (auto simp: names_tool_def plain_def moded_def scoped_def invoke_def get_org_def sle_impact_call_def
      config_get_def edge_stats_def application_list_def config_list_def edge_list_def bind_eq_Some_conv)

lemma read_table_names: "list_all (\<lambda>(name, f). names_tool name f) read_table"
  by (simp add: read_table_def names_tool_intros)

lemma change_args_Some:
  "change_args spec f m = Some call \<Longrightarrow> \<exists>a args. f a args = Some call"
  by (auto simp: change_args_def bind_eq_Some_conv)

lemma route_read:
  assumes "route caller name arguments = Some (ReadTool caller' t)"
  shows "\<exists>f. (name, f) \<in> set read_table \<and> f (case arguments of None \<Rightarrow> [] | Some m \<Rightarrow> m) = Some t"
proof -
  obtain f where f: "map_of tool_router name = Some f"
      "f caller (case arguments of None \<Rightarrow> [] | Some m \<Rightarrow> m) = Some (ReadTool caller' t)"
    using assms by (auto simp: route_def bind_eq_Some_conv)
  from map_of_SomeD [OF f(1)] f(2) show ?thesis
    by (auto simp: tool_router_def change_table_def schema_call_def orgs_call_def search_call_def plan_call_def
        bind_eq_Some_conv dest: change_args_Some)
qed

text \<open>The router has the registered tools, each once, and reads the arguments of a tool into a call
  of that tool.\<close>

theorem router_exact:
  "distinct (map fst tool_router) \<and> set (map fst tool_router) = set KNOWN_TOOLS \<and>
   {(name, call). \<exists>caller arguments. route caller name arguments = Some call} \<subseteq>
     {(name, call). name = server_tool call}"
proof (intro conjI)
  show "distinct (map fst tool_router)" "set (map fst tool_router) = set KNOWN_TOOLS"
    by code_simp+
  show "{(name, call). \<exists>caller arguments. route caller name arguments = Some call} \<subseteq>
     {(name, call). name = server_tool call}"
  proof clarify
    fix name call caller and arguments :: "jmap option"
    let ?m = "case arguments of None \<Rightarrow> [] | Some m \<Rightarrow> m"
    assume "route caller name arguments = Some call"
    then obtain f where f: "map_of tool_router name = Some f" "f caller ?m = Some call"
      by (auto simp: route_def bind_eq_Some_conv)
    have "tool_of t = name" if "(name, g) \<in> set read_table" "g ?m = Some t" for g t
      using that read_table_names unfolding list_all_iff names_tool_def by fast
    with map_of_SomeD [OF f(1)] f(2) show "name = server_tool call"
      by (auto simp: tool_router_def change_table_def schema_call_def orgs_call_def search_call_def plan_call_def
          change_args_def bind_eq_Some_conv)
  qed
qed

section \<open>What a call sends of its arguments\<close>

text \<open>The members that a named tool may send.\<close>

fun named_args :: "tool_call \<Rightarrow> json" where
  "named_args (GetMistDevice a) = a"
| "named_args (GetMistDeviceStats a) = a"
| "named_args (GetMistInsight a) = a"
| "named_args (GetMistOrg i) = JObj [(''org_id'', JStr i)]"
| "named_args (GetMistRrm a) = a"
| "named_args (GetMistSelf a) = a"
| "named_args (GetMistSite a) = a"
| "named_args (GetMistSle a) = a"
| "named_args (GetMistSleImpact x) = snd x"
| "named_args (GetMistWanConfig a) =
     JObj [(''org_id'', JStr (cg_org_id a)), (object_id_name (cg_object a), JStr (cg_object_id a))]"
| "named_args (GetMistWanEdgeStats a) = edge_stats_value a"
| "named_args (InvokeMistPrivilegedRead _) = JNull"
| "named_args (InvokeMistRead _) = JNull"
| "named_args (ListMistApplications a) = application_value a"
| "named_args (ListMistRogues a) = a"
| "named_args (ListMistSites a) = a"
| "named_args (ListMistSleMetrics a) = a"
| "named_args (ListMistUpgrades a) = a"
| "named_args (ListMistWanConfig x) = scoped_value (snd x)"
| "named_args (ListMistWanEdges a) = edge_list_value a"
| "named_args (ListMistWlans a) = a"
| "named_args (SearchMistAlarms a) = scoped_value a"
| "named_args (ListMistAlarmDefinitions a) = a"
| "named_args (SearchMistAuditLogs a) = a"
| "named_args (SearchMistBgpPeers a) = scoped_value a"
| "named_args (SearchMistClients a) = a"
| "named_args (SearchMistEvents a) = a"
| "named_args (SearchMistInventory a) = a"
| "named_args (SearchMistPeerPaths x) = snd x"
| "named_args (SearchMistServicePathEvents x) = snd x"
| "named_args (SearchMistTunnels x) = snd x"
| "named_args (TroubleshootMist a) = a"

fun members :: "json \<Rightarrow> (string \<times> json) set" where
  "members (JObj m) = set m"
| "members _ = {}"

text \<open>A request whose parameters are members of a value, none of them null.\<close>

definition draws_on :: "json \<Rightarrow> mist_request \<Rightarrow> bool" where
  "draws_on args r \<longleftrightarrow> req_cursor r = None \<and>
     (\<lambda>(k, s). (k, JStr s)) ` set (req_path r) \<union> set (req_query r) \<subseteq> {(k, v) \<in> members args. \<not> is_null v}"

definition sends :: "json \<Rightarrow> 'c dispatch_outcome \<Rightarrow> bool" where
  "sends args out \<longleftrightarrow> (\<lambda>(r, _). r) ` set (do_calls out) \<subseteq> Collect (draws_on args)"

lemma set_bt_insert_subset: "set (bt_insert k v m) \<subseteq> insert (k, v) (set m)"
  by (induction k v m rule: bt_insert.induct) auto

lemma set_bt_from_subset: "set (bt_from ps) \<subseteq> set ps"
proof -
  have "set (fold (\<lambda>(k, v) m. bt_insert k v m) ps m) \<subseteq> set ps \<union> set m" for m :: "('a::linorder \<times> 'b) list"
  proof (induction ps arbitrary: m)
    case (Cons p ps)
    obtain k v where "p = (k, v)" by (cases p)
    with Cons.IH [of "bt_insert k v m"] set_bt_insert_subset [of k v m] show ?case by auto
  qed simp
  from this [of bt_empty] show ?thesis by (simp add: bt_from_def bt_empty_def)
qed

lemma catalogued_cursor:
  "(r, p) \<in> set (do_calls (catalogued sv caller client rd)) \<Longrightarrow> req_cursor r = cr_cursor rd"
  by (auto simp: dispatch_calls split: sum.splits dest!: check_read_request [OF sym])

lemma sends_named: "sends args (named sv caller client tool i args names cap)"
proof (cases "as_object args")
  case None
  then show ?thesis by (simp add: sends_def named_no_object)
next
  case (Some m)
  then have args: "args = JObj m" by simp
  have path: "set (bt_from (named_arguments names m)) \<subseteq> {(k, s). (k, JStr s) \<in> set m}"
    using set_bt_from_subset [of "named_arguments names m"]
    by (force simp: named_arguments_def split: json.splits)
  have query: "set (bt_from (other_arguments names m)) \<subseteq> {(k, v). (k, v) \<in> set m \<and> \<not> is_null v}"
    using set_bt_from_subset [of "other_arguments names m"] by (force simp: other_arguments_def)
  have "draws_on args r" if "(r, p) \<in> set (do_calls (named sv caller client tool i args names cap))" for r p
  proof -
    have "req_cursor r = None"
      using that by (auto simp: dispatch_named_def refused_def dest: catalogued_cursor split: sum.splits)
    moreover have "req_path r = bt_from (named_arguments names m)" "req_query r = bt_from (other_arguments names m)"
      using named_calls [of sv caller client tool i m names cap] that args by auto
    ultimately show ?thesis using path query args by (auto simp: draws_on_def)
  qed
  then show ?thesis by (auto simp: sends_def)
qed

lemma sends_ambiguous: "sends args (ambiguous client tool)"
  by (simp add: sends_def)

lemma sends_catalogued:
  assumes "set ps \<subseteq> {(k, s). (k, JStr s) \<in> members args}"
  shows "sends args (catalogued sv caller client
    \<lparr>cr_tool = tool, cr_operation_id = i, cr_path = bt_from ps, cr_query = bt_empty, cr_cursor = None,
     cr_capability = cap, cr_redact_output = red\<rparr>)" (is "sends args (catalogued sv caller client ?rd)")
proof -
  have "draws_on args r" if "(r, p) \<in> set (do_calls (catalogued sv caller client ?rd))" for r p
  proof -
    have "req_path r = bt_from ps" "req_query r = []"
      using catalogued_calls [of sv caller client ?rd] that by (auto simp: bt_empty_def)
    then show ?thesis
      using catalogued_cursor [OF that] set_bt_from_subset [of ps] assms by (auto simp: draws_on_def)
  qed
  then show ?thesis by (auto simp: sends_def)
qed

lemma tool_sends: "\<not> is_dispatcher t \<Longrightarrow> sends (named_args t) (call_tool sv caller client t)"
  by (cases t) (auto simp: tool_defs Let_def sends_named sends_ambiguous sends_catalogued split: sum.split)

text \<open>The values of the organization and site identifiers that a call may send are those of the
  arguments.\<close>

definition ids_given :: "jmap \<Rightarrow> json \<Rightarrow> bool" where
  "ids_given m args \<longleftrightarrow>
     (\<forall>k \<in> {''org_id'', ''site_id''}. \<forall>v. (k, v) \<in> members args \<and> \<not> is_null v \<longrightarrow> obj_get m k = Some v)"

lemma ids_givenI:
  "(\<And>k v. k = ''org_id'' \<or> k = ''site_id'' \<Longrightarrow> (k, v) \<in> members args \<Longrightarrow> \<not> is_null v \<Longrightarrow> obj_get m k = Some v)
    \<Longrightarrow> ids_given m args"
  by (auto simp: ids_given_def)

lemma decoded_given:
  assumes "decode_args spec m = Some a" and "args_spec_ok spec" and "(k, v) \<in> set a" and "\<not> is_null v"
    and "k \<in> set (sent_names spec)"
  shows "obj_get m k = Some v"
proof -
  obtain t s where t: "(k, t, s) \<in> set spec" "field_value t (obj_get m k) = Some v"
    using decode_args_Some(3) [OF assms(1,3)] by blast
  from assms(5) obtain t' where t': "(k, t', True) \<in> set spec" by (auto simp: sent_names_def)
  from assms(2) have "distinct (map fst spec)" by (simp add: args_spec_ok_def)
  from eq_key_imp_eq_value [OF this t(1) t'] have "t' = t" by simp
  with t' assms(2) have "\<not> is_enum t" by (auto simp: args_spec_ok_def list_all_iff)
  with field_value_given [OF t(2)] assms(4) show ?thesis by auto
qed

lemma serialized_given:
  "decode_args spec m = Some a \<Longrightarrow> args_spec_ok spec \<Longrightarrow> ids_given m (JObj (serialize_args spec a))"
  by (auto intro!: ids_givenI dest: decoded_given simp: serialize_args_def)

lemma opt_str_given:
  assumes "decode_args spec m = Some a" and "args_spec_ok spec" and "opt_str a k = Some s"
    and "k \<in> set (sent_names spec)"
  shows "obj_get m k = Some (JStr s)"
proof -
  have "(k, JStr s) \<in> set a"
    using assms(3) by (auto simp: opt_str_def bind_eq_Some_conv obj_get_def dest: map_of_SomeD)
  from decoded_given [OF assms(1,2) this _ assms(4)] show ?thesis by simp
qed

text \<open>The structs of the read tools.\<close>

lemma specs_ok: "list_all args_spec_ok [SiteDeviceArgs, DeviceStatsArgs, InsightArgs, SiteArgs, EmptyArgs, SleArgs,
    SleImpactArgs, WanConfigGetArgs, WanEdgeStatsArgs, ApplicationListArgs, RogueArgs, OrgPageArgs,
    SleMetricsArgs, UpgradeArgs, WanConfigListArgs, WanEdgeListArgs, SitePageArgs, AlarmSearchArgs,
    AuditSearchArgs, BgpPeerSearchArgs, ClientSearchArgs, EventSearchArgs, InventoryArgs, PeerPathSearchArgs,
    ServicePathEventArgs, TunnelSearchArgs, TroubleshootArgs, GetOrgArgs, InvokeReadArgs]"
  by code_simp

definition reads_ids :: "(jmap \<Rightarrow> tool_call option) \<Rightarrow> bool" where
  "reads_ids f \<longleftrightarrow> (\<forall>m t. f m = Some t \<longrightarrow> ids_given m (named_args t))"

lemma plain_ids: "args_spec_ok spec \<Longrightarrow> (\<And>j. named_args (con j) = j) \<Longrightarrow> reads_ids (plain con spec)"
  by (auto simp: reads_ids_def plain_def serialized_given)

lemma moded_ids: "args_spec_ok spec \<Longrightarrow> (\<And>x. named_args (con x) = snd x) \<Longrightarrow> reads_ids (moded con spec)"
  by (auto simp: reads_ids_def moded_def bind_eq_Some_conv serialized_given)

lemma sle_impact_ids: "reads_ids sle_impact_call"
  using specs_ok by (auto simp: reads_ids_def sle_impact_call_def bind_eq_Some_conv serialized_given)

lemma members_opt_json: "\<not> is_null (opt_json x) \<Longrightarrow> \<exists>s. x = Some s"
  by (cases x) auto

lemma scoped_value_ids:
  assumes "decode_args spec m = Some a" and "args_spec_ok spec" and "{''org_id'', ''site_id''} \<subseteq> set (sent_names spec)"
  shows "ids_given m (scoped_value (scoped_of spec a mode))" "ids_given m (edge_list_value (scoped_of spec a mode))"
proof -
  have given: "obj_get m k = Some v"
    if "(k, v) = (''org_id'', opt_json (opt_str a ''org_id'')) \<or> (k, v) = (''site_id'', opt_json (opt_str a ''site_id'')) \<or>
        (k, v) \<in> set (serialize_args spec a)" "\<not> is_null v" "k = ''org_id'' \<or> k = ''site_id''" for k v
    using that serialized_given [OF assms(1,2)] assms(3)
    by (auto simp: ids_given_def dest!: members_opt_json dest: opt_str_given [OF assms(1,2)])
  show "ids_given m (scoped_value (scoped_of spec a mode))"
    using given by (intro ids_givenI) (auto simp: scoped_value_def scoped_of_def other_fields_def)
  show "ids_given m (edge_list_value (scoped_of spec a mode))"
    using given by (intro ids_givenI) (auto simp: edge_list_value_def scoped_of_def other_fields_def)
qed

lemma scoped_ids:
  "args_spec_ok spec \<Longrightarrow> {''org_id'', ''site_id''} \<subseteq> set (sent_names spec) \<Longrightarrow>
    (\<And>x. named_args (con x) = scoped_value x) \<Longrightarrow> reads_ids (scoped con spec)"
  by (auto simp: reads_ids_def scoped_def bind_eq_Some_conv scoped_value_ids)

lemma scopes_sent:
  "list_all (\<lambda>spec. {''org_id'', ''site_id''} \<subseteq> set (sent_names spec))
     [WanConfigListArgs, WanEdgeListArgs, AlarmSearchArgs, BgpPeerSearchArgs]"
  "''site_id'' \<in> set (sent_names ApplicationListArgs)" "''org_id'' \<in> set (sent_names WanConfigGetArgs)"
  "''org_id'' \<in> set (sent_names GetOrgArgs)"
  by code_simp+

lemma config_list_ids: "reads_ids config_list"
  using specs_ok scopes_sent(1) by (auto simp: reads_ids_def config_list_def bind_eq_Some_conv scoped_value_ids)

lemma edge_list_ids: "reads_ids edge_list"
  using specs_ok scopes_sent(1) by (auto simp: reads_ids_def edge_list_def scoped_value_ids)

lemma get_org_ids: "reads_ids get_org"
  using specs_ok scopes_sent(4)
  by (auto simp: reads_ids_def get_org_def bind_eq_Some_conv intro!: ids_givenI dest: opt_str_given)

lemma config_get_ids: "reads_ids config_get"
proof -
  have names: "object_id_name x \<noteq> ''org_id''" "object_id_name x \<noteq> ''site_id''" for x
    by (cases x; simp)+
  from specs_ok have ok: "args_spec_ok WanConfigGetArgs" by simp
  show ?thesis
    by (auto simp: reads_ids_def config_get_def bind_eq_Some_conv names names [symmetric] intro!: ids_givenI
        dest: opt_str_given [OF _ ok _ scopes_sent(3)])
qed

lemma edge_stats_ids: "reads_ids edge_stats"
proof -
  have "obj_get m k = Some v"
    if "decode_args WanEdgeStatsArgs m = Some a" "(k, v) \<in> set (serialize_args WanEdgeStatsArgs a)"
      "\<not> is_null v" "k = ''org_id'' \<or> k = ''site_id''" for m a k v
    using serialized_given [OF that(1)] specs_ok that by (auto simp: ids_given_def)
  then show ?thesis
    by (auto simp: reads_ids_def edge_stats_def edge_stats_value_def other_fields_def intro!: ids_givenI)
qed

lemma application_list_ids: "reads_ids application_list"
proof -
  have ser: "obj_get m k = Some v"
    if "decode_args ApplicationListArgs m = Some a" "(k, v) \<in> set (serialize_args ApplicationListArgs a)"
      "\<not> is_null v" "k = ''org_id'' \<or> k = ''site_id''" for m a k v
    using serialized_given [OF that(1)] specs_ok that by (auto simp: ids_given_def)
  have site: "obj_get m ''site_id'' = Some (opt_json (opt_str a ''site_id''))"
    if "decode_args ApplicationListArgs m = Some a" "\<not> is_null (opt_json (opt_str a ''site_id''))" for m a
    using that members_opt_json [OF that(2)] opt_str_given [OF that(1) _ _ scopes_sent(2)] specs_ok by auto
  show ?thesis
    using ser site by (auto simp: reads_ids_def application_list_def application_value_def other_fields_def
        bind_eq_Some_conv intro!: ids_givenI)
qed

lemma invoke_ids: "(\<And>x. named_args (con x) = JNull) \<Longrightarrow> reads_ids (invoke con)"
  by (auto simp: reads_ids_def invoke_def bind_eq_Some_conv intro!: ids_givenI)

lemma read_table_ids: "list_all (\<lambda>(_, f). reads_ids f) read_table"
  using specs_ok scopes_sent(1)
  by (simp add: read_table_def plain_ids moded_ids scoped_ids invoke_ids sle_impact_ids config_list_ids
      edge_list_ids get_org_ids config_get_ids edge_stats_ids application_list_ids)

text \<open>The dispatchers take the path and the query as they are.\<close>

fun dispatch_args :: "tool_call \<Rightarrow> invoke_args option" where
  "dispatch_args (InvokeMistPrivilegedRead a) = Some a"
| "dispatch_args (InvokeMistRead a) = Some a"
| "dispatch_args _ = None"

definition maps_given :: "jmap \<Rightarrow> invoke_args \<Rightarrow> bool" where
  "maps_given m args \<longleftrightarrow>
     (case ia_path args of None \<Rightarrow> True
      | Some p \<Rightarrow> \<exists>pm. obj_get m ''path'' = Some (JObj pm) \<and> p = strings_map pm) \<and>
     (case ia_query args of None \<Rightarrow> True
      | Some q \<Rightarrow> \<exists>qm. obj_get m ''query'' = Some (JObj qm) \<and> q = bt_from qm)"

definition reads_maps :: "(jmap \<Rightarrow> tool_call option) \<Rightarrow> bool" where
  "reads_maps f \<longleftrightarrow> (\<forall>m t args. f m = Some t \<longrightarrow> dispatch_args t = Some args \<longrightarrow> maps_given m args)"

lemma invoke_maps:
  assumes "\<And>x. dispatch_args (con x) = Some x"
  shows "reads_maps (invoke con)"
proof -
  have "maps_given m args" if read: "invoke con m = Some t" "dispatch_args t = Some args" for m t args
  proof -
    obtain a i where a: "decode_args InvokeReadArgs m = Some a" and t: "args = \<lparr>ia_operation_id = i,
         ia_path = map_option strings_map (opt_map a ''path''),
         ia_query = map_option bt_from (opt_map a ''query''), ia_cursor = opt_str a ''cursor''\<rparr>"
      using read by (auto simp: invoke_def bind_eq_Some_conv assms)
    have given: "obj_get m k = Some (JObj x)" if "opt_map a k = Some x" "k = ''path'' \<or> k = ''query''" for k x
    proof -
      have "(k, JObj x) \<in> set a"
        using that(1) by (auto simp: opt_map_def bind_eq_Some_conv obj_get_def dest: map_of_SomeD)
      then obtain ty s where "(k, ty, s) \<in> set InvokeReadArgs" "field_value ty (obj_get m k) = Some (JObj x)"
        using decode_args_Some(3) [OF a] by blast
      with that(2) show ?thesis
        by (auto simp: InvokeReadArgs_def dest: field_value_given)
    qed
    show ?thesis by (auto simp: t maps_given_def given split: option.split)
  qed
  then show ?thesis by (auto simp: reads_maps_def)
qed

lemma named_maps_intros:
  "(\<And>x. dispatch_args (con x) = None) \<Longrightarrow> reads_maps (plain con spec)"
  "(\<And>x. dispatch_args (con' x) = None) \<Longrightarrow> reads_maps (moded con' spec)"
  "(\<And>a. dispatch_args (con2 a) = None) \<Longrightarrow> reads_maps (scoped con2 spec)"
  "reads_maps get_org" "reads_maps sle_impact_call" "reads_maps config_get" "reads_maps edge_stats"
  "reads_maps application_list" "reads_maps config_list" "reads_maps edge_list"
  by (auto simp: reads_maps_def plain_def moded_def scoped_def get_org_def sle_impact_call_def
      config_get_def edge_stats_def application_list_def config_list_def edge_list_def bind_eq_Some_conv)

lemma read_table_maps: "list_all (\<lambda>(_, f). reads_maps f) read_table"
  by (simp add: read_table_def named_maps_intros invoke_maps)

lemma invoked_calls:
  assumes "(r, p) \<in> set (do_calls (invoked sv caller client tool args cap))" and "req_cursor r = None"
  shows "req_path r = (case ia_path args of None \<Rightarrow> bt_empty | Some p \<Rightarrow> p)"
    and "req_query r = (case ia_query args of None \<Rightarrow> bt_empty | Some q \<Rightarrow> q)"
proof -
  obtain path query cursor where res: "resolve_cursor (sv_decode_cursor sv) (sv_handler sv) args = Inr (path, query, cursor)"
    and call: "(r, p) \<in> set (do_calls (catalogued sv caller client
      \<lparr>cr_tool = tool, cr_operation_id = ia_operation_id args, cr_path = path, cr_query = query,
       cr_cursor = cursor, cr_capability = cap, cr_redact_output = True\<rparr>))"
    using assms(1) by (auto simp: invoke_dispatcher_def refused_def split: if_splits sum.splits)
  from catalogued_cursor [OF call] assms(2) have "cursor = None" by simp
  with res have "path = (case ia_path args of None \<Rightarrow> bt_empty | Some p \<Rightarrow> p)"
    "query = (case ia_query args of None \<Rightarrow> bt_empty | Some q \<Rightarrow> q)"
    by (auto simp: resolve_cursor_def split: option.splits if_splits)
  moreover have "req_path r = path" "req_query r = query"
    using catalogued_calls call by fastforce+
  ultimately show "req_path r = (case ia_path args of None \<Rightarrow> bt_empty | Some p \<Rightarrow> p)"
    and "req_query r = (case ia_query args of None \<Rightarrow> bt_empty | Some q \<Rightarrow> q)" by simp_all
qed

section \<open>The preflight sees what a read sends\<close>

text \<open>The identifiers in the parameters of a request are canonical and in scope.\<close>

definition request_in_scope :: "caller_scopes \<Rightarrow> mist_request \<Rightarrow> bool" where
  "request_in_scope scopes r \<longleftrightarrow>
     id_in_scope scopes KindOrg (map_option JStr (bt_get (req_path r) ''org_id'')) \<and>
     id_in_scope scopes KindSite (map_option JStr (bt_get (req_path r) ''site_id'')) \<and>
     id_in_scope scopes KindOrg (bt_get (req_query r) ''org_id'') \<and>
     id_in_scope scopes KindSite (bt_get (req_query r) ''site_id'')"

lemma bt_get_in_scope:
  assumes "\<And>v. (k, v) \<in> set m \<Longrightarrow> id_in_scope scopes kind (Some (f v))"
  shows "id_in_scope scopes kind (map_option f (bt_get m k))"
proof (cases "bt_get m k")
  case (Some v)
  then have "(k, v) \<in> set m" by (simp add: bt_get_def map_of_SomeD)
  from assms [OF this] Some show ?thesis by simp
qed simp

lemma request_in_scopeI:
  assumes "\<And>i. (''org_id'', i) \<in> set (req_path r) \<Longrightarrow> id_in_scope scopes KindOrg (Some (JStr i))"
    and "\<And>i. (''site_id'', i) \<in> set (req_path r) \<Longrightarrow> id_in_scope scopes KindSite (Some (JStr i))"
    and "\<And>v. (''org_id'', v) \<in> set (req_query r) \<Longrightarrow> id_in_scope scopes KindOrg (Some v)"
    and "\<And>v. (''site_id'', v) \<in> set (req_query r) \<Longrightarrow> id_in_scope scopes KindSite (Some v)"
  shows "request_in_scope scopes r"
  unfolding request_in_scope_def
proof (intro conjI)
  show "id_in_scope scopes KindOrg (map_option JStr (bt_get (req_path r) ''org_id''))"
    by (rule bt_get_in_scope) (rule assms(1))
  show "id_in_scope scopes KindSite (map_option JStr (bt_get (req_path r) ''site_id''))"
    by (rule bt_get_in_scope) (rule assms(2))
  have "id_in_scope scopes KindOrg (map_option (\<lambda>v. v) (bt_get (req_query r) ''org_id''))"
    by (rule bt_get_in_scope) (rule assms(3))
  then show "id_in_scope scopes KindOrg (bt_get (req_query r) ''org_id'')"
    by (simp add: option.map_ident)
  have "id_in_scope scopes KindSite (map_option (\<lambda>v. v) (bt_get (req_query r) ''site_id''))"
    by (rule bt_get_in_scope) (rule assms(4))
  then show "id_in_scope scopes KindSite (bt_get (req_query r) ''site_id'')"
    by (simp add: option.map_ident)
qed

lemma named_in_scope:
  assumes "\<not> is_dispatcher t" and "ids_given m (named_args t)" and "ids_in_scope scopes m"
    and "(r, p) \<in> set (do_calls (call_tool sv caller client t))"
  shows "request_in_scope scopes r"
proof -
  from tool_sends [OF assms(1)] assms(4) have "draws_on (named_args t) r"
    unfolding sends_def by force
  then have "(k, JStr i) \<in> members (named_args t)" if "(k, i) \<in> set (req_path r)" for k i
    using that unfolding draws_on_def by blast
  moreover from \<open>draws_on (named_args t) r\<close> have "(k, v) \<in> members (named_args t) \<and> \<not> is_null v"
    if "(k, v) \<in> set (req_query r)" for k v
    using that unfolding draws_on_def by blast
  ultimately show ?thesis
    using assms(2,3) by (intro request_in_scopeI) (fastforce simp: ids_given_def ids_in_scope_def)+
qed

lemma bt_from_in_scope:
  assumes "ids_in_scope scopes m" and "obj_wf m" and "(k, v) \<in> set m"
  shows "k = ''org_id'' \<Longrightarrow> id_in_scope scopes KindOrg (Some v)"
    and "k = ''site_id'' \<Longrightarrow> id_in_scope scopes KindSite (Some v)"
proof -
  have "obj_get m k = Some v"
    using assms(2,3) by (simp add: obj_get_def obj_wf_def)
  then show "k = ''org_id'' \<Longrightarrow> id_in_scope scopes KindOrg (Some v)"
    and "k = ''site_id'' \<Longrightarrow> id_in_scope scopes KindSite (Some v)"
    using assms(1) by (auto simp: ids_in_scope_def)
qed

lemma dispatcher_in_scope:
  assumes "maps_given m args" and "json_wf (JObj m)" and "req_cursor r = None"
    and "container_in_scope scopes (obj_get m ''path'')" and "container_in_scope scopes (obj_get m ''query'')"
    and "(r, p) \<in> set (do_calls (invoked sv caller client tool args cap))"
  shows "request_in_scope scopes r"
proof -
  note r = invoked_calls [OF assms(6,3)]
  have path: "\<exists>pm. ids_in_scope scopes pm \<and> obj_wf pm \<and> (k, JStr i) \<in> set pm"
    if mem: "(k, i) \<in> set (req_path r)" for k i
  proof -
    obtain pm where pm: "obj_get m ''path'' = Some (JObj pm)" "req_path r = strings_map pm"
      using mem r(1) assms(1) by (auto simp: maps_given_def bt_empty_def split: option.splits)
    with mem have "(k, JStr i) \<in> set pm"
      using set_bt_from_subset [of "[(k, s). (k, JStr s) \<leftarrow> pm]"] by (force simp: strings_map_def split: json.splits)
    moreover have "ids_in_scope scopes pm" using assms(4) pm(1) by simp
    moreover have "obj_wf pm" using json_wf_get [OF assms(2) pm(1)] by simp
    ultimately show ?thesis by blast
  qed
  have query: "\<exists>qm. ids_in_scope scopes qm \<and> obj_wf qm \<and> (k, v) \<in> set qm"
    if mem: "(k, v) \<in> set (req_query r)" for k v
  proof -
    obtain qm where qm: "obj_get m ''query'' = Some (JObj qm)" "req_query r = bt_from qm"
      using mem r(2) assms(1) by (auto simp: maps_given_def bt_empty_def split: option.splits)
    with mem have "(k, v) \<in> set qm" using set_bt_from_subset by fastforce
    moreover have "ids_in_scope scopes qm" using assms(5) qm(1) by simp
    moreover have "obj_wf qm" using json_wf_get [OF assms(2) qm(1)] by simp
    ultimately show ?thesis by blast
  qed
  show ?thesis
    using path query bt_from_in_scope by (intro request_in_scopeI) blast+
qed

lemma dispatcher_calls:
  assumes "dispatch_args t = Some args"
  shows "call_tool sv caller client t = invoked sv caller client (tool_of t) args (tool_capability t)"
  using assms by (cases t) (simp_all add: invoke_mist_privileged_read_def invoke_mist_read_def)

lemma is_dispatcher_iff: "is_dispatcher t \<longleftrightarrow> dispatch_args t \<noteq> None"
  by (cases t) simp_all

lemma arguments_scopes:
  assumes "arguments_in_scope scopes (map_option JObj arguments)"
  defines "m \<equiv> (case arguments of None \<Rightarrow> [] | Some m \<Rightarrow> m)"
  shows "ids_in_scope scopes m" and "container_in_scope scopes (obj_get m ''path'')"
    and "container_in_scope scopes (obj_get m ''query'')"
  using assms by (cases arguments; simp add: ids_in_scope_def obj_get_def)+

text \<open>The arguments of a tool call in a well-formed body are well-formed.\<close>

lemma call_arguments_wf:
  assumes "json_wf v" and "w \<in> set (calls_of v)" and "call_arguments w = Some a"
  shows "json_wf a"
proof -
  have "json_wf w" using assms(1,2) by (cases v) (auto simp: list_all_iff)
  have get: "json_wf y" if "json_wf x" "jget x k = Some y" for x y k
    using that json_wf_get by (cases x) (auto simp: jget_def)
  obtain params where "jget w ''params'' = Some params" "jget params ''arguments'' = Some a"
    using assms(3) by (auto simp: call_arguments_def bind_eq_Some_conv)
  with get \<open>json_wf w\<close> show ?thesis by blast
qed

text \<open>C22: What the preflight lets through covers what the handlers send: for a body that passes, every
  request that a read tool makes for one of its calls, other than the continuation of a cursor,
  carries only organization and site identifiers, in its path and its query, that are canonical
  and in the caller's scope; and the tool is in scope.\<close>

theorem preflight_covers_reads:
  assumes "preflight_check from_slice pre body scopes = Inr ()" and "body \<noteq> []" and "from_slice body = Some v"
    and "json_wf v" and "w \<in> set (calls_of v)" and "called_tool w = Some tool"
    and "call_arguments w = map_option JObj arguments"
    and "route caller tool arguments = Some (ReadTool caller t)"
    and "(r, p) \<in> set (do_calls (call_tool sv caller client t))" and "req_cursor r = None"
  shows "scope_allows_tool scopes tool (restricted_tools pre) \<and> request_in_scope scopes r"
proof -
  let ?m = "case arguments of None \<Rightarrow> [] | Some m \<Rightarrow> m"
  have "call_in_scope pre scopes w"
    using preflight_passed [OF assms(1-3)] assms(5) by (simp add: list_all_iff)
  then have tool: "scope_allows_tool scopes tool (restricted_tools pre)"
      and args: "arguments_in_scope scopes (map_option JObj arguments)"
    using assms(6,7) by (simp_all add: call_in_scope_def)
  have wf: "json_wf (JObj ?m)"
    using call_arguments_wf [OF assms(4,5), of "JObj ?m"] assms(7) by (cases arguments) (simp_all add: obj_wf_def)
  obtain f where f: "(tool, f) \<in> set read_table" "f ?m = Some t"
    using route_read [OF assms(8)] by blast
  have "request_in_scope scopes r"
  proof (cases "dispatch_args t")
    case None
    have "ids_given ?m (named_args t)"
      using f read_table_ids by (auto simp: list_all_iff reads_ids_def)
    from named_in_scope [OF _ this arguments_scopes(1) [OF args] assms(9)] None show ?thesis
      by (simp add: is_dispatcher_iff)
  next
    case (Some a)
    have "maps_given ?m a"
      using f Some read_table_maps by (auto simp: list_all_iff reads_maps_def)
    from dispatcher_in_scope [OF this wf assms(10) arguments_scopes(2,3) [OF args]] assms(9) Some show ?thesis
      by (auto simp: dispatcher_calls)
  qed
  with tool show ?thesis by simp
qed

section \<open>What a named call sends\<close>

definition non_null :: "json option \<Rightarrow> json option" where
  "non_null x = Option.bind x (\<lambda>v. if is_null v then None else Some v)"

lemma serialize_get:
  assumes "decode_args spec m = Some a" and "args_spec_ok spec"
  shows "non_null (map_of (serialize_args spec a) k) = (if k \<in> set (sent_names spec) then non_null (obj_get m k) else None)"
proof (cases "k \<in> set (sent_names spec)")
  case True
  then obtain t where t: "(k, t, True) \<in> set spec" by (auto simp: sent_names_def)
  obtain v where v: "(k, v) \<in> set a" "field_value t (obj_get m k) = Some v"
    using decode_args_Some(4) [OF assms(1) t] by blast
  have keys: "distinct (map fst a)" using decode_args_Some(1) [OF assms(1)] assms(2) by (simp add: args_spec_ok_def)
  have "map_of (serialize_args spec a) k = map_of a k"
    using True by (induction a) (auto simp: serialize_args_def)
  also have "\<dots> = Some v" using v(1) keys by simp
  finally show ?thesis
    using True field_value_given [OF v(2)] t assms(2)
    by (fastforce simp: non_null_def args_spec_ok_def list_all_iff)
next
  case False
  then have "map_of (serialize_args spec a) k = None"
    by (auto simp: serialize_args_def map_of_eq_None_iff)
  with False show ?thesis by (simp add: non_null_def)
qed

lemma map_of_named_arguments:
  "distinct (map fst m) \<Longrightarrow> map_of (named_arguments names m) k =
     (if k \<in> set names then Option.bind (map_of m k) as_str else None)"
proof (induction m)
  case (Cons x m)
  obtain l v where x: "x = (l, v)" by (cases x)
  have "map_of m l = None" using Cons.prems x by (simp add: map_of_eq_None_iff)
  with Cons x show ?case by (cases v) (auto simp: named_arguments_def)
qed (simp add: named_arguments_def)

lemma map_of_other_arguments:
  "distinct (map fst m) \<Longrightarrow> map_of (other_arguments names m) k =
     (if k \<in> set names then None else non_null (map_of m k))"
proof (induction m)
  case (Cons x m)
  obtain l v where x: "x = (l, v)" by (cases x)
  have "map_of m l = None" using Cons.prems x by (simp add: map_of_eq_None_iff)
  with Cons x show ?case by (auto simp: other_arguments_def non_null_def)
qed (simp add: other_arguments_def non_null_def)

lemma distinct_split_arguments:
  "distinct (map fst m) \<Longrightarrow> distinct (map fst (named_arguments names m))"
  "distinct (map fst m) \<Longrightarrow> distinct (map fst (other_arguments names m))"
proof -
  show "distinct (map fst m) \<Longrightarrow> distinct (map fst (other_arguments names m))"
    unfolding other_arguments_def by (rule distinct_map_filter)
  have keys: "fst ` set (named_arguments names m) \<subseteq> fst ` set m" for m
    by (force simp: named_arguments_def split: json.splits)
  show "distinct (map fst m) \<Longrightarrow> distinct (map fst (named_arguments names m))"
  proof (induction m)
    case (Cons x m)
    obtain l v where x: "x = (l, v)" by (cases x)
    have split: "named_arguments names (x # m) =
        (case v of JStr s \<Rightarrow> if l \<in> set names then [(l, s)] else [] | _ \<Rightarrow> []) @ named_arguments names m"
      by (cases v) (simp_all add: named_arguments_def x)
    from Cons keys [of m] x show ?case unfolding split by (auto split: json.splits)
  qed (simp add: named_arguments_def)
qed

lemma non_null_as_str: "Option.bind x as_str = Option.bind (non_null x) as_str"
proof (cases x)
  case (Some v)
  then show ?thesis by (cases v) (simp_all add: non_null_def)
qed (simp add: non_null_def)

lemma sent_parameters:
  assumes "decode_args spec m = Some a" and "args_spec_ok spec"
    and "(r, p) \<in> set (do_calls (named sv caller client tool i (JObj (serialize_args spec a)) names cap))"
  shows "bt_get (req_path r) k =
      (if k \<in> set names \<inter> set (sent_names spec) then Option.bind (obj_get m k) as_str else None)"
    and "bt_get (req_query r) k =
      (if k \<in> set (sent_names spec) - set names then non_null (obj_get m k) else None)"
proof -
  let ?s = "serialize_args spec a"
  have "distinct (map fst a)" using decode_args_Some(1) [OF assms(1)] assms(2) by (simp add: args_spec_ok_def)
  then have keys: "distinct (map fst ?s)" unfolding serialize_args_def by (rule distinct_map_filter)
  have "req_path r = bt_from (named_arguments names ?s)" "req_query r = bt_from (other_arguments names ?s)"
    using named_calls assms(3) by fastforce+
  then have get: "bt_get (req_path r) k = map_of (named_arguments names ?s) k"
      "bt_get (req_query r) k = map_of (other_arguments names ?s) k"
    using distinct_split_arguments [OF keys, of names] by (simp_all add: bt_get_from)
  show "bt_get (req_path r) k =
      (if k \<in> set names \<inter> set (sent_names spec) then Option.bind (obj_get m k) as_str else None)"
    unfolding get map_of_named_arguments [OF keys] non_null_as_str [of "map_of ?s k"]
      non_null_as_str [of "obj_get m k"]
    using serialize_get [OF assms(1,2), of k] by simp
  show "bt_get (req_query r) k =
      (if k \<in> set (sent_names spec) - set names then non_null (obj_get m k) else None)"
    unfolding get map_of_other_arguments [OF keys] using serialize_get [OF assms(1,2), of k] by simp
qed

text \<open>C37: A named call sends exactly what it was given: every request has, in its path, the given
  strings of the named parameters and, in its query, every other given argument that is serialized
  and not null, under its own name and with its own value; and nothing else.\<close>

theorem arguments_sent_exactly:
  assumes "decode_args spec m = Some a" and "args_spec_ok spec"
    and "(r, p) \<in> set (do_calls (named sv caller client tool i (JObj (serialize_args spec a)) names cap))"
  shows "bt_get (req_path r) = (\<lambda>k. if k \<in> set names \<inter> set (sent_names spec)
      then Option.bind (obj_get m k) as_str else None) \<and>
    bt_get (req_query r) = (\<lambda>k. if k \<in> set (sent_names spec) - set names then non_null (obj_get m k) else None)"
  using sent_parameters [OF assms] by auto

section \<open>Numbers for times that the catalog declares as strings\<close>

lemma catalogued_valid:
  assumes "(r, p) \<in> set (do_calls (catalogued sv caller client rd))"
  shows "request_validate (de_schema (sv_env sv)) (h_catalog (sv_handler sv)) (h_origin (sv_handler sv)) r = Inr r"
proof -
  obtain op target where chk: "check_read (sv_env sv) (sv_handler sv) caller rd = Inr (op, target, r)"
    using assms by (auto simp: dispatch_calls split: sum.splits dest: sym)
  from check_read_Inr(10) [OF chk] show ?thesis by (simp add: check_read_request [OF chk, symmetric])
qed

text \<open>The arguments \<open>start\<close> and \<open>end\<close> of the tunnel search are unsigned integers, which are
  serialized as numbers; the catalog declares the parameters as strings, and the validation of a
  request applies the schema to the number. With a schema that rejects numbers, as JSON Schema has
  it for the type string, no search with a start is ever sent.\<close>

theorem numeric_start_never_sent:
  assumes "catalog_operation (h_catalog (sv_handler sv)) ''searchOrgTunnelsStats'' = Some op"
    and "q \<in> set (parameters op)" and "param_name q = ''start''" and "param_location q = ''query''"
    and "\<And>n. \<not> schema_accepts (de_schema (sv_env sv)) (h_catalog (sv_handler sv)) (operation_key op)
        (RequestParameter ''query'' ''start'') (param_schema q) (JNum n) Outbound"
    and "route caller ''search_mist_tunnels'' (Some m) = Some (ReadTool caller t)"
    and "obj_get m ''mode'' = None" and "obj_get m ''start'' = Some (JNum n)"
  shows "do_calls (call_tool sv caller client t) = []"
proof -
  have "map_of tool_router ''search_mist_tunnels'' =
      Some (\<lambda>caller m. map_option (ReadTool caller) (moded SearchMistTunnels TunnelSearchArgs m))"
    by (simp add: tool_router_def read_table_def)
  with assms(6) obtain a mode where a: "decode_args TunnelSearchArgs m = Some a"
      and mode: "enum_arg stats_mode_arg a ''mode'' = Some mode"
      and t: "t = SearchMistTunnels (mode, JObj (serialize_args TunnelSearchArgs a))"
    by (auto simp: route_def moded_def bind_eq_Some_conv)
  have spec: "args_spec_ok TunnelSearchArgs"
    "(''mode'', DefEnum (map fst stats_mode_arg) ''records'', False) \<in> set TunnelSearchArgs"
    "''start'' \<in> set (sent_names TunnelSearchArgs)"
    using specs_ok by (simp_all add: TunnelSearchArgs_def sent_names_def)
  have "mode = ModeRecords"
    using mode decoded_get [OF a spec(1,2)] assms(7) by (simp add: enum_arg_def opt_str_def stats_mode_arg_def)
  then have call: "call_tool sv caller client t = named sv caller client ''search_mist_tunnels''
      ''searchOrgTunnelsStats'' (JObj (serialize_args TunnelSearchArgs a)) [''org_id''] OrdinaryRead"
    by (simp add: t search_mist_tunnels_def resolve_def)
  have False if "(r, p) \<in> set (do_calls (call_tool sv caller client t))" for r p
  proof -
    have "bt_get (req_query r) ''start'' = Some (JNum n)"
      using sent_parameters(2) [OF a spec(1) that [unfolded call], of "''start''"] spec(3) assms(8)
      by (simp add: non_null_def)
    moreover have "req_operation_id r = ''searchOrgTunnelsStats''"
      using named_calls that [unfolded call] by fastforce
    moreover have "request_validate (de_schema (sv_env sv)) (h_catalog (sv_handler sv)) (h_origin (sv_handler sv)) r = Inr r"
      using that [unfolded call] by (auto simp: dispatch_named_def refused_def dest: catalogued_valid split: sum.splits)
    ultimately show False
      using assms(1-5) by (auto simp: request_validate_Inr parameters_ok_def list_all_iff declared_parameters_def
          location_name_def supplied_value_def)
  qed
  then show ?thesis by (cases "do_calls (call_tool sv caller client t)") auto
qed

end
