(* ===== verification/WireLab.thy ===== *)
theory WireLab
  imports Wire
begin

text \<open>
  A server with one operation, the tunnel search with the parameters that the catalog declares, and
  a JSON Schema that knows the type string: the calls that the theorems of \<open>Wire\<close> are applied to.
\<close>

section \<open>The server\<close>

definition string_schema :: json where
  "string_schema = JObj [(''type'', JStr ''string'')]"

definition tunnels_op :: mist_operation where
  "tunnels_op = get_self\<lparr>operation_key := ''GET /api/v1/orgs/{org_id}/stats/tunnels/search'',
     operation_id := ''searchOrgTunnelsStats'', op_path := ''/api/v1/orgs/{org_id}/stats/tunnels/search'',
     capability := OrdinaryRead, op_action := OrdinaryRead, target_selectors := [SelOrg],
     parameters := [
       \<lparr>param_name = ''org_id'', param_location = ''path'', param_required = True, param_schema = string_schema\<rparr>,
       \<lparr>param_name = ''limit'', param_location = ''query'', param_required = False,
        param_schema = JObj [(''type'', JStr ''integer'')]\<rparr>,
       \<lparr>param_name = ''start'', param_location = ''query'', param_required = False, param_schema = string_schema\<rparr>]\<rparr>"

definition wire_catalog :: catalog where
  "wire_catalog = example_catalog\<lparr>cat_operations := [tunnels_op], operation_index := [(''searchOrgTunnelsStats'', 0)]\<rparr>"

text \<open>Validators are root schemas; the one error is that of a value that is to be a string.\<close>

definition wants_string :: "json \<Rightarrow> bool" where
  "wants_string root \<longleftrightarrow> jget root ''allOf'' = Some (JArr [string_schema])"

definition wire_schema :: "json json_schema" where
  "wire_schema = \<lparr>js_compile = Some,
     js_errors = \<lambda>root v. if wants_string root \<and> as_str v = None
       then [\<lparr>err_instance_path = [], err_instance = v, err_kind = OtherKind ''type''\<rparr>] else [],
     js_cache = \<lambda>_. None\<rparr>"

definition wire_env :: "json dispatch_env" where
  "wire_env = \<lparr>de_authorize_call = \<lambda>_ _ _ _. Inr (), de_schema = wire_schema, de_response_json = \<lambda>_. Some [],
     de_cursor_json = \<lambda>_. Some [], de_hex_encode = \<lambda>s. s, de_redact = \<lambda>v. v, de_float = example_floats,
     de_lowercase = to_ascii_lowercase\<rparr>"

definition wire_server :: "(json, unit) server" where
  "wire_server = \<lparr>sv_env = wire_env, sv_exec = example_exec, sv_budget = \<lambda>c. (c, None),
     sv_decode_cursor = \<lambda>_. None,
     sv_handler = \<lparr>h_origin = example_origin, h_allowed_orgs = [example_org], h_sites = bt_empty,
       h_catalog = wire_catalog, h_lab_mode = False\<rparr>\<rparr>"

lemma wire_server_fields [simp]:
  "sv_env wire_server = wire_env" "h_catalog (sv_handler wire_server) = wire_catalog"
  "h_allowed_orgs (sv_handler wire_server) = [example_org]" "de_schema wire_env = wire_schema"
  "de_authorize_call wire_env caller tool subject restricted = Inr ()"
  by (simp_all add: wire_server_def wire_env_def)

lemma tunnels_op_fields [simp]:
  "op_method tunnels_op = ''GET''" "capability tunnels_op = OrdinaryRead"
  "target_selectors tunnels_op = [SelOrg]" "request_body_required tunnels_op = False"
  by (simp_all add: tunnels_op_def get_self_def)

lemma wire_catalog_lookup [simp]: "catalog_operation wire_catalog ''searchOrgTunnelsStats'' = Some tunnels_op"
  by (simp add: catalog_operation_def wire_catalog_def example_catalog_def index_get_def bt_get_def list_get_def)

lemma wire_accepts:
  "schema_accepts wire_schema c operation slot schema v Outbound \<longleftrightarrow> schema \<noteq> string_schema \<or> as_str v \<noteq> None"
  by (auto simp: schema_accepts_def cached_validator_def wire_schema_def schema_root_def wants_string_def
      jget_def obj_get_def)

section \<open>A call with a limit\<close>

definition wire_arguments :: jmap where
  "wire_arguments = [(''org_id'', JStr example_org), (''limit'', JNum (PosInt 5))]"

definition wire_request :: mist_request where
  "wire_request = \<lparr>req_operation_id = ''searchOrgTunnelsStats'', req_path = [(''org_id'', example_org)],
     req_query = [(''limit'', JNum (PosInt 5))], req_json = None, req_cursor = None\<rparr>"

lemma wire_request_valid: "request_validate wire_schema wire_catalog origin wire_request = Inr wire_request"
proof -
  have "validate_request_bounds wire_request = Inr ()"
    by (simp add: validate_request_bounds_def wire_request_def MAX_OPERATION_ID_BYTES_def MAX_PATH_VALUES_def
        MAX_QUERY_VALUES_def MAX_VALUE_STRING_BYTES_def MAX_VALUE_DEPTH_def bt_keys_def bt_values_def example_org_def
        validate_value_bounds.simps [of "JNum n" for n])
  moreover have "parameters_ok wire_schema wire_catalog tunnels_op wire_request l" for l
    by (cases l) (simp_all add: parameters_ok_def declared_parameters_def supplied_names_def supplied_value_def
        wire_request_def location_name_def tunnels_op_def bt_keys_def bt_get_def wire_accepts string_schema_def)
  ultimately show ?thesis
    unfolding request_validate_Inr by (simp add: body_ok_def) (simp add: wire_request_def)
qed

lemma wire_decoded: "decode_args TunnelSearchArgs wire_arguments = Some [(''org_id'', JStr example_org),
    (''mode'', JStr ''records''), (''limit'', JNum (PosInt 5)), (''search_after'', JNull), (''start'', JNull),
    (''end'', JNull), (''duration'', JNull), (''distinct'', JNull)]"
  by (simp add: decode_args_def TunnelSearchArgs_def wire_arguments_def obj_get_def unsigned_value_def)

lemma wire_checked:
  "check_read wire_env (sv_handler wire_server) None
     \<lparr>cr_tool = tool, cr_operation_id = ''searchOrgTunnelsStats'', cr_path = [(''org_id'', example_org)],
      cr_query = [(''limit'', JNum (PosInt 5))], cr_cursor = None, cr_capability = OrdinaryRead, cr_redact_output = True\<rparr> =
   Inr (tunnels_op, Some (MistTarget KindOrg example_org), wire_request)"
proof -
  have "profile_error (sv_handler wire_server) (MistTarget KindOrg example_org) = None"
    by (simp add: profile_error_None_iff profile_permits_def)
  with example_canonical(1) show ?thesis
    using wire_request_valid [unfolded wire_request_def]
    by (simp add: check_read_def Let_def target_for_def bt_get_def target_org_def authorize_grant_def
        validate_page_limit_def wire_request_def)
qed

definition wire_tunnels :: tool_call where
  "wire_tunnels = SearchMistTunnels (ModeRecords, JObj (serialize_args TunnelSearchArgs
     [(''org_id'', JStr example_org), (''mode'', JStr ''records''), (''limit'', JNum (PosInt 5)),
      (''search_after'', JNull), (''start'', JNull), (''end'', JNull), (''duration'', JNull), (''distinct'', JNull)]))"

lemma wire_route: "route None ''search_mist_tunnels'' (Some wire_arguments) = Some (ReadTool None wire_tunnels)"
proof -
  have "map_of tool_router ''search_mist_tunnels'' =
      Some (\<lambda>caller m. map_option (ReadTool caller) (moded SearchMistTunnels TunnelSearchArgs m))"
    by (simp add: tool_router_def read_table_def)
  then show ?thesis
    by (simp add: route_def moded_def wire_decoded enum_arg_def opt_str_def obj_get_def stats_mode_arg_def
        wire_tunnels_def)
qed

lemma wire_calls: "do_calls (call_tool wire_server None () wire_tunnels) = [(wire_request, Standard)]"
proof -
  have "serialize_args TunnelSearchArgs [(''org_id'', JStr example_org), (''mode'', JStr ''records''),
        (''limit'', JNum (PosInt 5)), (''search_after'', JNull), (''start'', JNull), (''end'', JNull),
        (''duration'', JNull), (''distinct'', JNull)] =
      [(''org_id'', JStr example_org), (''limit'', JNum (PosInt 5)), (''search_after'', JNull), (''start'', JNull),
       (''end'', JNull), (''duration'', JNull), (''distinct'', JNull)]"
    by (simp add: serialize_args_def sent_names_def TunnelSearchArgs_def)
  then show ?thesis
    by (simp add: wire_tunnels_def search_mist_tunnels_def resolve_def dispatch_named_def named_maps_def
        bt_empty_def dispatch_calls wire_checked call_priority_for_def)
qed

section \<open>Witnesses\<close>

definition wire_body :: "string \<Rightarrow> jmap \<Rightarrow> json" where
  "wire_body name arguments = JObj [(''method'', JStr ''tools/call''),
     (''params'', JObj [(''name'', JStr name), (''arguments'', JObj arguments)])]"

definition wire_scopes :: caller_scopes where
  "wire_scopes = \<lparr>scope_allows_tool = \<lambda>tool _. tool = ''search_mist_tunnels'',
     scope_allows = \<lambda>subject. subject = ''org/'' @ example_org\<rparr>"

lemma wire_body_fields:
  "called_tool (wire_body name arguments) = Some name"
  "call_arguments (wire_body name arguments) = Some (JObj arguments)"
  "calls_of (wire_body name arguments) = [wire_body name arguments]"
  by (simp_all add: wire_body_def called_tool_def call_arguments_def jget_def obj_get_def)

lemma wire_passes: "preflight_check (\<lambda>_. Some (wire_body ''search_mist_tunnels'' wire_arguments)) pre ''body'' wire_scopes = Inr ()"
proof -
  have "arguments_in_scope wire_scopes (Some (JObj wire_arguments))"
    using example_canonical(1) by (simp add: wire_arguments_def ids_in_scope_def obj_get_def wire_scopes_def)
  then have "call_in_scope pre wire_scopes (wire_body ''search_mist_tunnels'' wire_arguments)"
    by (simp add: call_in_scope_def wire_body_fields) (simp add: wire_scopes_def)
  then show ?thesis
    using denied_iff [of pre wire_scopes "wire_body ''search_mist_tunnels'' wire_arguments"]
    by (simp add: preflight_check_def Let_def wire_body_fields)
qed

theorem preflight_covers_reads_witness:
  "do_calls (call_tool wire_server None () wire_tunnels) = [(wire_request, Standard)] \<and>
   bt_get (req_path wire_request) ''org_id'' = Some example_org \<and> request_in_scope wire_scopes wire_request"
proof -
  have wf: "json_wf (wire_body ''search_mist_tunnels'' wire_arguments)"
    by (simp add: wire_body_def wire_arguments_def obj_wf_def)
  have "request_in_scope wire_scopes wire_request"
    using preflight_covers_reads [OF wire_passes _ _ wf _ wire_body_fields(1) _ wire_route, where r = wire_request
        and p = Standard and sv = wire_server and client = "()"] wire_calls
    by (simp add: wire_body_fields) (simp add: wire_request_def)
  with wire_calls show ?thesis by (simp add: wire_request_def bt_get_def)
qed

theorem arguments_sent_exactly_witness:
  "do_calls (call_tool wire_server None () wire_tunnels) = [(wire_request, Standard)] \<and>
   bt_get (req_query wire_request) ''limit'' = Some (JNum (PosInt 5)) \<and> bt_get (req_query wire_request) ''org_id'' = None"
proof -
  have spec: "args_spec_ok TunnelSearchArgs" using specs_ok by simp
  have call: "(wire_request, Standard) \<in> set (do_calls (named wire_server None () ''search_mist_tunnels''
      ''searchOrgTunnelsStats'' (JObj (serialize_args TunnelSearchArgs
       [(''org_id'', JStr example_org), (''mode'', JStr ''records''), (''limit'', JNum (PosInt 5)),
        (''search_after'', JNull), (''start'', JNull), (''end'', JNull), (''duration'', JNull), (''distinct'', JNull)]))
      [''org_id''] OrdinaryRead))"
    using wire_calls by (simp add: wire_tunnels_def search_mist_tunnels_def resolve_def)
  have query: "bt_get (req_query wire_request) = (\<lambda>k. if k \<in> set (sent_names TunnelSearchArgs) - set [''org_id'']
      then non_null (obj_get wire_arguments k) else None)"
    by (rule conjunct2 [OF arguments_sent_exactly [OF wire_decoded spec call]])
  have "bt_get (req_query wire_request) ''limit'' = Some (JNum (PosInt 5))" "bt_get (req_query wire_request) ''org_id'' = None"
    unfolding query by (simp_all add: TunnelSearchArgs_def sent_names_def non_null_def wire_arguments_def obj_get_def)
  with wire_calls show ?thesis by simp
qed

text \<open>The same search with a start.\<close>

lemma wire_start_routed: "\<exists>t. route None ''search_mist_tunnels''
    (Some [(''org_id'', JStr example_org), (''start'', JNum (PosInt 0))]) = Some (ReadTool None t)"
proof -
  have "map_of tool_router ''search_mist_tunnels'' =
      Some (\<lambda>caller m. map_option (ReadTool caller) (moded SearchMistTunnels TunnelSearchArgs m))"
    by (simp add: tool_router_def read_table_def)
  moreover have "decode_args TunnelSearchArgs [(''org_id'', JStr example_org), (''start'', JNum (PosInt 0))] =
      Some [(''org_id'', JStr example_org), (''mode'', JStr ''records''), (''limit'', JNull), (''search_after'', JNull),
        (''start'', JNum (PosInt 0)), (''end'', JNull), (''duration'', JNull), (''distinct'', JNull)]"
    by (simp add: decode_args_def TunnelSearchArgs_def obj_get_def unsigned_value_def)
  ultimately show ?thesis
    by (simp add: route_def moded_def enum_arg_def opt_str_def obj_get_def stats_mode_arg_def)
qed

theorem numeric_start_never_sent_witness:
  "\<exists>t. route None ''search_mist_tunnels'' (Some [(''org_id'', JStr example_org), (''start'', JNum (PosInt 0))]) =
      Some (ReadTool None t) \<and> do_calls (call_tool wire_server None () t) = []"
proof -
  obtain t where t: "route None ''search_mist_tunnels''
      (Some [(''org_id'', JStr example_org), (''start'', JNum (PosInt 0))]) = Some (ReadTool None t)"
    using wire_start_routed by blast
  let ?q = "\<lparr>param_name = ''start'', param_location = ''query'', param_required = False, param_schema = string_schema\<rparr>"
  have "?q \<in> set (parameters tunnels_op)" by (simp add: tunnels_op_def)
  with numeric_start_never_sent [of wire_server tunnels_op ?q None _ t "PosInt 0" "()"] t show ?thesis
    by (auto simp: wire_accepts obj_get_def)
qed

section \<open>Null identifiers\<close>

text \<open>The preflight refuses a call with a null identifier, whatever the scope, though to the handler
  it is the same call as the one without the identifier.\<close>

theorem null_site_refused:
  "preflight_check (\<lambda>_. Some (wire_body ''search_mist_inventory'' [(''org_id'', JStr i), (''site_id'', JNull)]))
      pre ''body'' scopes = Inl ''insufficient_scope'' \<and>
   route caller ''search_mist_inventory'' (Some [(''org_id'', JStr i), (''site_id'', JNull)]) =
   route caller ''search_mist_inventory'' (Some [(''org_id'', JStr i)])"
proof
  let ?w = "wire_body ''search_mist_inventory'' [(''org_id'', JStr i), (''site_id'', JNull)]"
  have "\<not> call_in_scope pre scopes ?w"
    by (simp add: call_in_scope_def wire_body_fields ids_in_scope_def obj_get_def)
  then show "preflight_check (\<lambda>_. Some ?w) pre ''body'' scopes = Inl ''insufficient_scope''"
    using denied_iff [of pre scopes ?w] by (simp add: preflight_check_def Let_def wire_body_fields)
  have "decode_args InventoryArgs [(''org_id'', JStr i), (''site_id'', JNull)] =
      decode_args InventoryArgs [(''org_id'', JStr i)]"
    by (simp add: decode_args_def InventoryArgs_def obj_get_def)
  then show "route caller ''search_mist_inventory'' (Some [(''org_id'', JStr i), (''site_id'', JNull)]) =
      route caller ''search_mist_inventory'' (Some [(''org_id'', JStr i)])"
    by (simp add: route_def tool_router_def read_table_def plain_def)
qed

end
