(* ===== verification/Startup.thy ===== *)
theory Startup
  imports Rust_Strings
begin

text \<open>
  \<open>main.rs\<close>: the decisions at process start that are the program's own, that is the audit key
  file, the tokens file, the authentication of the transport, the lab mode and the listener's TLS.
  The file system is a map from paths to contents and modes; loading a token store or a
  certificate belongs to other crates and is a parameter. Starting the runtime, signals, logging
  and serving are not modelled.
\<close>

section \<open>The audit key file\<close>

record file_state =
  file_content :: string
  file_mode :: u32

type_synonym files = "string \<Rightarrow> file_state option"

text \<open>
  What can happen to an open and to a write, in this run: an error of the open, or an error of the
  write after some bytes. The mode given to an open is masked by the process's \<open>umask\<close>, and
  matters only when the open creates the file.
\<close>

record io_outcome =
  io_umask :: u32
  io_open_error :: "string option"
  io_write_error :: "(nat \<times> string) option"

definition hex_digit :: "nat \<Rightarrow> char" where
  "hex_digit n = ''0123456789abcdef'' ! n"

definition hex_byte :: "u8 \<Rightarrow> string" where
  "hex_byte b = [hex_digit (unat b div 16), hex_digit (unat b mod 16)]"

definition hex_key :: "u8 list \<Rightarrow> string" where
  "hex_key key = concat (map hex_byte key)"

definition open_truncate :: "io_outcome \<Rightarrow> string \<Rightarrow> files \<Rightarrow> string + files" where
  "open_truncate io path fs =
     (case io_open_error io of
        Some e \<Rightarrow> Inl e
      | None \<Rightarrow> Inr (fs(path \<mapsto> (case fs path of
            Some f \<Rightarrow> f\<lparr>file_content := []\<rparr>
          | None \<Rightarrow> \<lparr>file_content = [], file_mode = and 0x180 (not (io_umask io))\<rparr>))))"

definition write_all :: "io_outcome \<Rightarrow> string \<Rightarrow> string \<Rightarrow> files \<Rightarrow> files \<times> (string + unit)" where
  "write_all io path bytes fs =
     (let put = (\<lambda>bs. fs(path := map_option (\<lambda>f. f\<lparr>file_content := bs\<rparr>) (fs path))) in
      case io_write_error io of
        Some (n, e) \<Rightarrow> (put (take n bytes), Inl e)
      | None \<Rightarrow> (put bytes, Inr ()))"

text \<open>\<open>entropy\<close> is what the operating system gives for the 32 bytes of a key.\<close>

definition ensure_audit_hmac_key ::
  "io_outcome \<Rightarrow> (string + u8 list) \<Rightarrow> string \<Rightarrow> files \<Rightarrow> files \<times> (string + unit)" where
  "ensure_audit_hmac_key io entropy path fs =
     (if (case fs path of Some f \<Rightarrow> length (file_content f) > 0 | None \<Rightarrow> False) then (fs, Inr ())
      else case entropy of
        Inl e \<Rightarrow> (fs, Inl (''generating audit HMAC key: OS entropy source unavailable: '' @ e))
      | Inr key \<Rightarrow>
          (case open_truncate io path fs of
             Inl e \<Rightarrow> (fs, Inl (''creating audit HMAC key file '' @ path))
           | Inr fs1 \<Rightarrow>
               (case write_all io path (hex_key key) fs1 of
                  (fs2, Inl e) \<Rightarrow> (fs2, Inl (''writing audit HMAC key file '' @ path))
                | (fs2, Inr _) \<Rightarrow> (fs2, Inr ()))))"

section \<open>Tokens and authentication\<close>

record resolved_token_path =
  rt_path :: string
  rt_used_fallback :: bool
  rt_fallback_from :: "string option"

text \<open>\<open>resolve_token_path\<close> of the shared crate gets the configured and the legacy path.\<close>

definition resolve_tokens_with ::
  "(string \<Rightarrow> string \<Rightarrow> string + resolved_token_path) \<Rightarrow> string \<Rightarrow> string \<Rightarrow> string
    \<Rightarrow> string + resolved_token_path" where
  "resolve_tokens_with resolve_token_path configured canonical legacy =
     (if configured \<noteq> canonical
      then Inr \<lparr>rt_path = configured, rt_used_fallback = False, rt_fallback_from = None\<rparr>
      else map_err (\<lambda>_. ''resolving token file path'') (resolve_token_path configured legacy))"

definition resolve_tokens ::
  "(string \<Rightarrow> string \<Rightarrow> string + resolved_token_path) \<Rightarrow> string \<Rightarrow> string + resolved_token_path" where
  "resolve_tokens resolve_token_path configured =
     resolve_tokens_with resolve_token_path configured ''/var/lib/rustmistmcp/tokens.json''
       ''/etc/rustmistmcp/tokens.json''"

datatype 't auth_config = Authenticated 't | ExplicitlyUnauthenticated

definition load_http_token_store ::
  "(string \<Rightarrow> string \<Rightarrow> string + resolved_token_path) \<Rightarrow> (string \<Rightarrow> string + 't)
    \<Rightarrow> string option \<Rightarrow> bool \<Rightarrow> string + 't auth_config" where
  "load_http_token_store resolve_token_path load tokens_file allow_no_auth =
     (case (tokens_file, allow_no_auth) of
        (Some path, _) \<Rightarrow>
          and_then (map_err (\<lambda>_. ''resolving token path for '' @ path) (resolve_tokens resolve_token_path path)) (\<lambda>resolved.
          and_then (map_err (\<lambda>_. ''loading '' @ rt_path resolved) (load (rt_path resolved))) (\<lambda>store.
          Inr (Authenticated store)))
      | (None, True) \<Rightarrow> Inr ExplicitlyUnauthenticated
      | (None, False) \<Rightarrow> Inl (''HTTP transport requires either --tokens-file or --allow-no-auth; ''
          @ ''refusing to serve unauthenticated without explicit acknowledgement''))"

section \<open>Lab mode, TLS\<close>

datatype ip_addr = V4 u8 u8 u8 u8 | V6 "128 word"

fun is_loopback :: "ip_addr \<Rightarrow> bool" where
  "is_loopback (V4 a b c d) = (a = 127)"
| "is_loopback (V6 w) = (w = 1)"

definition refuse_lab_mode_off_loopback :: "(ip_addr \<Rightarrow> string) \<Rightarrow> bool \<Rightarrow> ip_addr \<Rightarrow> string + unit" where
  "refuse_lab_mode_off_loopback show_ip lab_mode ip =
     (if lab_mode \<and> \<not> is_loopback ip
      then Inl (''--lab-mode waives the human-approver gate for every caller that reaches the ''
        @ ''listener, so it may only be combined with a loopback bind address ''
        @ ''(127.0.0.0/8 or ::1); got '' @ show_ip ip @ ''. Bind --host 127.0.0.1 (or ::1), or remove ''
        @ ''--lab-mode.'')
      else Inr ())"

definition load_listener_tls ::
  "(string \<Rightarrow> string \<Rightarrow> string + 'tls) \<Rightarrow> string option \<Rightarrow> string option \<Rightarrow> string + 'tls option" where
  "load_listener_tls load_tls tls_cert tls_key =
     (case (tls_cert, tls_key) of
        (Some cert, Some key) \<Rightarrow> map_err (\<lambda>_. ''loading listener TLS'') (and_then (load_tls cert key) (\<lambda>t. Inr (Some t)))
      | _ \<Rightarrow> Inr None)"

definition load_approval_digest_key ::
  "(string \<Rightarrow> string + 'k) \<Rightarrow> string option \<Rightarrow> string + 'k option" where
  "load_approval_digest_key load_from_file path =
     (case path of
        None \<Rightarrow> Inr None
      | Some p \<Rightarrow> map_err (\<lambda>_. ''loading --approval-digest-key-file '' @ p)
          (and_then (load_from_file p) (\<lambda>k. Inr (Some k))))"

section \<open>Properties\<close>

fun hex_value :: "char \<Rightarrow> nat" where
  "hex_value c = (if is_ascii_digit c then of_char c - 48 else of_char c - 87)"

fun unhex :: "string \<Rightarrow> u8 list" where
  "unhex (a # b # s) = of_nat (16 * hex_value a + hex_value b) # unhex s"
| "unhex _ = []"

lemma hex_value_digit: "n < 16 \<Longrightarrow> hex_value (hex_digit n) = n"
proof -
  have "list_all (\<lambda>n. hex_value (hex_digit n) = n) [0..<16]" by code_simp
  then show "n < 16 \<Longrightarrow> hex_value (hex_digit n) = n" by (simp add: list_all_iff del: hex_value.simps)
qed

lemma unhex_hex_key: "unhex (hex_key key) = key"
proof (induction key)
  case (Cons b key)
  have "unat b < 256" using unsigned_less [of b] by simp
  then have "unat b div 16 < 16" "unat b mod 16 < 16" by simp_all
  then have "of_nat (16 * hex_value (hex_digit (unat b div 16)) + hex_value (hex_digit (unat b mod 16))) = b"
    by (simp add: hex_value_digit del: hex_value.simps of_nat_add of_nat_mult)
  with Cons show ?case by (simp add: hex_key_def hex_byte_def del: hex_value.simps)
qed (simp add: hex_key_def)

text \<open>C36: Provisioning the audit key never rotates a key: a file that is not empty stays as it is.
  Otherwise a success leaves a file whose hexadecimal digits are the fresh key. No other file
  changes, also when it fails.\<close>

theorem audit_key_provisioned:
  "case ensure_audit_hmac_key io (Inr key) path fs of (fs', result) \<Rightarrow>
     fs'(path := None) = fs(path := None) \<and>
     (case fs path of
        Some f \<Rightarrow> if file_content f \<noteq> [] then fs' = fs \<and> result = Inr ()
          else (case result of Inl _ \<Rightarrow> True | Inr _ \<Rightarrow> fs' path = Some (f\<lparr>file_content := hex_key key\<rparr>))
      | None \<Rightarrow> (case result of Inl _ \<Rightarrow> True
          | Inr _ \<Rightarrow> map_option (unhex \<circ> file_content) (fs' path) = Some key))"
  by (auto simp: ensure_audit_hmac_key_def open_truncate_def write_all_def Let_def unhex_hex_key fun_eq_iff
      split: option.split)

text \<open>A write that fails after some bytes leaves them in the file, and the next start takes them
  for the key: here one hexadecimal digit.\<close>

theorem short_key_accepted:
  "let io = \<lparr>io_umask = 0x3F, io_open_error = None, io_write_error = Some (1, ''no space'')\<rparr>;
       (fs, first) = ensure_audit_hmac_key io (Inr [0xAB]) ''key'' Map.empty
   in \<not> is_ok first \<and> map_option file_content (fs ''key'') = Some ''a'' \<and>
      ensure_audit_hmac_key io (Inr [0xAB]) ''key'' fs = (fs, Inr ())"
  by (simp add: ensure_audit_hmac_key_def open_truncate_def write_all_def hex_key_def hex_byte_def hex_digit_def
      Let_def)

text \<open>A file that was empty keeps its mode: the key is written into a file that others may read.\<close>

theorem existing_mode_kept:
  "let io = \<lparr>io_umask = 0x3F, io_open_error = None, io_write_error = None\<rparr>;
       (fs, result) = ensure_audit_hmac_key io (Inr key) ''key''
          [''key'' \<mapsto> \<lparr>file_content = [], file_mode = 0x1A4\<rparr>]
   in result = Inr () \<and> fs ''key'' = Some \<lparr>file_content = hex_key key, file_mode = 0x1A4\<rparr>"
  by (simp add: ensure_audit_hmac_key_def open_truncate_def write_all_def Let_def)

text \<open>The HTTP transport starts without authentication only with no tokens file and the explicit
  flag. With a tokens file it starts only with a store loaded from it; the legacy path is tried
  only for the canonical path, byte for byte.\<close>

theorem http_auth_exact:
  "load_http_token_store resolve_token_path load tokens_file allow_no_auth = Inr auth \<longleftrightarrow>
     (case auth of
        ExplicitlyUnauthenticated \<Rightarrow> tokens_file = None \<and> allow_no_auth
      | Authenticated store \<Rightarrow> (\<exists>path resolved. tokens_file = Some path \<and> load (rt_path resolved) = Inr store \<and>
          (if path = ''/var/lib/rustmistmcp/tokens.json''
           then resolve_token_path path ''/etc/rustmistmcp/tokens.json'' = Inr resolved
           else resolved = \<lparr>rt_path = path, rt_used_fallback = False, rt_fallback_from = None\<rparr>)))"
  by (cases tokens_file; cases allow_no_auth; cases auth)
    (auto simp: load_http_token_store_def resolve_tokens_def resolve_tokens_with_def and_then_Inr_iff
      map_err_def split: sum.splits if_splits)

end
