(* ===== verification/CursorWire.thy ===== *)
theory CursorWire
  imports Arguments Startup
begin

text \<open>
  \<open>pagination.rs\<close>, the cursor as text: the JSON document that the derived \<open>Serialize\<close> writes, the derived
  \<open>Deserialize\<close> of \<open>MistCursorWire\<close> and \<open>MistCursorContext\<close> that reads one, and the hexadecimal
  spelling in between (\<open>server/mod.rs\<close>). The bytes of a JSON document and the hexadecimal spelling are
  those of \<open>serde_json\<close> and \<open>hex\<close>: \<open>to_vec\<close>, \<open>from_slice\<close>, \<open>hex_encode\<close> and
  \<open>hex_decode\<close>. A document that was read has the members of its objects in the order of the text, repeated ones too.
\<close>

section \<open>Writing\<close>

definition mode_names :: "(string \<times> pagination_mode) list" where
  "mode_names = [(''none'', PagNone), (''page_limit'', PageLimit), (''search_after'', SearchAfter)]"

definition mode_name :: "pagination_mode \<Rightarrow> string" where
  "mode_name mode = (case mode of PagNone \<Rightarrow> ''none'' | PageLimit \<Rightarrow> ''page_limit'' | SearchAfter \<Rightarrow> ''search_after'')"

text \<open>A target that does not parse back fails the whole.\<close>

definition context_document :: "cursor_context \<Rightarrow> json option" where
  "context_document ctx =
     map_option (\<lambda>target. JObj
       [(''path'', JObj (map (\<lambda>(k, v). (k, JStr v)) (ctx_path ctx))), (''query'', JObj (ctx_query ctx)),
        (''target'', target)])
     (case ctx_target ctx of None \<Rightarrow> Some JNull | Some t \<Rightarrow> map_option JStr (ok (target_serialize t)))"

definition cursor_document :: "mist_cursor \<Rightarrow> json option" where
  "cursor_document c =
     map_option (\<lambda>ctx. JObj
       ([(''operation_id'', JStr (cur_operation_id c)), (''origin'', JStr (cur_origin c)),
         (''mode'', JStr (mode_name (cur_mode c))), (''value'', JStr (cur_value c))] @ ctx))
     (case cur_context c of
        None \<Rightarrow> Some []
      | Some ctx \<Rightarrow> map_option (\<lambda>d. [(''context'', d)]) (context_document ctx))"

definition cursor_to_vec :: "(json \<Rightarrow> string) \<Rightarrow> mist_cursor \<Rightarrow> string option" where
  "cursor_to_vec to_vec c = map_option to_vec (cursor_document c)"

section \<open>Reading\<close>

text \<open>\<open>deny_unknown_fields\<close>: an object has only these members, none twice; an array has the fields in their order,
  at least those without a default.\<close>

definition struct_fields :: "string list \<Rightarrow> nat \<Rightarrow> json \<Rightarrow> (string \<Rightarrow> json option) option" where
  "struct_fields names least v =
     (case v of
        JObj m \<Rightarrow> if distinct (map fst m) \<and> list_all (\<lambda>(k, _). k \<in> set names) m then Some (map_of m) else None
      | JArr xs \<Rightarrow> if least \<le> length xs \<and> length xs \<le> length names then Some (map_of (zip names xs)) else None
      | _ \<Rightarrow> None)"

text \<open>A \<open>Value\<close> keeps the place of a repeated member and its last value.\<close>

fun as_value :: "json \<Rightarrow> json" where
  "as_value (JArr xs) = JArr (map as_value xs)"
| "as_value (JObj m) = JObj (fold (\<lambda>(k, v) n. obj_insert k v n) (map (\<lambda>(k, v). (k, as_value v)) m) [])"
| "as_value v = v"

definition read_option :: "(json \<Rightarrow> 'a option) \<Rightarrow> json option \<Rightarrow> 'a option option" where
  "read_option reader x = (case x of None \<Rightarrow> Some None | Some JNull \<Rightarrow> Some None | Some v \<Rightarrow> map_option Some (reader v))"

definition read_strings :: "json \<Rightarrow> (string, string) btree option" where
  "read_strings v = (case v of
      JObj m \<Rightarrow> map_option bt_from (those (map (\<lambda>(k, v). map_option (Pair k) (as_str v)) m))
    | _ \<Rightarrow> None)"

definition read_values :: "json \<Rightarrow> (string, json) btree option" where
  "read_values v = (case v of JObj m \<Rightarrow> Some (bt_from (map (\<lambda>(k, v). (k, as_value v)) m)) | _ \<Rightarrow> None)"

definition read_target :: "json \<Rightarrow> mist_target option" where
  "read_target v = Option.bind (as_str v) (\<lambda>s. ok (target_deserialize s))"

definition read_context :: "json \<Rightarrow> cursor_context option" where
  "read_context v =
     Option.bind (struct_fields [''path'', ''query'', ''target''] 3 v) (\<lambda>field.
     Option.bind (Option.bind (field ''path'') read_strings) (\<lambda>path.
     Option.bind (Option.bind (field ''query'') read_values) (\<lambda>query.
     Option.bind (read_option read_target (field ''target'')) (\<lambda>target.
     Some \<lparr>ctx_path = path, ctx_query = query, ctx_target = target\<rparr>))))"

definition read_wire :: "json \<Rightarrow> mist_cursor_wire option" where
  "read_wire v =
     Option.bind (struct_fields [''operation_id'', ''origin'', ''mode'', ''value'', ''context''] 4 v) (\<lambda>field.
     Option.bind (Option.bind (field ''operation_id'') as_str) (\<lambda>i.
     Option.bind (Option.bind (field ''origin'') as_str) (\<lambda>origin.
     Option.bind (Option.bind (Option.bind (field ''mode'') unit_variant) (map_of mode_names)) (\<lambda>mode.
     Option.bind (Option.bind (field ''value'') as_str) (\<lambda>v.
     Option.bind (read_option read_context (field ''context'')) (\<lambda>context.
     Some \<lparr>wire_operation_id = i, wire_origin = origin, wire_mode = mode, wire_value = v, wire_context = context\<rparr>))))))"

definition read_cursor ::
  "(string \<Rightarrow> url option) \<Rightarrow> (mist_cursor \<Rightarrow> string option) \<Rightarrow> json \<Rightarrow> mist_cursor option" where
  "read_cursor parse_url cursor_json v =
     Option.bind (read_wire v) (\<lambda>w. ok (cursor_try_from parse_url cursor_json w))"

text \<open>\<open>hex::decode\<close>, then \<open>serde_json::from_slice\<close>.\<close>

definition decode_continuation ::
  "(string \<Rightarrow> string option) \<Rightarrow> (string \<Rightarrow> json option) \<Rightarrow> (string \<Rightarrow> url option)
    \<Rightarrow> (mist_cursor \<Rightarrow> string option) \<Rightarrow> string \<Rightarrow> mist_cursor option" where
  "decode_continuation hex_decode from_slice parse_url cursor_json encoded =
     Option.bind (hex_decode encoded) (\<lambda>bytes. Option.bind (from_slice bytes) (read_cursor parse_url cursor_json))"

section \<open>What was written is read\<close>

lemma as_value_wf: "json_wf v \<Longrightarrow> as_value v = v"
proof (induction v)
  case (JArr xs)
  then show ?case by (simp add: list_all_iff map_idI)
next
  case (JObj m)
  have "fold (\<lambda>(k, v) n. obj_insert k v n) qs ms = ms @ qs" if "distinct (map fst (ms @ qs))" for qs ms :: jmap
    using that
  proof (induction qs arbitrary: ms)
    case (Cons q qs)
    then have "obj_insert (fst q) (snd q) ms = ms @ [q]"
      by (cases q) (auto simp: obj_insert_new obj_get_def map_of_eq_None_iff)
    with Cons.IH [of "ms @ [q]"] Cons.prems show ?case by (simp add: case_prod_unfold)
  qed simp
  moreover have "map (\<lambda>(k, v). (k, as_value v)) m = m"
    using JObj by (auto simp: list_all_iff intro!: map_idI)
  ultimately show ?case using JObj.prems by (simp add: obj_wf_def)
qed simp_all

lemma bt_from_wf: "bt_wf m \<Longrightarrow> bt_from m = m"
proof (rule bt_eqI)
  assume wf: "bt_wf m"
  then show "bt_get (bt_from m) = bt_get m"
    by (simp add: bt_get_from bt_wf_distinct bt_get_def fun_eq_iff)
qed (auto intro: bt_wf_from)

lemma read_strings_document: "bt_wf m \<Longrightarrow> read_strings (JObj (map (\<lambda>(k, v). (k, JStr v)) m)) = Some m"
proof -
  have "those (map (\<lambda>(k, v). map_option (Pair k) (as_str v)) (map (\<lambda>(k, v). (k, JStr v)) m)) = Some m" for m :: "(string \<times> string) list"
    by (induction m) auto
  then show "bt_wf m \<Longrightarrow> ?thesis" by (simp add: read_strings_def bt_from_wf)
qed

lemma read_values_document: "bt_wf m \<Longrightarrow> list_all (\<lambda>(k, v). json_wf v) m \<Longrightarrow> read_values (JObj m) = Some m"
proof -
  assume m: "bt_wf m" "list_all (\<lambda>(k, v). json_wf v) m"
  then have "map (\<lambda>(k, v). (k, as_value v)) m = m" by (auto simp: list_all_iff as_value_wf intro!: map_idI)
  with m(1) show ?thesis by (simp add: read_values_def bt_from_wf)
qed

lemma target_subject_inject: "target_subject t = target_subject u \<longleftrightarrow> t = u"
  by (cases t rule: target_subject.cases; cases u rule: target_subject.cases) auto

lemma target_serialize_ok:
  assumes "target_serialize t = Inr s"
  shows "target_deserialize s = Inr t"
proof -
  obtain u where u: "target_parse (target_subject t) = Inr u" "s = target_subject t"
    using assms by (cases "target_parse (target_subject t)") (simp_all add: target_serialize_def)
  have "u = t" using target_parse_Inr [OF u(1)] target_subject_inject by blast
  with u show ?thesis by (simp only: target_deserialize_def)
qed

lemma read_context_document:
  assumes "context_document ctx = Some d" and "bt_wf (ctx_path ctx)" and "bt_wf (ctx_query ctx)"
    and "list_all (\<lambda>(k, v). json_wf v) (ctx_query ctx)"
  shows "d \<noteq> JNull \<and> read_context d = Some ctx"
proof -
  obtain target where target: "(case ctx_target ctx of None \<Rightarrow> Some JNull
        | Some t \<Rightarrow> map_option JStr (ok (target_serialize t))) = Some target"
    and d: "d = JObj [(''path'', JObj (map (\<lambda>(k, v). (k, JStr v)) (ctx_path ctx))), (''query'', JObj (ctx_query ctx)),
      (''target'', target)]"
    using assms(1) by (auto simp: context_document_def)
  have "read_option read_target (Some target) = Some (ctx_target ctx)"
  proof (cases "ctx_target ctx")
    case (Some t)
    with target obtain s where "target_serialize t = Inr s" "target = JStr s"
      by (cases "target_serialize t") auto
    with Some target_serialize_ok [of t s] show ?thesis by (simp add: read_option_def read_target_def)
  qed (use target in \<open>simp add: read_option_def\<close>)
  with d read_strings_document [OF assms(2)] read_values_document [OF assms(3,4)] show ?thesis
    by (simp add: read_context_def struct_fields_def)
qed

lemma read_wire_document:
  assumes "cursor_document c = Some d"
    and "\<And>ctx. cur_context c = Some ctx \<Longrightarrow> bt_wf (ctx_path ctx) \<and> bt_wf (ctx_query ctx) \<and>
      list_all (\<lambda>(k, v). json_wf v) (ctx_query ctx)"
  shows "read_wire d = Some \<lparr>wire_operation_id = cur_operation_id c, wire_origin = cur_origin c, wire_mode = cur_mode c,
    wire_value = cur_value c, wire_context = cur_context c\<rparr>"
proof -
  have mode: "map_of mode_names (mode_name m) = Some m" for m
    by (cases m) (simp_all add: mode_names_def mode_name_def)
  show ?thesis
  proof (cases "cur_context c")
    case None
    with assms(1) mode show ?thesis
      by (auto simp: cursor_document_def read_wire_def struct_fields_def read_option_def)
  next
    case (Some ctx)
    with assms(1) obtain x where x: "context_document ctx = Some x"
        "d = JObj [(''operation_id'', JStr (cur_operation_id c)), (''origin'', JStr (cur_origin c)),
          (''mode'', JStr (mode_name (cur_mode c))), (''value'', JStr (cur_value c)), (''context'', x)]"
      by (auto simp: cursor_document_def)
    with read_context_document [OF x(1)] assms(2) [OF Some] have "read_option read_context (Some x) = Some (Some ctx)"
      by (cases x) (simp_all add: read_option_def)
    with x(2) mode Some show ?thesis by (simp add: read_wire_def struct_fields_def)
  qed
qed

text \<open>What the checks of a decoded cursor leave, spelled out.\<close>

definition cursor_admissible :: "(string \<Rightarrow> url option) \<Rightarrow> (json \<Rightarrow> string) \<Rightarrow> mist_cursor \<Rightarrow> bool" where
  "cursor_admissible parse_url to_vec c \<longleftrightarrow>
     cur_operation_id c \<noteq> [] \<and> length (cur_operation_id c) \<le> 256 \<and>
     (\<exists>s origin. parse_url s = Some origin \<and> cur_origin c = url_as_str origin) \<and>
     (case cur_mode c of PagNone \<Rightarrow> False | SearchAfter \<Rightarrow> True
      | PageLimit \<Rightarrow> (\<exists>n. parse_u64 (cur_value c) = Some n \<and> n \<noteq> 0)) \<and>
     cur_value c \<noteq> [] \<and> length (cur_value c) \<le> 4096 \<and>
     (\<exists>d. cursor_document c = Some d \<and> 2 * length (to_vec d) \<le> 262144)"

lemma encoded_size_iff:
  "validate_encoded_size (cursor_to_vec to_vec) c = Inr () \<longleftrightarrow>
     (\<exists>d. cursor_document c = Some d \<and> 2 * length (to_vec d) \<le> 262144)"
  by (auto simp: validate_encoded_size_def cursor_to_vec_def MAX_ENCODED_CURSOR_BYTES_def min_def split: option.splits)

lemma cursor_try_from_admissible:
  "cursor_try_from parse_url (cursor_to_vec to_vec) w = Inr c \<Longrightarrow> cursor_admissible parse_url to_vec c"
  by (auto simp: cursor_try_from_def and_then_Inr_iff cursor_new_Inr encoded_size_iff cursor_admissible_def Let_def
      intro!: exI [of _ "wire_origin w"] split: option.splits pagination_mode.splits)

lemma read_cursor_admissible:
  assumes "read_cursor parse_url (cursor_to_vec to_vec) v = Some c"
  shows "cursor_admissible parse_url to_vec c"
proof -
  obtain w where "ok (cursor_try_from parse_url (cursor_to_vec to_vec) w) = Some c"
    using assms by (auto simp: read_cursor_def bind_eq_Some_conv)
  then have "cursor_try_from parse_url (cursor_to_vec to_vec) w = Inr c" by (simp add: ok_def split: sum.splits)
  then show ?thesis by (rule cursor_try_from_admissible)
qed

lemma decoded_admissible:
  "pred_option (cursor_admissible parse_url to_vec)
     (decode_continuation hex_decode from_slice parse_url (cursor_to_vec to_vec) encoded)"
proof -
  have "cursor_admissible parse_url to_vec c"
    if "decode_continuation hex_decode from_slice parse_url (cursor_to_vec to_vec) encoded = Some c" for c
    using that by (auto simp: decode_continuation_def bind_eq_Some_conv intro: read_cursor_admissible)
  then show ?thesis by (simp add: option.pred_set)
qed

lemma cursor_try_from_wire:
  assumes "cursor_new i origin mode v = Inr c0" and "parse_url (url_as_str origin) = Some origin"
    and "with_request_context (cursor_to_vec to_vec) path query target c0 = Inr c"
  shows "cursor_try_from parse_url (cursor_to_vec to_vec) \<lparr>wire_operation_id = cur_operation_id c,
    wire_origin = cur_origin c, wire_mode = cur_mode c, wire_value = cur_value c, wire_context = cur_context c\<rparr> = Inr c"
  using assms by (auto simp: cursor_try_from_def with_request_context_def and_then_Inr_iff cursor_new_Inr Let_def)

text \<open>C24: The cursor that a read attaches to its response comes back as it was issued: the text in \<open>next_cursor\<close>
  is the hexadecimal spelling of its JSON document, and decoding that text and resolving it for the same operation gives
  the path and query of the read and the same cursor, field by field, whatever its mode, its target and the values of its
  query. The maps are in key order and the target is
  the one the path names, as for every call that was made. This is so where the JSON library reads this document back as written (with floating-point numbers
  it need not), the hexadecimal one inverts itself, and the origin parses back. Any text decodes, if at all, to a cursor
  within every bound, with an origin that is a URL.\<close>

theorem continuation_roundtrip:
  assumes vec: "de_cursor_json env = cursor_to_vec to_vec"
    and c0: "cursor_new i origin mode v = Inr c0"
    and c: "with_request_context (de_cursor_json env) path query target c0 = Inr c"
    and wf: "bt_wf path" "bt_wf query" "list_all (\<lambda>(k, v). json_wf v) query"
    and json: "\<And>d. cursor_document c = Some d \<Longrightarrow> from_slice (to_vec d) = Some d" "from_slice [] = None"
    and hex: "\<And>b. hex_decode (de_hex_encode env b) = Some b" "\<And>b. length (de_hex_encode env b) = 2 * length b"
      "\<And>b. list_all is_ascii_hexdigit (de_hex_encode env b)"
    and url: "parse_url (url_as_str origin) = Some origin"
    and p: "catalog_operation (h_catalog h) i = Some p" "target_for (target_selectors p) path = Inr target"
  shows "(\<exists>text. en_next_cursor (envelope_from_response env (x\<lparr>resp_cursor := Some c\<rparr>) t budget redact) = Some text \<and>
      resolve_cursor (decode_continuation hex_decode from_slice parse_url (de_cursor_json env)) h
        \<lparr>ia_operation_id = i, ia_path = None, ia_query = None, ia_cursor = Some text\<rparr> = Inr (path, query, Some c)) \<and>
    pred_option (cursor_admissible parse_url to_vec)
      (decode_continuation hex_decode from_slice parse_url (de_cursor_json env) encoded)"
proof
  have c_is: "cur_context c = Some \<lparr>ctx_path = path, ctx_query = query, ctx_target = target\<rparr>"
    and "validate_encoded_size (cursor_to_vec to_vec) c = Inr ()"
    using c c0 by (auto simp: with_request_context_def and_then_Inr_iff vec Let_def)
  then obtain d where d: "cursor_document c = Some d" "2 * length (to_vec d) \<le> 262144" by (auto simp: encoded_size_iff)
  have "read_cursor parse_url (cursor_to_vec to_vec) d = Some c"
    using read_wire_document [OF d(1)] cursor_try_from_wire [where parse_url = parse_url, OF c0 url c [unfolded vec]] c_is wf
    by (simp add: read_cursor_def)
  then have decoded: "decode_continuation hex_decode from_slice parse_url (de_cursor_json env) (de_hex_encode env (to_vec d)) = Some c"
    using json(1) d(1) by (simp add: decode_continuation_def hex vec)
  have "to_vec d \<noteq> []" using json d(1) by fastforce
  then have "\<not> cursor_malformed (de_hex_encode env (to_vec d))"
    using d(2) hex(2) [of "to_vec d"] by (auto simp: cursor_malformed_def hex(3) MAX_ENCODED_CURSOR_BYTES_def)
  with decoded c_is p have "resolve_cursor (decode_continuation hex_decode from_slice parse_url (de_cursor_json env)) h
      \<lparr>ia_operation_id = i, ia_path = None, ia_query = None, ia_cursor = Some (de_hex_encode env (to_vec d))\<rparr>
    = Inr (path, query, Some c)"
    by (simp add: resolve_cursor_def request_context_def)
  moreover have "en_next_cursor (envelope_from_response env (x\<lparr>resp_cursor := Some c\<rparr>) t budget redact) =
      Some (de_hex_encode env (to_vec d))"
    by (simp add: envelope_from_response_def vec cursor_to_vec_def d(1) Let_def split: response_body.split)
  ultimately show "\<exists>text. en_next_cursor (envelope_from_response env (x\<lparr>resp_cursor := Some c\<rparr>) t budget redact) = Some text \<and>
      resolve_cursor (decode_continuation hex_decode from_slice parse_url (de_cursor_json env)) h
        \<lparr>ia_operation_id = i, ia_path = None, ia_query = None, ia_cursor = Some text\<rparr> = Inr (path, query, Some c)"
    by blast
  show "pred_option (cursor_admissible parse_url to_vec)
      (decode_continuation hex_decode from_slice parse_url (de_cursor_json env) encoded)"
    unfolding vec by (rule decoded_admissible)
qed

section \<open>An instance\<close>

text \<open>The bytes of one document, and the digits of \<open>Startup\<close>.\<close>

definition example_hex :: "string \<Rightarrow> string" where
  "example_hex s = hex_key (map (\<lambda>c. of_nat (of_char c)) s)"

definition example_unhex :: "string \<Rightarrow> string option" where
  "example_unhex s = Some (map (\<lambda>b. char_of (unat b)) (unhex s))"

lemma example_hex_laws:
  "example_unhex (example_hex s) = Some s" "length (example_hex s) = 2 * length s"
  "list_all is_ascii_hexdigit (example_hex s)"
proof -
  have "char_of (unat (of_nat (of_char c) :: u8)) = c" for c :: char
    by (simp add: unat_of_nat take_bit_eq_mod)
  then show "example_unhex (example_hex s) = Some s"
    by (simp add: example_unhex_def example_hex_def unhex_hex_key comp_def)
  show "length (example_hex s) = 2 * length s"
    by (induction s) (simp_all add: example_hex_def hex_key_def hex_byte_def)
  have "list_all (\<lambda>n. is_ascii_hexdigit (hex_digit n)) [0..<16]" by code_simp
  then have "is_ascii_hexdigit (hex_digit n)" if "n < 16" for n using that by (simp add: list_all_iff)
  moreover have "unat b div 16 < 16" for b :: u8
    using unsigned_less [of b, where 'a = nat] by (simp add: less_mult_imp_div_less)
  ultimately show "list_all is_ascii_hexdigit (example_hex s)"
    by (induction s) (simp_all add: example_hex_def hex_key_def hex_byte_def)
qed

definition list_sites :: mist_operation where
  "list_sites = get_self\<lparr>operation_id := ''listOrgSites'', target_selectors := [SelOrg]\<rparr>"

definition list_handler :: handler where
  "list_handler = example_handler\<lparr>h_catalog := example_catalog\<lparr>cat_operations := [list_sites],
     operation_index := [(''listOrgSites'', 0)]\<rparr>\<rparr>"

definition example_cursor :: mist_cursor where
  "example_cursor = \<lparr>cur_operation_id = ''listOrgSites'', cur_origin = ''https://api.mist.com/'', cur_mode = PageLimit,
     cur_value = ''2'', cur_context = Some \<lparr>ctx_path = [(''org_id'', example_org)],
       ctx_query = [(''limit'', JNum (PosInt 10))], ctx_target = Some (MistTarget KindOrg example_org)\<rparr>\<rparr>"

definition example_to_vec :: "json \<Rightarrow> string" where "example_to_vec v = ''{}''"

definition example_from_slice :: "string \<Rightarrow> json option" where
  "example_from_slice s = (if s = ''{}'' then cursor_document example_cursor else None)"

definition continuation_env :: "nat dispatch_env" where
  "continuation_env = example_dispatch_env\<lparr>de_cursor_json := cursor_to_vec example_to_vec, de_hex_encode := example_hex\<rparr>"

lemma example_cursor_document: "\<exists>d. cursor_document example_cursor = Some d"
  by (simp add: cursor_document_def context_document_def example_cursor_def target_serialize_def target_parse_subject
      target_valid_def example_canonical ok_def del: target_subject.simps)

theorem continuation_roundtrip_witness:
  "\<exists>text. en_next_cursor (envelope_from_response continuation_env (example_response\<lparr>resp_cursor := Some example_cursor\<rparr>) None None True)
      = Some text \<and>
    resolve_cursor (decode_continuation example_unhex example_from_slice (\<lambda>_. Some example_origin) (de_cursor_json continuation_env))
        list_handler \<lparr>ia_operation_id = ''listOrgSites'', ia_path = None, ia_query = None, ia_cursor = Some text\<rparr> =
      Inr ([(''org_id'', example_org)], [(''limit'', JNum (PosInt 10))], Some example_cursor)"
proof -
  have new: "cursor_new ''listOrgSites'' example_origin PageLimit ''2'' = Inr (example_cursor\<lparr>cur_context := None\<rparr>)"
    using example_page_cursor by (simp add: example_cursor_def)
  have attached: "with_request_context (de_cursor_json continuation_env) [(''org_id'', example_org)] [(''limit'', JNum (PosInt 10))]
      (Some (MistTarget KindOrg example_org)) (example_cursor\<lparr>cur_context := None\<rparr>) = Inr example_cursor"
    using example_cursor_document
    by (auto simp: with_request_context_def continuation_env_def encoded_size_iff example_cursor_def and_then_Inr_iff Let_def
        example_to_vec_def)
  note read_back = continuation_roundtrip [where to_vec = example_to_vec and from_slice = example_from_slice
      and hex_decode = example_unhex and parse_url = "\<lambda>_. Some example_origin" and h = list_handler and p = list_sites
      and x = example_response and t = None and budget = None and redact = True and encoded = "[]", OF _ new attached]
  show ?thesis
    by (rule read_back [THEN conjunct1])
      (simp_all add: continuation_env_def bt_wf_def example_from_slice_def example_to_vec_def example_hex_laws list_handler_def
        catalog_operation_def index_get_def bt_get_def list_get_def list_sites_def target_for_def target_org_def example_canonical)
qed

end
