(* ===== verification/ExecuteClass.thy ===== *)
theory ExecuteClass
  imports Grant "HOL-Library.Multiset"
begin

text \<open>
  \<open>execute_class.rs\<close>: the three lists that divide the \<open>execute\<close> operations into excluded,
  diagnostic and gated ones, and the classifier over them. The lists are sorted, so that one
  merge, whose result is strictly increasing, shows them disjoint and free of duplicates.
\<close>

datatype execute_class_of = Excluded | Diagnostic | Gated

definition EXCLUDED_EXECUTE_OPERATIONS :: "string list" where
  "EXCLUDED_EXECUTE_OPERATIONS = [
    ''exportOrgSsrIdTokens'', ''generateSecretFor2faVerification'',
    ''getSiteDeviceZtpPassword'', ''loginOauth2'', ''logout'', ''recoverPassword'',
    ''sendSdkInviteEmail'', ''sendSdkInviteSms'', ''twoFactor'', ''verifyAdminInvite'',
    ''verifyRecoverPassword'', ''verifyRegistration'', ''verifyTwoFactor'']"

definition DIAGNOSTIC_EXECUTE_OPERATIONS :: "string list" where
  "DIAGNOSTIC_EXECUTE_OPERATIONS = [
    ''arpFromDevice'', ''cableTestFromSwitch'', ''initiateSiteAnalyzeSpectrum'', ''lookup'',
    ''monitorSiteDeviceTraffic'', ''pingFromDevice'', ''pingOrgWebhook'', ''pingSiteWebhook'',
    ''pollSiteSwitchStats'', ''runSiteSrxTopCommand'', ''servicePingFromSsr'',
    ''showSiteDeviceArpTable'', ''showSiteDeviceBgpSummary'', ''showSiteDeviceDhcpLeases'',
    ''showSiteDeviceDot1xTable'', ''showSiteDeviceEvpnDatabase'',
    ''showSiteDeviceForwardingTable'', ''showSiteDeviceMacTable'',
    ''showSiteGatewayOspfDatabase'', ''showSiteGatewayOspfInterfaces'',
    ''showSiteGatewayOspfNeighbors'', ''showSiteGatewayOspfSummary'',
    ''showSiteSsrAndSrxRoutes'', ''showSiteSsrAndSrxSessions'', ''showSiteSsrServicePath'',
    ''startInstallerLocateDevice'', ''startSiteLocateDevice'',
    ''startSiteSwitchRadiusSyntheticTest'', ''stopInstallerLocateDevice'',
    ''stopSiteLocateDevice'', ''testOrgCradlepointConnection'', ''testSiteSsrDnsResolution'',
    ''testSiteWlanSmsGlobal'', ''testSiteWlanTelstraSetup'', ''testSiteWlanTwilioSetup'',
    ''tracerouteFromDevice'', ''triggerSiteDeviceSyntheticTest'', ''triggerSiteSyntheticTest'',
    ''validateOrgIdpCredential'', ''verifyOrgCustomBucket'']"

definition GATED_EXECUTE_OPERATIONS :: "string list" where
  "GATED_EXECUTE_OPERATIONS = [
    ''UploadOrgTicketAttachment'', ''addInstallerDeviceImage'', ''addOrgInventory'',
    ''addOrgMxEdgeImage'', ''addOrgTicketComment'', ''addSiteDeviceImage'',
    ''addSiteMapImage'', ''bounceDevicePort'', ''bounceOrgMxEdgeDataPorts'',
    ''cancelOrgDeviceUpgrade'', ''cancelOrgMxEdgeUpgrade'', ''cancelOrgSsrUpgrade'',
    ''cancelSiteDeviceUpgrade'', ''cancelSiteMxEdgeUpgrade'', ''claimInstallerDevices'',
    ''claimMspLicense'', ''claimOrgLicense'', ''claimOrgMxEdge'',
    ''clearAllLearnedMacsFromPortOnSwitch'', ''clearBpduErrorsFromPortsOnSwitch'',
    ''clearOrgCertificates'', ''clearSiteApAutoOrient'', ''clearSiteApAutoplacement'',
    ''clearSiteAutoMapAssignment'', ''clearSiteDeviceDot1xSession'',
    ''clearSiteDeviceMacTable'', ''clearSiteDevicePendingVersion'',
    ''clearSiteDevicePolicyHitCount'', ''clearSiteDeviceSession'',
    ''clearSiteMultipleDevicePendingVersion'', ''clearSiteSsrArpCache'',
    ''clearSiteSsrBgpRoutes'', ''controlOrgMxEdgeServices'', ''createOrUpdateInstallerSites'',
    ''deauthSiteWirelessClientsConnectedToARogue'', ''disconnectOrgMxEdgeTuntermAps'',
    ''disconnectSiteMultipleClients'', ''disconnectSiteWirelessClient'',
    ''enableOrgE911Report'', ''enableSiteDeviceZigbeeJoin'', ''importInstallerMap'',
    ''importOrgAssets'', ''importOrgMapToSite'', ''importOrgMaps'', ''importOrgNacCrl'',
    ''importOrgPsks'', ''importOrgUserMacs'', ''importSiteAssets'', ''importSiteDevices'',
    ''importSiteMaps'', ''importSitePsks'', ''importSiteWayfindings'',
    ''kickSiteDeviceZigbeeClients'', ''login'', ''manageMspOrgs'',
    ''moveOrDeleteMspLicenseToAnotherOrg'', ''moveOrDeleteOrgLicenseToAnotherOrg'',
    ''optimizeInstallerRrm'', ''optimizeSiteRrm'', ''preemptSitesMxTunnel'',
    ''readoptSiteOctermDevice'', ''reauthOrgDot1xWiredClient'',
    ''reauthOrgDot1xWirelessClient'', ''reauthSiteDot1xWiredClient'',
    ''reauthSiteDot1xWirelessClient'', ''rebootOrgOtherDevice'',
    ''reevaluateOrgAutoAssignment'', ''rejoinSiteIotEndpointZigbee'',
    ''releaseSiteDeviceDhcpLease'', ''releaseSiteSsrDhcpLease'', ''reprovisionSiteAllDevices'',
    ''reprovisionSiteOctermDevice'', ''resetSiteAllApsToUseRrm'', ''resetSiteMlStatsByMap'',
    ''restartOrgMxEdge'', ''restartSiteDevice'', ''restartSiteMultipleDevices'',
    ''restoreSiteDeviceBackupVersion'', ''restoreSiteMultipleDeviceBackupVersion'',
    ''runSiteApAutoplacement'', ''sendOrgNacClientCoA'', ''sendSiteDevicesArbitraryBleBeacon'',
    ''sendSiteNacClientCoA'', ''startOrgPacketCapture'', ''startSiteApAutoOrientation'',
    ''startSiteAutoMapAssignment'', ''startSiteDeviceZigbeeEventTrail'',
    ''startSiteDeviceZigbeePacketTrail'', ''startSiteFlowCapture'',
    ''startSiteMapAutoGeofence'', ''startSiteMapAutoZone'', ''startSiteMapsAutoGeofence'',
    ''startSitePacketCapture'', ''startSiteRecording'', ''stopSiteRfdiagRecording'',
    ''syncOrgCradlepointRouters'', ''toogleSiteDeviceVcRoutingEnginesRole'', ''upgradeDevice'',
    ''upgradeDeviceBios'', ''upgradeDeviceFPGA'', ''upgradeOrgDevices'',
    ''upgradeOrgJsiDevice'', ''upgradeOrgMxEdges'', ''upgradeOrgSsrs'', ''upgradeSiteDevices'',
    ''upgradeSiteDevicesBios'', ''upgradeSiteDevicesFpga'', ''upgradeSiteMxEdges'',
    ''upgradeSsr'', ''uploadOrgMxEdgeSupportFiles'', ''uploadOrgNacPortalImage'',
    ''uploadOrgPskPortalImage'', ''uploadOrgWlanPortalImage'', ''uploadSiteDeviceSupportFile'',
    ''uploadSiteMxEdgeSupportFiles'', ''uploadSiteWlanPortalImage'']"

definition execute_class :: "string \<Rightarrow> execute_class_of" where
  "execute_class operation_id =
     (if operation_id \<in> set EXCLUDED_EXECUTE_OPERATIONS then Excluded
      else if operation_id \<in> set DIAGNOSTIC_EXECUTE_OPERATIONS then Diagnostic
      else Gated)"

section \<open>The lists\<close>

text \<open>\<open>merge_strict\<close> is the strictly increasing merge of two lists, when there is one.\<close>

fun merge_lists :: "('a::linorder) list \<Rightarrow> 'a list \<Rightarrow> 'a list" where
  "merge_lists [] ys = ys"
| "merge_lists xs [] = xs"
| "merge_lists (x # xs) (y # ys) =
     (if x < y then x # merge_lists xs (y # ys) else y # merge_lists (x # xs) ys)"

fun strictly_increasing :: "('a::linorder) list \<Rightarrow> bool" where
  "strictly_increasing (x # y # zs) = (x < y \<and> strictly_increasing (y # zs))"
| "strictly_increasing _ = True"

lemma mset_merge_lists: "mset (merge_lists xs ys) = mset xs + mset ys"
  by (induction xs ys rule: merge_lists.induct) auto

lemma strictly_increasing_distinct: "strictly_increasing xs \<Longrightarrow> distinct xs"
proof -
  have "strictly_increasing xs \<Longrightarrow> sorted_wrt (<) xs"
    by (induction xs rule: strictly_increasing.induct) force+
  then show "strictly_increasing xs \<Longrightarrow> distinct xs"
    by (simp add: strict_sorted_iff)
qed

lemma merged_distinct:
  assumes "strictly_increasing (merge_lists xs (merge_lists ys zs))"
  shows "distinct (xs @ ys @ zs)"
proof -
  have "mset (xs @ ys @ zs) = mset (merge_lists xs (merge_lists ys zs))"
    by (simp add: mset_merge_lists)
  with strictly_increasing_distinct [OF assms] show ?thesis
    by (metis mset_eq_imp_distinct_iff)
qed

lemma execute_lists_distinct:
  "distinct (EXCLUDED_EXECUTE_OPERATIONS @ DIAGNOSTIC_EXECUTE_OPERATIONS @ GATED_EXECUTE_OPERATIONS)"
  by (rule merged_distinct) code_simp

lemma execute_lists_length:
  "length (EXCLUDED_EXECUTE_OPERATIONS @ DIAGNOSTIC_EXECUTE_OPERATIONS @ GATED_EXECUTE_OPERATIONS) = 169"
  by code_simp

text \<open>The classification is a partition: the three lists hold 169 operations without repetition,
  the classifier gives each the class of its list, and everything else is gated, so that an
  operation the catalog gains later is never reachable without approval.\<close>

theorem execute_classes_partition:
  "(execute_class i = Excluded \<longleftrightarrow> i \<in> set EXCLUDED_EXECUTE_OPERATIONS) \<and>
   (execute_class i = Diagnostic \<longleftrightarrow> i \<in> set DIAGNOSTIC_EXECUTE_OPERATIONS) \<and>
   set GATED_EXECUTE_OPERATIONS \<subseteq> {i. execute_class i = Gated} \<and>
   length (EXCLUDED_EXECUTE_OPERATIONS @ DIAGNOSTIC_EXECUTE_OPERATIONS @ GATED_EXECUTE_OPERATIONS) = 169 \<and>
   distinct (EXCLUDED_EXECUTE_OPERATIONS @ DIAGNOSTIC_EXECUTE_OPERATIONS @ GATED_EXECUTE_OPERATIONS)"
  using execute_lists_distinct execute_lists_length by (auto simp: execute_class_def)

end
