(* ===== verification/Concurrent.thy ===== *)
theory Concurrent
  imports Server
begin

text \<open>
  The server with calls in progress at the same time. The runtime may interrupt a handler between
  any two of its steps, so what the server does is an interleaving of the steps of the calls that
  are under way; a call may also be dropped for good at any point (its client went away), and the
  site table may be replaced between calls.
\<close>

section \<open>Calls in progress\<close>

text \<open>A call under way: the change set it applies, if it is an apply, and what is left of it.\<close>

type_synonym ('s, 'c) progress = "string option \<times> ('s, 'c, unit) act"

definition with_sites :: "(string, string) btree \<Rightarrow> ('v, 's, 'c) change_env \<Rightarrow> ('v, 's, 'c) change_env" where
  "with_sites sites env =
     env\<lparr>ce_server := (ce_server env)\<lparr>sv_handler := (sv_handler (ce_server env))\<lparr>h_sites := sites\<rparr>\<rparr>\<rparr>"

text \<open>A dropped call releases the device guard if it held one; which one is left open.\<close>

definition released :: "('v, 's, 'c) change_env \<Rightarrow> ('s, 'c) world \<Rightarrow> ('s, 'c) world \<Rightarrow> bool" where
  "released env w w' \<longleftrightarrow>
     w' = w \<or> (\<exists>device. w' = w\<lparr>w_outside := co_release (ce_coordinator env) device (w_outside w)\<rparr>)"

text \<open>
  \<open>interleaved env admits others w0 ids w ts\<close>: from \<open>w0\<close> some calls that \<open>admits\<close> admits, in some
  interleaving of their steps, lead to the world \<open>w\<close> with \<open>ts\<close> of them under way, and the writes were
  made, in this order, by calls that apply the change sets \<open>ids\<close>. Besides the calls the refresh of the
  sites uses the client; \<open>others\<close> says how.
\<close>

inductive interleaved ::
  "('v, 's, 'c) change_env \<Rightarrow> (server_call \<Rightarrow> bool) \<Rightarrow> ('c \<Rightarrow> 'c \<Rightarrow> bool) \<Rightarrow> ('s, 'c) world \<Rightarrow> string option list
    \<Rightarrow> ('s, 'c) world \<Rightarrow> ('s, 'c) progress list \<Rightarrow> bool" for env admits others w0 where
  call_start: "interleaved env admits others w0 [] w0 []"
| call_arrives: "interleaved env admits others w0 ids w ts \<Longrightarrow> admits call \<Longrightarrow>
    interleaved env admits others w0 ids w (ts @ [(served_id call, server_task (with_sites sites env) call)])"
| call_steps: "interleaved env admits others w0 ids w ts \<Longrightarrow> k < length ts \<Longrightarrow> ts ! k = (i, Step g) \<Longrightarrow> g w = (w', t) \<Longrightarrow>
    interleaved env admits others w0 (ids @ replicate (new_writes w w') i) w' (ts[k := (i, t)])"
| call_dropped: "interleaved env admits others w0 ids w ts \<Longrightarrow> k < length ts \<Longrightarrow> released env w w' \<Longrightarrow>
    interleaved env admits others w0 ids w' (ts[k := (fst (ts ! k), Done (Inr ()))])"
| client_used: "interleaved env admits others w0 ids w ts \<Longrightarrow> others (w_client w) c \<Longrightarrow>
    interleaved env admits others w0 ids (w\<lparr>w_client := c\<rparr>) ts"

section \<open>The invariant\<close>

text \<open>A call that claimed its change set and has not written it yet.\<close>

definition holds_claim :: "(string \<Rightarrow> 's \<Rightarrow> bool) \<Rightarrow> string option list \<Rightarrow> ('s, 'c) world \<Rightarrow> ('s, 'c) progress \<Rightarrow> bool" where
  "holds_claim spent ids w p \<longleftrightarrow>
     (\<exists>j. fst p = Some j \<and> armed spent (snd p) \<and> spent j (w_outside w) \<and> Some j \<notin> set ids)"

text \<open>\<open>A\<close> are the positions of the calls that hold a claim; no two of them hold the same.\<close>

definition claims_ok ::
  "(string \<Rightarrow> 's \<Rightarrow> bool) \<Rightarrow> string option list \<Rightarrow> ('s, 'c) world \<Rightarrow> ('s, 'c) progress list \<Rightarrow> nat set \<Rightarrow> bool" where
  "claims_ok spent ids w ts A \<longleftrightarrow>
     (\<forall>k < length ts. if k \<in> A then holds_claim spent ids w (ts ! k)
        else disciplined spent (fst (ts ! k)) (snd (ts ! k))) \<and>
     A \<subseteq> {..<length ts} \<and> inj_on (\<lambda>k. fst (ts ! k)) A"

definition writes_ok ::
  "(string \<Rightarrow> 's \<Rightarrow> bool) \<Rightarrow> ('s, 'c) world \<Rightarrow> string option list \<Rightarrow> ('s, 'c) world \<Rightarrow> bool" where
  "writes_ok spent w0 ids w \<longleftrightarrow> distinct ids \<and> list_all (\<lambda>x. \<exists>i. x = Some i \<and> spent i (w_outside w)) ids \<and>
     length (writes_in (w_events w)) = length (writes_in (w_events w0)) + length ids"

lemma policy_with_sites: "transition_policy (with_sites sites env) = transition_policy env"
  by (rule ext) (simp add: transition_policy_def with_sites_def)

lemma disciplined_done: "disciplined spent i (Done (Inr ()))"
  by (auto simp: disciplined_def intro: steps.intros claiming.intros split: option.split)

lemma disciplined_idle: "steps (idle_step spent) (\<lambda>_. True) m \<Longrightarrow> disciplined spent i m"
  by (auto simp: disciplined_def intro: claiming_idle split: option.split)

lemma holds_claim_kept: "holds_claim spent ids w p \<Longrightarrow> kept spent w w' \<Longrightarrow> holds_claim spent ids w' p"
  by (auto simp: holds_claim_def kept_def)

lemma writes_ok_silent: "writes_ok spent w0 ids w \<Longrightarrow> kept spent w w' \<Longrightarrow> silent w w' \<Longrightarrow> writes_ok spent w0 ids w'"
  by (auto simp: writes_ok_def kept_def silent_def list_all_iff)

text \<open>A step of a call that does not write, and leaves it as it was or with a claim of its own.\<close>

lemma claims_ok_same:
  assumes "claims_ok spent ids w ts A" "k < length ts" "kept spent w w'" "fst (ts ! k) = i"
    and "if k \<in> A then holds_claim spent ids w' (i, t) else disciplined spent i t"
  shows "claims_ok spent ids w' (ts[k := (i, t)]) A"
proof -
  have "inj_on (\<lambda>j. fst (ts[k := (i, t)] ! j)) A"
    using assms(1,2,4) unfolding claims_ok_def inj_on_def by (auto simp: nth_list_update)
  moreover have "if j \<in> A then holds_claim spent ids w' (ts[k := (i, t)] ! j)
      else disciplined spent (fst (ts[k := (i, t)] ! j)) (snd (ts[k := (i, t)] ! j))" if "j < length ts" for j
    using assms that holds_claim_kept [OF _ assms(3)]
    by (cases "j = k") (simp_all add: claims_ok_def)
  ultimately show ?thesis using assms(1) by (simp add: claims_ok_def)
qed

lemma claims_ok_claim:
  assumes "claims_ok spent ids w ts A" "writes_ok spent w0 ids w" "k < length ts" "k \<notin> A" "kept spent w w'"
    and "fst (ts ! k) = Some j" "spends spent j w w'" "armed spent t"
  shows "claims_ok spent ids w' (ts[k := (Some j, t)]) (insert k A)"
proof -
  have new: "\<not> spent j (w_outside w)" "spent j (w_outside w')" using assms(7) by (simp_all add: spends_def)
  then have unwritten: "Some j \<notin> set ids" using assms(2) by (auto simp: writes_ok_def list_all_iff)
  have other: "fst (ts ! a) \<noteq> Some j" if "a \<in> A" for a
    using assms(1) that new(1) unfolding claims_ok_def holds_claim_def by (metis lessThan_iff option.inject subsetD)
  have "inj_on (\<lambda>a. fst (ts[k := (Some j, t)] ! a)) (insert k A)"
    using assms(1,3,4) other unfolding claims_ok_def inj_on_def
    by (auto simp: nth_list_update) (metis)+
  moreover have "if a \<in> insert k A then holds_claim spent ids w' (ts[k := (Some j, t)] ! a)
      else disciplined spent (fst (ts[k := (Some j, t)] ! a)) (snd (ts[k := (Some j, t)] ! a))" if "a < length ts" for a
    using assms that holds_claim_kept [OF _ assms(5)] unwritten new(2)
    by (cases "a = k") (simp_all add: claims_ok_def, simp add: holds_claim_def)
  ultimately show ?thesis using assms(1,3) by (simp add: claims_ok_def)
qed

text \<open>The write of a call that holds a claim.\<close>

lemma claims_ok_write:
  assumes "claims_ok spent ids w ts A" "writes_ok spent w0 ids w" "k < length ts" "k \<in> A" "kept spent w w'"
    and "fst (ts ! k) = Some j" "one_write w w'" "steps (idle_step spent) (\<lambda>_. True) t"
  shows "claims_ok spent (ids @ [Some j]) w' (ts[k := (Some j, t)]) (A - {k}) \<and> writes_ok spent w0 (ids @ [Some j]) w'"
proof -
  have hc: "holds_claim spent ids w (ts ! k)" using assms(1,3,4) by (simp add: claims_ok_def)
  have other: "fst (ts ! a) \<noteq> Some j" if "a \<in> A" "a \<noteq> k" for a
    using assms(1,4,6) that unfolding claims_ok_def by (metis inj_onD)
  have "inj_on (\<lambda>a. fst (ts[k := (Some j, t)] ! a)) (A - {k})"
    using assms(1,3) unfolding claims_ok_def inj_on_def by (auto simp: nth_list_update)
  moreover have "if a \<in> A - {k} then holds_claim spent (ids @ [Some j]) w' (ts[k := (Some j, t)] ! a)
      else disciplined spent (fst (ts[k := (Some j, t)] ! a)) (snd (ts[k := (Some j, t)] ! a))" if a: "a < length ts" for a
  proof (cases "a = k")
    case True
    with assms(3,8) show ?thesis by (simp add: disciplined_idle)
  next
    case False
    have "holds_claim spent (ids @ [Some j]) w' (ts ! a)" if "a \<in> A"
    proof -
      have "holds_claim spent ids w' (ts ! a)"
        using assms(1) a that holds_claim_kept [OF _ assms(5)] by (simp add: claims_ok_def)
      with other [OF that False] show ?thesis by (auto simp: holds_claim_def)
    qed
    with False a assms(1) show ?thesis by (simp add: claims_ok_def)
  qed
  ultimately have "claims_ok spent (ids @ [Some j]) w' (ts[k := (Some j, t)]) (A - {k})"
    using assms(1) unfolding claims_ok_def by (simp only: length_list_update) blast
  moreover have "writes_ok spent w0 (ids @ [Some j]) w'"
    using assms(2,5,6,7) hc by (auto simp: writes_ok_def holds_claim_def kept_def one_write_def list_all_iff)
  ultimately show ?thesis ..
qed

lemma claims_ok_kept:
  assumes "claims_ok spent ids w ts A" and "kept spent w w'"
  shows "claims_ok spent ids w' ts A"
proof -
  have "if k \<in> A then holds_claim spent ids w' (ts ! k) else disciplined spent (fst (ts ! k)) (snd (ts ! k))"
    if "k < length ts" for k
    using assms that holds_claim_kept [OF _ assms(2)] unfolding claims_ok_def by (auto split: if_split_asm)
  with assms(1) show ?thesis unfolding claims_ok_def by blast
qed

lemma interleaved_ok:
  assumes "interleaved env admits others w0 ids w ts" and pol: "transition_policy env spent"
  shows "writes_ok spent w0 ids w \<and> (\<exists>A. claims_ok spent ids w ts A)"
  using assms(1)
proof induction
  case call_start
  then show ?case by (auto simp: writes_ok_def claims_ok_def)
next
  case (call_arrives ids w ts call sites)
  then obtain A where "writes_ok spent w0 ids w" and A: "claims_ok spent ids w ts A" by blast
  moreover have "disciplined spent (served_id call) (server_task (with_sites sites env) call)"
    by (rule server_task_disciplined) (simp add: policy_with_sites pol)
  moreover from A have "k < length ts" if "k \<in> A" for k using that by (auto simp: claims_ok_def)
  ultimately have "claims_ok spent ids w (ts @ [(served_id call, server_task (with_sites sites env) call)]) A"
    unfolding claims_ok_def inj_on_def by (auto simp: nth_append less_Suc_eq)
  with \<open>writes_ok spent w0 ids w\<close> show ?case by blast
next
  case (call_steps ids w ts k i g w' t)
  then obtain A where wr: "writes_ok spent w0 ids w" and A: "claims_ok spent ids w ts A" by blast
  have g: "fst (g w) = w'" "snd (g w) = t" "fst (ts ! k) = i" "snd (ts ! k) = Step g"
    using call_steps.hyps by simp_all
  note same = claims_ok_same [OF A call_steps.hyps(2) _ g(3), of w' t]
  show ?case
  proof (cases "k \<in> A")
    case True
    then have "holds_claim spent ids w (ts ! k)" using A call_steps.hyps(2) unfolding claims_ok_def by metis
    then obtain j where j: "i = Some j" "armed spent (Step g)" "spent j (w_outside w)" "Some j \<notin> set ids"
      using g unfolding holds_claim_def by metis
    from armed_StepE [OF j(2)] g have "kept spent w w'" and "silent w w' \<and> armed spent t \<or>
        one_write w w' \<and> steps (idle_step spent) (\<lambda>_. True) t" by metis+
    then show ?thesis
    proof (elim disjE conjE)
      assume *: "kept spent w w'" "silent w w'" "armed spent t"
      with j have "holds_claim spent ids w' (i, t)" by (auto simp: holds_claim_def kept_def)
      with same * True wr show ?thesis
        by (auto simp: new_writes_def silent_def intro: writes_ok_silent)
    next
      assume *: "kept spent w w'" "one_write w w'" "steps (idle_step spent) (\<lambda>_. True) t"
      from claims_ok_write [OF A wr call_steps.hyps(2) True *(1) _ *(2,3)] g(3) j(1) *(2) show ?thesis
        by (auto simp: new_writes_def one_write_def)
    qed
  next
    case False
    then have d: "disciplined spent i (Step g)" using A call_steps.hyps(2) g unfolding claims_ok_def by metis
    show ?thesis
    proof (cases i)
      case None
      with d have "steps (idle_step spent) (\<lambda>_. True) (Step g)" by (simp add: disciplined_def)
      from steps_StepE [OF this] g have "kept spent w w'" "silent w w'" "disciplined spent i t"
        by (auto simp: idle_step_def intro: disciplined_idle)
      with same False wr show ?thesis by (auto simp: new_writes_def silent_def intro: writes_ok_silent)
    next
      case (Some j)
      with d have "claiming spent j (Step g)" by (simp add: disciplined_def)
      from claiming_StepE [OF this] g have *: "kept spent w w'" "silent w w'"
        and cases: "claiming spent j t \<or> spends spent j w w' \<and> armed spent t" by metis+
      from cases have "\<exists>B. claims_ok spent ids w' (ts[k := (i, t)]) B"
      proof (elim disjE conjE)
        assume "claiming spent j t"
        with same False *(1) Some show ?thesis by (auto simp: disciplined_def)
      next
        assume "spends spent j w w'" "armed spent t"
        with claims_ok_claim [OF A wr call_steps.hyps(2) False *(1)] g(3) Some show ?thesis by metis
      qed
      with * wr show ?thesis by (auto simp: new_writes_def silent_def intro: writes_ok_silent)
    qed
  qed
next
  case (call_dropped ids w ts k w')
  then obtain A where wr: "writes_ok spent w0 ids w" and A: "claims_ok spent ids w ts A" by blast
  have *: "kept spent w w'" "silent w w'"
    using call_dropped.hyps(3) transition_policyD(4) [OF pol]
    by (auto simp: released_def kept_def silent_def keeps_spent_def)
  have "claims_ok spent ids w (ts[k := (fst (ts ! k), Done (Inr ()))]) (A - {k})"
    using A call_dropped.hyps(2) unfolding claims_ok_def inj_on_def
    by (auto simp: nth_list_update disciplined_done split: if_splits)
  with * wr show ?case by (meson claims_ok_kept writes_ok_silent)
next
  case (client_used ids w ts c)
  then obtain A where wr: "writes_ok spent w0 ids w" and A: "claims_ok spent ids w ts A" by blast
  have "kept spent w (w\<lparr>w_client := c\<rparr>)" "silent w (w\<lparr>w_client := c\<rparr>)" by (simp_all add: kept_def silent_def)
  with wr A show ?case by (meson claims_ok_kept writes_ok_silent)
qed

text \<open>C1: A change set is written at most once, however many calls are in progress. Whatever tools are
  called by whatever callers, however their steps interleave, whichever of them are dropped midway, and
  whenever the site table changes: every write was made by an apply, and no two writes apply the same change set,
  under a coordinator that keeps to the transition policy the code relies on.\<close>

theorem written_once_interleaved:
  assumes "transition_policy env spent" and "interleaved env admits others w0 ids w ts"
  shows "distinct ids \<and> None \<notin> set ids \<and>
    length (writes_in (w_events w)) = length (writes_in (w_events w0)) + length ids"
  using interleaved_ok [OF assms(2,1)] by (auto simp: writes_ok_def list_all_iff)

section \<open>What every step keeps\<close>

lemma interleaved_steps:
  assumes "interleaved env admits others w0 ids w ts" and "R w0 w0" and "\<And>w1 w2 w3. R w1 w2 \<Longrightarrow> R w2 w3 \<Longrightarrow> R w1 w3"
    and "\<And>sites call. admits call \<Longrightarrow> steps R (\<lambda>_. True) (server_task (with_sites sites env) call)"
    and "\<And>w1 w2. released env w1 w2 \<Longrightarrow> R w1 w2" and "\<And>w1 c. others (w_client w1) c \<Longrightarrow> R w1 (w1\<lparr>w_client := c\<rparr>)"
  shows "R w0 w \<and> list_all (\<lambda>p. steps R (\<lambda>_. True) (snd p)) ts"
  using assms(1)
proof induction
  case (call_arrives ids w ts call sites)
  then show ?case using assms(4) by simp
next
  case (call_steps ids w ts k i g w' t)
  then have "steps R (\<lambda>_. True) (Step g)" by (metis list_all_length snd_conv)
  from steps_StepE [OF this] call_steps.hyps(4) have "R w w'" "steps R (\<lambda>_. True) t" by (metis fst_conv snd_conv)+
  moreover have "set (ts[k := (i, t)]) \<subseteq> insert (i, t) (set ts)" by (rule set_update_subset_insert)
  ultimately show ?case using call_steps.IH assms(3) by (fastforce simp: list_all_iff)
next
  case (call_dropped ids w ts k w')
  have "set (ts[k := (fst (ts ! k), Done (Inr ()))]) \<subseteq> insert (fst (ts ! k), Done (Inr ())) (set ts)"
    by (rule set_update_subset_insert)
  then have "p = (fst (ts ! k), Done (Inr ())) \<or> p \<in> set ts" if "p \<in> set (ts[k := (fst (ts ! k), Done (Inr ()))])" for p
    using that by blast
  with call_dropped.IH assms(3) [OF _ assms(5)] call_dropped.hyps(3) show ?case
    unfolding list_all_iff by (metis snd_conv steps_value)
next
  case (client_used ids w ts c)
  then show ?case using assms(3) [OF _ assms(6)] by blast
qed (use assms(2) in simp)

section \<open>A part of a call without interruption\<close>

text \<open>A context passes the steps of what is inside on.\<close>

definition step_context :: "(('s, 'c, 'a) act \<Rightarrow> ('s, 'c, unit) act) \<Rightarrow> bool" where
  "step_context C \<longleftrightarrow> (\<forall>g. C (Step g) = Step (\<lambda>w. map_prod id C (g w)))"

lemma step_context_bind: "step_context (\<lambda>m. bind_act m f)"
  by (simp add: step_context_def)

lemma step_context_comp:
  assumes "step_context C"
  shows "step_context (\<lambda>m. C (bind_act m f))" "step_context (\<lambda>m. C (finally_do m h))"
  using assms by (simp_all add: step_context_def prod.map_comp comp_def id_def)

lemma interleaved_part:
  assumes "step_context C" and "steps (idle_step spent) P m"
    and "interleaved env admits others w0 ids w ts" "k < length ts" "ts ! k = (i, C m)" and "run m w = (w', r)"
  shows "interleaved env admits others w0 ids w' (ts[k := (i, C (Done r))])"
  using assms(2,3,4,5,6)
proof (induction arbitrary: w ts)
  case (steps_step g)
  have C: "C (Step g) = Step (\<lambda>w. map_prod id C (g w))" using assms(1) by (simp add: step_context_def)
  have idle: "idle_step spent w (fst (g w))" using steps_step.IH by blast
  have "interleaved env admits others w0 (ids @ replicate (new_writes w (fst (g w))) i) (fst (g w)) (ts[k := (i, C (snd (g w)))])"
    by (rule call_steps [OF steps_step.prems(1,2)]) (use steps_step.prems(3) C in \<open>auto simp: map_prod_def split: prod.split\<close>)
  then have "interleaved env admits others w0 ids (fst (g w)) (ts[k := (i, C (snd (g w)))])"
    using idle by (simp add: new_writes_def idle_step_def silent_def)
  moreover have "run (snd (g w)) (fst (g w)) = (w', r)" using steps_step.prems(4) by (simp only: run_Step)
  moreover have IH: "interleaved env admits others w0 ids w1 ts1 \<Longrightarrow> k < length ts1 \<Longrightarrow> ts1 ! k = (i, C (snd (g w))) \<Longrightarrow>
      run (snd (g w)) w1 = (w', r) \<Longrightarrow> interleaved env admits others w0 ids w' (ts1[k := (i, C (Done r))])" for w1 ts1
    using steps_step.IH by blast
  ultimately show ?case
    using IH [of "fst (g w)" "ts[k := (i, C (snd (g w)))]"] steps_step.prems(2) by simp
qed (metis Pair_inject list_update_id run.simps(1))+

section \<open>Whole calls\<close>

text \<open>A call may also run without interruption, as \<open>serve\<close> does.\<close>

definition grows :: "('s, 'c) world \<Rightarrow> ('s, 'c) world \<Rightarrow> bool" where
  "grows w w' \<longleftrightarrow> (\<exists>evs. w_events w' = w_events w @ evs)"

lemma grows_refl: "grows w w" by (simp add: grows_def)

lemma grows_trans: "grows w w' \<Longrightarrow> grows w' w'' \<Longrightarrow> grows w w''" by (auto simp: grows_def)

lemma new_writes_grows: "grows w w' \<Longrightarrow> grows w' w'' \<Longrightarrow> new_writes w w'' = new_writes w w' + new_writes w' w''"
  by (auto simp: grows_def new_writes_def)

lemma grows_run: "steps grows P m \<Longrightarrow> grows w (fst (run m w))"
proof (induction arbitrary: w rule: steps.induct)
  case (steps_step g)
  then have "grows w (fst (g w))" "grows (fst (g w)) (fst (run (snd (g w)) (fst (g w))))" by blast+
  then have "grows w (fst (run (snd (g w)) (fst (g w))))" by (rule grows_trans)
  then show ?case by (simp only: run_Step)
qed (simp_all add: grows_refl)

lemma grows_ops: "handler_ops own uses grows env"
  unfolding handler_ops_def Let_def
  by (auto intro!: steps_outside steps.intros simp: grows_def dispatch_act_def Let_def reading_def split: option.split)

lemma grows_task: "steps grows (\<lambda>_. True) (server_task env call)"
proof (cases call)
  case (ChangeTool c)
  have "steps grows (\<lambda>_. True) (client_act env r p)" for r p
    unfolding client_act_def by (auto intro!: steps.intros simp: grows_def split_beta)
  from steps_run_call [OF grows_ops [of "\<lambda>_. True" "\<lambda>_. True"] this] ChangeTool show ?thesis
    by (auto intro!: steps_then steps_ret simp: option.pred_True)
qed (auto simp: steps_ret Let_def grows_def intro!: steps.intros)

lemma interleaved_whole:
  assumes "steps grows P m" and "interleaved env admits others w0 ids w ts" "k < length ts" "ts ! k = (i, m)" and "run m w = (w', r)"
  shows "interleaved env admits others w0 (ids @ replicate (new_writes w w') i) w' (ts[k := (i, Done r)])"
  using assms
proof (induction arbitrary: ids w ts)
  case (steps_step g)
  let ?w = "fst (g w)" and ?t = "snd (g w)"
  have "interleaved env admits others w0 (ids @ replicate (new_writes w ?w) i) ?w (ts[k := (i, ?t)])"
    using call_steps [OF steps_step.prems(1,2,3)] by simp
  moreover have "run ?t ?w = (w', r)" using steps_step.prems(4) by (simp only: run_Step)
  moreover have IH: "interleaved env admits others w0 ids1 w1 ts1 \<Longrightarrow> k < length ts1 \<Longrightarrow> ts1 ! k = (i, ?t) \<Longrightarrow> run ?t w1 = (w', r) \<Longrightarrow>
      interleaved env admits others w0 (ids1 @ replicate (new_writes w1 w') i) w' (ts1[k := (i, Done r)])" for ids1 w1 ts1
    using steps_step.IH by blast
  ultimately have "interleaved env admits others w0 ((ids @ replicate (new_writes w ?w) i) @ replicate (new_writes ?w w') i) w'
      ((ts[k := (i, ?t)])[k := (i, Done r)])"
    using IH [of "ids @ replicate (new_writes w ?w) i" ?w "ts[k := (i, ?t)]"] steps_step.prems(2) by simp
  moreover have "grows w ?w" "grows ?w w'"
    using steps_step.IH grows_run [of P ?t ?w] \<open>run ?t ?w = (w', r)\<close> by (simp_all del: run.simps)
  ultimately show ?case by (simp add: new_writes_grows replicate_add)
qed (simp_all add: new_writes_def, metis list_update_id, metis list_update_id)

lemma interleaved_call:
  assumes "interleaved env admits others w0 ids w ts" and "admits call" and "w' = serve env call w"
  shows "\<exists>ts'. interleaved env admits others w0 (ids @ replicate (new_writes w w') (served_id call)) w' ts'"
proof -
  have "with_sites (h_sites (sv_handler (ce_server env))) env = env" by (simp add: with_sites_def)
  with call_arrives [OF assms(1,2)]
  have arrived: "interleaved env admits others w0 ids w (ts @ [(served_id call, server_task env call)])" by metis
  have "run (server_task env call) w = (w', snd (run (server_task env call) w))"
    using assms(3) by (simp add: serve_def)
  from interleaved_whole [OF grows_task arrived _ _ this, of "length ts"] show ?thesis by auto
qed

section \<open>Witness: a race\<close>

text \<open>
  Two applies of one change set, both under way: each finds it approved before either claims it. The
  first claims, writes and settles; the claim of the second is refused.
\<close>

definition race_task :: "(lab_state, unit, unit) act" where
  "race_task = server_task lab_env (ChangeTool (CallApply None lab_apply))"

definition race_guarded :: "(lab_state, unit, json) act \<Rightarrow> (lab_state, unit, unit) act" where
  "race_guarded m = bind_act (finally_do m (outside (\<lambda>s. (co_release (ce_coordinator lab_env)
     (object_key ObjNetwork None) s, ())) [])) (\<lambda>_. ret ())"

lemma race_guarded_context: "step_context race_guarded"
  unfolding race_guarded_def [abs_def] by (rule step_context_comp(2) [OF step_context_bind])

lemma race_task_guard:
  "\<exists>g. race_task = Step g \<and> g w = (w, race_guarded (bind_act (apply_prepare lab_env None lab_apply) (apply_commit lab_env None lab_apply)))"
proof -
  have "co_guard (ce_coordinator lab_env) d s = (s, Inr ())" for d s by (simp add: bench_env_def lab_coordinator_def)
  then show ?thesis
    by (simp add: race_task_def apply_mist_change_set_def device_guarded_def Let_def outside_def race_guarded_def
        or_refuse_def ret_def) (simp add: lab_apply_def)
qed

lemma part_of_two:
  assumes "step_context C" and "steps (idle_step lab_spent) P m" and "run m w = (w', r)"
  shows "interleaved env admits others w0 ids w [(i, C m), b] \<Longrightarrow> interleaved env admits others w0 ids w' [(i, C (Done r)), b]"
    and "interleaved env admits others w0 ids w [b, (i, C m)] \<Longrightarrow> interleaved env admits others w0 ids w' [b, (i, C (Done r))]"
  using interleaved_part [OF assms(1,2) _ _ _ assms(3), of env admits others w0 ids "[(i, C m), b]" 0 i]
    interleaved_part [OF assms(1,2) _ _ _ assms(3), of env admits others w0 ids "[b, (i, C m)]" "Suc 0" i] by simp_all

lemma race_arrived:
  "interleaved lab_env (\<lambda>_. True) (\<lambda>_ _. False) lab_planned [] lab_planned [(Some ''c1'', race_task), (Some ''c1'', race_task)]"
proof -
  have "with_sites (h_sites (sv_handler (ce_server lab_env))) lab_env = lab_env" by (simp add: with_sites_def)
  moreover have "served_id (ChangeTool (CallApply None lab_apply)) = Some ''c1''" by (simp add: lab_apply_def)
  ultimately have arrive: "interleaved lab_env (\<lambda>_. True) (\<lambda>_ _. False) lab_planned ids w ts \<Longrightarrow>
      interleaved lab_env (\<lambda>_. True) (\<lambda>_ _. False) lab_planned ids w (ts @ [(Some ''c1'', race_task)])" for ids w ts
    using call_arrives [of lab_env "\<lambda>_. True" "\<lambda>_ _. False" lab_planned ids w ts "ChangeTool (CallApply None lab_apply)"
      "h_sites (sv_handler (ce_server lab_env))"] by (simp add: race_task_def)
  from arrive [OF arrive [OF call_start]] show ?thesis by simp
qed

text \<open>Both are prepared, in the same world.\<close>

lemma race_prepared:
  "interleaved lab_env (\<lambda>_. True) (\<lambda>_ _. False) lab_planned [] lab_planned
     [(Some ''c1'', race_guarded (apply_commit lab_env None lab_apply lab_ready)),
      (Some ''c1'', race_guarded (apply_commit lab_env None lab_apply lab_ready))]"
proof -
  let ?m = "race_guarded (bind_act (apply_prepare lab_env None lab_apply) (apply_commit lab_env None lab_apply))"
  obtain g where g: "race_task = Step g" "g lab_planned = (lab_planned, ?m)" using race_task_guard by metis
  have "interleaved lab_env (\<lambda>_. True) (\<lambda>_ _. False) lab_planned [] lab_planned [(Some ''c1'', ?m), (Some ''c1'', race_task)]"
    using call_steps [where k = 0 and i = "Some ''c1''" and g = g and w = lab_planned, OF race_arrived _ _ g(2)] g(1) by (simp add: new_writes_def)
  from call_steps [where k = "Suc 0" and i = "Some ''c1''" and g = g and w = lab_planned, OF this _ _ g(2)] g(1)
  have both: "interleaved lab_env (\<lambda>_. True) (\<lambda>_ _. False) lab_planned [] lab_planned [(Some ''c1'', ?m), (Some ''c1'', ?m)]"
    by (simp add: new_writes_def)
  note part_of_two [OF step_context_comp(1) [OF race_guarded_context] idle_prepare [OF lab_policy] lab_prepare]
  from this(2) [OF this(1) [OF both]] show ?thesis by simp
qed

text \<open>The first claims and writes, and then is settled.\<close>

lemma idle_claim: "steps (idle_step lab_spent) (\<lambda>_. True) (apply_claim lab_env rec)"
  unfolding apply_claim_def by (intro steps_then policy_idle(7) [OF lab_policy]) (simp add: steps_or_refuse)

lemma steps_done: "steps R (\<lambda>_. True) (Done r)"
  by (cases r) (auto intro: steps.intros)

lemma race_release:
  "run (race_guarded (Done r)) w = (w, case r of Inl e \<Rightarrow> Inl e | Inr _ \<Rightarrow> Inr ())"
  by (simp add: race_guarded_def run_steps bench_env_def lab_coordinator_def split: sum.split)

lemma idle_release: "steps (idle_step lab_spent) (\<lambda>_. True) (race_guarded (Done r))"
  unfolding race_guarded_def finally_do.simps
  by (intro steps_then policy_idle(2) [OF lab_policy] steps_done) (simp add: steps_ret)

lemma step_context_id: "step_context (\<lambda>m. m)"
  by (simp add: step_context_def map_prod_def split_beta)

lemma race_first:
  assumes "interleaved lab_env admits others w0 ids lab_planned [(i, race_guarded (apply_commit lab_env None lab_apply lab_ready)), b]"
  shows "interleaved lab_env admits others w0 (ids @ [i]) lab_applied [(i, Done (Inr ())), b]"
proof -
  let ?c = "lab_approved\<lparr>cs_state := StateApplying\<rparr>"
  let ?settle = "apply_settle lab_env None lab_apply lab_ready ?c"
  let ?send = "apply_write lab_env None ?c (ready_write lab_apply lab_ready)"
  have rec: "rd_record lab_ready = lab_approved" by (simp add: bench_ready_def)
  note part = part_of_two(1) [OF step_context_comp(1) [OF race_guarded_context]]
  have "interleaved lab_env admits others w0 ids lab_planned
      [(i, race_guarded (bind_act (apply_claim lab_env lab_approved) (\<lambda>rec.
        bind_act (apply_write lab_env None rec (ready_write lab_apply lab_ready))
          (apply_settle lab_env None lab_apply lab_ready rec)))), b]"
    using part [OF steps_settle(3) [OF handler_ops_idle [OF lab_policy] TrueI] lab_intent] assms by (simp add: apply_commit_def rec)
  from part [OF idle_claim lab_claim_run this]
  have "interleaved lab_env admits others w0 ids (bench_claimed True) [(i, race_guarded (bind_act ?send ?settle)), b]" by simp
  moreover obtain g where "race_guarded (bind_act ?send ?settle) = Step g"
      "g (bench_claimed True) = ((bench_written True), race_guarded (?settle lab_response))"
    by (simp add: apply_write_def call_priority_for_def lab_write_step race_guarded_def bench_written_def ret_def)
  ultimately have "interleaved lab_env admits others w0 (ids @ replicate (new_writes (bench_claimed True) (bench_written True)) i) (bench_written True)
      [(i, race_guarded (?settle lab_response)), b]"
    using call_steps [where k = 0 and i = i and t = "race_guarded (?settle lab_response)"] by fastforce
  moreover have "new_writes (bench_claimed True) (bench_written True) = 1"
    by (simp add: new_writes_def bench_written_def)
  moreover obtain response where run: "run (?settle lab_response) (bench_written True) = (lab_applied, Inr response)"
    using lab_settle_run by blast
  ultimately have "interleaved lab_env admits others w0 (ids @ [i]) lab_applied [(i, race_guarded (Done (Inr response))), b]"
    using part_of_two(1) [OF race_guarded_context steps_settle(1) [OF handler_ops_idle [OF lab_policy] TrueI] run] by simp
  from part_of_two(1) [OF step_context_id idle_release race_release this] show ?thesis by simp
qed

text \<open>The claim of the second is refused.\<close>

lemma race_second:
  assumes "interleaved lab_env admits others w0 ids lab_applied [b, (i, race_guarded (apply_commit lab_env None lab_apply lab_ready))]"
  shows "\<exists>w e. interleaved lab_env admits others w0 ids w [b, (i, Done (Inl e))]"
proof -
  have rec: "rd_record lab_ready = lab_approved" by (simp add: bench_ready_def)
  note part = part_of_two(2) [OF step_context_comp(1) [OF race_guarded_context]]
  have at_claim: "interleaved lab_env admits others w0 ids lab_applied
      [b, (i, race_guarded (bind_act (apply_claim lab_env lab_approved) (\<lambda>rec.
        bind_act (apply_write lab_env None rec (ready_write lab_apply lab_ready))
          (apply_settle lab_env None lab_apply lab_ready rec))))]"
    using part [OF steps_settle(3) [OF handler_ops_idle [OF lab_policy] TrueI] lab_intent] assms by (simp add: apply_commit_def rec)
  obtain w e where "run (apply_claim lab_env lab_approved) lab_applied = (w, Inl e)"
    by (simp add: apply_claim_def run_steps bench_env_def lab_coordinator_def lab_claim_def lab_transition_def
        bench_approved_fields bench_applied_def)
  from part [OF idle_claim this at_claim] have "interleaved lab_env admits others w0 ids w [b, (i, race_guarded (Done (Inl e)))]" by simp
  from part_of_two(2) [OF step_context_id idle_release race_release this]
  have "interleaved lab_env admits others w0 ids w [b, (i, Done (Inl e))]" by simp
  then show ?thesis by blast
qed

theorem written_once_interleaved_witness:
  "\<exists>w e. interleaved lab_env (\<lambda>_. True) (\<lambda>_ _. False) lab_planned [Some ''c1''] w [(Some ''c1'', Done (Inr ())), (Some ''c1'', Done (Inl e))] \<and>
     length (writes_in (w_events w)) = 1"
proof -
  obtain w e where race: "interleaved lab_env (\<lambda>_. True) (\<lambda>_ _. False) lab_planned [Some ''c1''] w [(Some ''c1'', Done (Inr ())), (Some ''c1'', Done (Inl e))]"
    using race_second [OF race_first [OF race_prepared]] by auto
  have "writes_in (w_events lab_planned) = []" by (simp add: bench_planned_def writes_in_def)
  with written_once_interleaved [OF lab_policy race] have "length (writes_in (w_events w)) = 1" by simp
  with race show ?thesis by blast
qed

end
