(* ===== verification/Approval.thy ===== *)
theory Approval
  imports Concurrent
begin

text \<open>
  The rule of two persons. Outside lab mode a change set is written only after another principal than the one
  who planned it approved it. The refusal of a principal's own plan is the coordinator's; what the
  code adds is who is named to it as the owner and as the approver, and that only lab mode waives.
\<close>

section \<open>The coordinator's records\<close>

text \<open>What is known of a change set: who planned it, and how it was approved.\<close>

datatype approval = Unapproved string | ApprovedBy string string | Waived string

definition keeps_view :: "(string \<Rightarrow> 's \<Rightarrow> approval option) \<Rightarrow> ('s \<Rightarrow> 's) \<Rightarrow> bool" where
  "keeps_view view f \<longleftrightarrow> (\<forall>i s. view i (f s) = view i s)"

definition changes_view ::
  "(string \<Rightarrow> 's \<Rightarrow> approval option) \<Rightarrow> string \<Rightarrow> (approval option \<Rightarrow> approval option \<Rightarrow> bool) \<Rightarrow> ('s \<Rightarrow> 's) \<Rightarrow> bool" where
  "changes_view view i allowed f \<longleftrightarrow>
     (\<forall>j s. view j (f s) = view j s \<or> j = i \<and> allowed (view i s) (view i (f s)))"

text \<open>
  The documented transitions: an insertion makes a new record of its owner; an approval is
  by another principal than the owner, of a record nobody approved; a waiver likewise of such a
  record; a claim succeeds only for an approved or waived record.
\<close>

definition approval_policy :: "('v, 's, 'c) change_env \<Rightarrow> (string \<Rightarrow> 's \<Rightarrow> approval option) \<Rightarrow> bool" where
  "approval_policy env view \<longleftrightarrow>
     (let co = ce_coordinator env in
      (\<forall>rec. changes_view view (cs_id rec) (\<lambda>v v'. v = None \<and> v' = Some (Unapproved (cs_owner rec))) (fst \<circ> co_insert co rec)) \<and>
      (\<forall>i d p g a. changes_view view i (\<lambda>v v'. \<exists>q. v = Some (Unapproved q) \<and> q \<noteq> p \<and> v' = Some (ApprovedBy q p))
        (fst \<circ> co_approve co i d p g a)) \<and>
      (\<forall>i d p g. changes_view view i (\<lambda>v v'. \<exists>q. v = Some (Unapproved q) \<and> v' = Some (Waived q)) (fst \<circ> co_waive co i d p g)) \<and>
      (\<forall>i d hnd s c. snd (co_claim co i d hnd s) = Inr c \<longrightarrow> (\<exists>q p. view i s \<in> {Some (ApprovedBy q p), Some (Waived q)})) \<and>
      (\<forall>d. keeps_view view (fst \<circ> co_guard co d)) \<and> (\<forall>d. keeps_view view (co_release co d)) \<and>
      (\<forall>i d. keeps_view view (fst \<circ> co_change_set co i d)) \<and> (\<forall>i d hnd. keeps_view view (fst \<circ> co_claim co i d hnd)) \<and>
      (\<forall>rec. keeps_view view (fst \<circ> co_update co rec)) \<and> keeps_view view (fst \<circ> ce_random env) \<and>
      (case ce_evidence env of None \<Rightarrow> True | Some recorder \<Rightarrow>
        (\<forall>i j d p g. keeps_view view (rc_proposal recorder i j d p g)) \<and>
        (\<forall>q i d p. keeps_view view (fst \<circ> rc_apply_intent recorder q i d p)) \<and>
        (\<forall>q i d p b r. keeps_view view (fst \<circ> rc_result_receipt recorder q i d p b r))))"

lemma approval_policyD:
  assumes "approval_policy env view"
  shows "changes_view view (cs_id rec) (\<lambda>v v'. v = None \<and> v' = Some (Unapproved (cs_owner rec)))
      (fst \<circ> co_insert (ce_coordinator env) rec)"
    "changes_view view i (\<lambda>v v'. \<exists>q. v = Some (Unapproved q) \<and> q \<noteq> p \<and> v' = Some (ApprovedBy q p))
      (fst \<circ> co_approve (ce_coordinator env) i d p g a)"
    "changes_view view i (\<lambda>v v'. \<exists>q. v = Some (Unapproved q) \<and> v' = Some (Waived q)) (fst \<circ> co_waive (ce_coordinator env) i d p g)"
    "snd (co_claim (ce_coordinator env) i d hnd s) = Inr c \<Longrightarrow> \<exists>q p. view i s \<in> {Some (ApprovedBy q p), Some (Waived q)}"
    "keeps_view view (fst \<circ> co_guard (ce_coordinator env) d)" "keeps_view view (co_release (ce_coordinator env) d)"
    "keeps_view view (fst \<circ> co_change_set (ce_coordinator env) i d)"
    "keeps_view view (fst \<circ> co_claim (ce_coordinator env) i d hnd)"
    "keeps_view view (fst \<circ> co_update (ce_coordinator env) rec')" "keeps_view view (fst \<circ> ce_random env)"
    "ce_evidence env = Some recorder \<Longrightarrow> keeps_view view (rc_proposal recorder i j d p g)"
    "ce_evidence env = Some recorder \<Longrightarrow> keeps_view view (fst \<circ> rc_apply_intent recorder q i d p)"
    "ce_evidence env = Some recorder \<Longrightarrow> keeps_view view (fst \<circ> rc_result_receipt recorder q i d p b r)"
  using assms unfolding approval_policy_def Let_def by (simp_all del: insert_iff) blast?

section \<open>Who planned and who approved, in the trace\<close>

definition planned_by :: "string \<Rightarrow> string \<Rightarrow> event list \<Rightarrow> bool" where
  "planned_by i q evs \<longleftrightarrow> (\<exists>rec. EvInsert rec \<in> set evs \<and> cs_id rec = i \<and> cs_owner rec = q)"

definition approved_by :: "string \<Rightarrow> string \<Rightarrow> event list \<Rightarrow> bool" where
  "approved_by i p evs \<longleftrightarrow> (\<exists>d g a. EvApprove i d p g a \<in> set evs)"

definition view_traced :: "(string \<Rightarrow> bool) \<Rightarrow> (string \<Rightarrow> 's \<Rightarrow> approval option) \<Rightarrow> ('s, 'c) world \<Rightarrow> bool" where
  "view_traced own view w \<longleftrightarrow> (\<forall>i. case view i (w_outside w) of
     None \<Rightarrow> True
   | Some (Unapproved q) \<Rightarrow> planned_by i q (w_events w) \<and> own q
   | Some (ApprovedBy q p) \<Rightarrow> planned_by i q (w_events w) \<and> own q \<and> approved_by i p (w_events w) \<and> own p \<and> q \<noteq> p
   | Some (Waived q) \<Rightarrow> False)"

definition traced_step :: "(string \<Rightarrow> bool) \<Rightarrow> (string \<Rightarrow> 's \<Rightarrow> approval option) \<Rightarrow> ('s, 'c) world \<Rightarrow> ('s, 'c) world \<Rightarrow> bool" where
  "traced_step own view w w' \<longleftrightarrow> (view_traced own view w \<longrightarrow> view_traced own view w')"

lemma planned_by_append: "planned_by i q evs \<Longrightarrow> planned_by i q (evs @ evs')"
  by (auto simp: planned_by_def)

lemma approved_by_append: "approved_by i q evs \<Longrightarrow> approved_by i q (evs @ evs')"
  by (auto simp: approved_by_def)

lemma traced_refl: "traced_step own view w w" by (simp add: traced_step_def)

lemma traced_trans: "traced_step own view w w' \<Longrightarrow> traced_step own view w' w'' \<Longrightarrow> traced_step own view w w''"
  by (simp add: traced_step_def)

lemma traced_keep:
  assumes "keeps_view view f"
  shows "traced_step own view w (w\<lparr>w_outside := f (w_outside w), w_events := w_events w @ evs\<rparr>)"
  using assms
  by (auto simp: traced_step_def view_traced_def keeps_view_def planned_by_append approved_by_append
      split: option.splits approval.splits)

lemma traced_events:
  assumes "w_outside w' = w_outside w" and "w_events w' = w_events w @ evs"
  shows "traced_step own view w w'"
  using assms
  by (auto simp: traced_step_def view_traced_def planned_by_append approved_by_append
      split: option.splits approval.splits)

lemma traced_outside: "keeps_view view (fst \<circ> f) \<Longrightarrow> steps (traced_step own view) (\<lambda>_. True) (outside f evs)"
  by (rule steps_outside) (use traced_keep [of view "fst \<circ> f"] in simp_all)

lemma traced_insert:
  assumes "changes_view view (cs_id rec) (\<lambda>v v'. v = None \<and> v' = Some (Unapproved (cs_owner rec))) (fst \<circ> f)"
    and "own (cs_owner rec)"
  shows "steps (traced_step own view) (\<lambda>_. True) (outside f [EvInsert rec])"
proof (rule steps_outside)
  fix w :: "('a, 'c) world"
  let ?w = "w\<lparr>w_outside := fst (f (w_outside w)), w_events := w_events w @ [EvInsert rec]\<rparr>"
  have new: "planned_by (cs_id rec) (cs_owner rec) (w_events ?w)" by (auto simp: planned_by_def)
  have "case view i (w_outside ?w) of None \<Rightarrow> True | Some (Unapproved q) \<Rightarrow> planned_by i q (w_events ?w) \<and> own q
      | Some (ApprovedBy q p) \<Rightarrow> planned_by i q (w_events ?w) \<and> own q \<and> approved_by i p (w_events ?w) \<and> own p \<and> q \<noteq> p
      | Some (Waived q) \<Rightarrow> False" if w: "view_traced own view w" for i
  proof -
    from assms(1) consider "view i (fst (f (w_outside w))) = view i (w_outside w)"
      | "i = cs_id rec" "view i (fst (f (w_outside w))) = Some (Unapproved (cs_owner rec))"
      unfolding changes_view_def comp_def by blast
    then show ?thesis
    proof cases
      case 1
      with w show ?thesis
        unfolding view_traced_def by (auto intro: planned_by_append approved_by_append split: option.splits approval.splits)
    qed (use new assms(2) in simp)
  qed
  then show "traced_step own view w ?w" unfolding traced_step_def view_traced_def by blast
qed simp

lemma traced_approve:
  assumes "changes_view view i (\<lambda>v v'. \<exists>q. v = Some (Unapproved q) \<and> q \<noteq> p \<and> v' = Some (ApprovedBy q p)) (fst \<circ> f)"
    and "own p"
  shows "steps (traced_step own view) (\<lambda>_. True) (outside f [EvApprove i d p g a])"
proof (rule steps_outside)
  fix w :: "('a, 'c) world"
  let ?w = "w\<lparr>w_outside := fst (f (w_outside w)), w_events := w_events w @ [EvApprove i d p g a]\<rparr>"
  have new: "approved_by i p (w_events ?w)" by (auto simp: approved_by_def)
  have "case view j (w_outside ?w) of None \<Rightarrow> True | Some (Unapproved q) \<Rightarrow> planned_by j q (w_events ?w) \<and> own q
      | Some (ApprovedBy q p) \<Rightarrow> planned_by j q (w_events ?w) \<and> own q \<and> approved_by j p (w_events ?w) \<and> own p \<and> q \<noteq> p
      | Some (Waived q) \<Rightarrow> False" if w: "view_traced own view w" for j
  proof -
    from assms(1) consider "view j (fst (f (w_outside w))) = view j (w_outside w)"
      | q where "j = i" "view i (w_outside w) = Some (Unapproved q)" "q \<noteq> p" "view i (fst (f (w_outside w))) = Some (ApprovedBy q p)"
      unfolding changes_view_def comp_def by blast
    then show ?thesis
    proof cases
      case 1
      with w show ?thesis
        unfolding view_traced_def by (auto intro: planned_by_append approved_by_append split: option.splits approval.splits)
    next
      case 2
      with w have "planned_by i q (w_events w) \<and> own q"
        unfolding view_traced_def by (auto split: option.splits approval.splits)
      with 2 new assms(2) show ?thesis by (auto intro: planned_by_append)
    qed
  qed
  then show "traced_step own view w ?w" unfolding traced_step_def view_traced_def by blast
qed simp

section \<open>Every step keeps the trace of the approvals\<close>

lemma traced_reading: "steps (traced_step own view) (\<lambda>_. True) (reading f)"
  unfolding reading_def by (auto intro!: steps.intros simp: traced_step_def)

lemma traced_dispatch: "steps (traced_step own view) (\<lambda>_. True) (dispatch_act env caller rd)"
  unfolding dispatch_act_def Let_def by (auto intro!: steps.intros traced_events)

lemma traced_client: "steps (traced_step own view) (\<lambda>_. True) (client_act env r p)"
  unfolding client_act_def by (auto intro!: steps.intros traced_events simp: split_beta)

lemma traced_ops:
  assumes "approval_policy env view" and "\<not> h_lab_mode (sv_handler (ce_server env))"
  shows "handler_ops own uses (traced_step own view) env"
  using assms(2) unfolding handler_ops_def Let_def
  by (auto intro!: traced_reading traced_dispatch traced_insert [OF approval_policyD(1) [OF assms(1)]]
      traced_approve [OF approval_policyD(2) [OF assms(1)]])
    (auto intro!: traced_outside approval_policyD [OF assms(1)] simp: approval_policyD [OF assms(1)] comp_def [of fst "\<lambda>s. (_ s, ())"])

definition admits_own :: "(string \<Rightarrow> bool) \<Rightarrow> server_call \<Rightarrow> bool" where
  "admits_own own call \<longleftrightarrow> pred_option own (served_principal call)"

lemma traced_released:
  assumes "approval_policy env view" and "released env w w'"
  shows "traced_step own view w w'"
proof -
  have "traced_step own view w (w\<lparr>w_outside := co_release (ce_coordinator env) d (w_outside w)\<rparr>)" for d
    using traced_keep [OF approval_policyD(6) [OF assms(1), of d], of own w "[]"] by simp
  with assms(2) show ?thesis by (auto simp: released_def traced_step_def)
qed

lemma traced_task:
  assumes "approval_policy env view" and "\<not> h_lab_mode (sv_handler (ce_server env))" and "admits_own own call"
  shows "steps (traced_step own view) (\<lambda>_. True) (server_task (with_sites sites env) call)"
proof (cases call)
  case (ReadTool caller t)
  then show ?thesis by (auto simp: Let_def intro!: steps.intros traced_events)
next
  case (ChangeTool c)
  have "handler_ops own (\<lambda>_. True) (traced_step own view) (with_sites sites env)"
    by (rule traced_ops) (use assms in \<open>simp_all add: approval_policy_def with_sites_def\<close>)
  from steps_run_call [OF this traced_client] ChangeTool assms(3) show ?thesis
    by (auto simp: admits_own_def option.pred_True intro!: steps_then steps_ret)
qed (simp_all add: steps_ret)

section \<open>The rule\<close>

text \<open>A claim is spent only on what was approved: the spent change sets that were approved or waived are
  themselves what the transitions spend.\<close>

definition cleared :: "(string \<Rightarrow> 's \<Rightarrow> approval option) \<Rightarrow> string \<Rightarrow> 's \<Rightarrow> bool" where
  "cleared view i s \<longleftrightarrow> (\<exists>q p. view i s \<in> {Some (ApprovedBy q p), Some (Waived q)})"

lemma keeps_spent_cleared:
  assumes "keeps_spent spent f" and "keeps_view view f \<or> (\<exists>i allowed. changes_view view i allowed f \<and>
      (\<forall>v v'. allowed v v' \<longrightarrow> v = None \<or> (\<exists>q. v = Some (Unapproved q))))"
  shows "keeps_spent (\<lambda>i s. spent i s \<and> cleared view i s) f"
proof -
  have "cleared view i (f s)" if "cleared view i s" for i s
    using assms(2)
  proof (elim disjE exE conjE)
    fix j allowed
    assume "changes_view view j allowed f" "\<forall>v v'. allowed v v' \<longrightarrow> v = None \<or> (\<exists>q. v = Some (Unapproved q))"
    moreover have "view i s \<noteq> None" "view i s \<noteq> Some (Unapproved q)" for q using that by (auto simp: cleared_def)
    ultimately have "view i (f s) = view i s" unfolding changes_view_def by metis
    with that show ?thesis by (simp add: cleared_def)
  qed (use that in \<open>simp add: keeps_view_def cleared_def\<close>)
  with assms(1) show ?thesis by (simp add: keeps_spent_def)
qed

lemma cleared_kept:
  "keeps_spent spent f \<Longrightarrow> keeps_view view f \<Longrightarrow> keeps_spent (\<lambda>i s. spent i s \<and> cleared view i s) f"
  by (rule keeps_spent_cleared) simp_all

lemma policy_cleared:
  assumes "transition_policy env spent" and "approval_policy env view"
  shows "transition_policy env (\<lambda>i s. spent i s \<and> cleared view i s)"
proof -
  note t = transition_policyD [OF assms(1)] and a = approval_policyD [OF assms(2)]
  have claim: "\<not> (spent i s \<and> cleared view i s) \<and> spent i s' \<and> cleared view i s'"
    if run: "co_claim (ce_coordinator env) i d hnd s = (s', Inr c)" for i d hnd s s' c
  proof -
    have "\<exists>q p. view i s \<in> {Some (ApprovedBy q p), Some (Waived q)}" using a(4) run by (metis snd_conv)
    moreover have "view i s' = view i s" using a(8) run unfolding keeps_view_def comp_def by (metis fst_conv)
    ultimately show ?thesis using t(1) [OF run] by (simp add: cleared_def)
  qed
  have insert: "keeps_spent (\<lambda>i s. spent i s \<and> cleared view i s) (fst \<circ> co_insert (ce_coordinator env) rec)" for rec
    by (rule keeps_spent_cleared [OF t(5) disjI2], intro exI conjI, rule a(1)) blast
  have approve: "keeps_spent (\<lambda>i s. spent i s \<and> cleared view i s) (fst \<circ> co_approve (ce_coordinator env) i d p g act)" for i d p g act
    by (rule keeps_spent_cleared [OF t(7) disjI2], intro exI conjI, rule a(2)) blast
  have waive: "keeps_spent (\<lambda>i s. spent i s \<and> cleared view i s) (fst \<circ> co_waive (ce_coordinator env) i d p g)" for i d p g
    by (rule keeps_spent_cleared [OF t(8) disjI2], intro exI conjI, rule a(3)) blast
  note kept = cleared_kept [OF t(3) a(5)] cleared_kept [OF t(4) a(6)] insert cleared_kept [OF t(6) a(7)] approve waive
    cleared_kept [OF t(9) a(8)] cleared_kept [OF t(10) a(9)] cleared_kept [OF t(11) a(10)]
  have recorder: "case ce_evidence env of None \<Rightarrow> True | Some recorder \<Rightarrow>
      (\<forall>i j d p g. keeps_spent (\<lambda>i s. spent i s \<and> cleared view i s) (rc_proposal recorder i j d p g)) \<and>
      (\<forall>q i d p. keeps_spent (\<lambda>i s. spent i s \<and> cleared view i s) (fst \<circ> rc_apply_intent recorder q i d p)) \<and>
      (\<forall>q i d p b r. keeps_spent (\<lambda>i s. spent i s \<and> cleared view i s) (fst \<circ> rc_result_receipt recorder q i d p b r))"
    using cleared_kept [OF t(12) a(11)] cleared_kept [OF t(13) a(12)] cleared_kept [OF t(14) a(13)] by (simp split: option.split)
  show ?thesis
    unfolding transition_policy_def Let_def using claim t(2) recorder by (intro conjI allI kept) (blast+)
qed

lemma approved_writes:
  assumes "transition_policy env spent" and "approval_policy env view"
    and "\<not> h_lab_mode (sv_handler (ce_server env))" and "\<forall>i. view i (w_outside w0) = None"
    and "interleaved env (admits_own own) others w0 ids w ts"
  shows "\<forall>x \<in> set ids. \<exists>i q p. x = Some i \<and> own q \<and> own p \<and> q \<noteq> p \<and>
    planned_by i q (w_events w) \<and> approved_by i p (w_events w)"
proof
  fix x assume x: "x \<in> set ids"
  have "writes_ok (\<lambda>i s. spent i s \<and> cleared view i s) w0 ids w"
    using interleaved_ok [OF assms(5) policy_cleared [OF assms(1,2)]] by blast
  with x obtain i where i: "x = Some i" "cleared view i (w_outside w)"
    by (cases x) (auto simp: writes_ok_def list_all_iff split: option.splits)
  have "view_traced own view w0" using assms(4) by (simp add: view_traced_def)
  moreover have "traced_step own view w0 w"
  proof (rule interleaved_steps [OF assms(5), THEN conjunct1])
    show "traced_step own view w1 (w1\<lparr>w_client := c\<rparr>)" for w1 c
      by (rule traced_events [where evs = "[]"]) simp_all
  qed (use traced_task [OF assms(2,3)] traced_released [OF assms(2)] traced_refl traced_trans in \<open>blast+\<close>)
  ultimately have "view_traced own view w" by (simp add: traced_step_def)
  with i(2) obtain q p where "view i (w_outside w) = Some (ApprovedBy q p)"
    unfolding view_traced_def cleared_def by (auto split: option.splits approval.splits)
  with \<open>view_traced own view w\<close> have "own q \<and> own p \<and> q \<noteq> p \<and> planned_by i q (w_events w) \<and> approved_by i p (w_events w)"
    unfolding view_traced_def by (auto split: option.splits approval.splits)
  with i(1) show "\<exists>i q p. x = Some i \<and> own q \<and> own p \<and> q \<noteq> p \<and> planned_by i q (w_events w) \<and> approved_by i p (w_events w)"
    by blast
qed

text \<open>C2: Outside lab mode nothing is written on the word of one principal. However the calls interleave,
  each write applies a change set that one principal of the deployment planned and another one of the deployment
  approved; both are read from the trace, which holds what the handlers passed to the coordinator. The
  coordinator keeps to the approval policy: it refuses an approval by the record's owner.\<close>

theorem two_person_rule:
  assumes "transition_policy env spent" and "approval_policy env view"
    and "\<not> h_lab_mode (sv_handler (ce_server env))" and "\<forall>i. view i (w_outside w0) = None"
    and "interleaved env (admits_own own) others w0 ids w ts"
  shows "\<forall>x \<in> set ids. \<exists>i q p. x = Some i \<and> own q \<and> own p \<and> q \<noteq> p \<and>
    planned_by i q (w_events w) \<and> approved_by i p (w_events w)"
  using assms by (rule approved_writes)

text \<open>So one principal alone, however it orders its calls, has nothing written.\<close>

corollary single_principal_never_writes:
  assumes "transition_policy env spent" and "approval_policy env view"
    and "\<not> h_lab_mode (sv_handler (ce_server env))" and "\<forall>i. view i (w_outside w0) = None"
    and "interleaved env (admits_own (\<lambda>x. x = who)) others w0 ids w ts"
  shows "ids = []"
proof -
  have False if "x \<in> set ids" for x
    using approved_writes [OF assms] that by blast
  then show ?thesis by (cases ids) auto
qed

section \<open>Witness: planned by one, approved by another\<close>

definition lab_view :: "string \<Rightarrow> lab_state \<Rightarrow> approval option" where
  "lab_view i s = (case s i of
     None \<Rightarrow> None
   | Some rec \<Rightarrow> Some (if cs_state rec = StatePlanned then Unapproved (cs_owner rec)
       else case cs_approver rec of Some p \<Rightarrow> ApprovedBy (cs_owner rec) p | None \<Rightarrow> Waived (cs_owner rec)))"

lemma lab_fst:
  "fst (lab_approve i d p g a s) = fst (lab_transition (\<lambda>rec. cs_state rec = StatePlanned \<and> cs_owner rec \<noteq> p \<and>
     cs_digest rec = g \<and> a = ActorHuman) (\<lambda>rec. rec\<lparr>cs_state := StateApproved, cs_approver := Some p\<rparr>) i s)"
  "fst (lab_waive i d p g s) = fst (lab_transition (\<lambda>rec. cs_state rec = StatePlanned \<and> cs_approver rec = None \<and> cs_digest rec = g)
     (\<lambda>rec. rec\<lparr>cs_state := StateApproved, cs_approval := Some \<lparr>apr_waived = Some p\<rparr>\<rparr>) i s)"
  "fst (lab_update new s) = fst (lab_transition (\<lambda>rec. cs_state rec = StateApplying \<and>
     cs_state new \<in> {StateApplied, StateFailed} \<and> cs_owner new = cs_owner rec \<and> cs_approver new = cs_approver rec) (\<lambda>rec. new) (cs_id new) s)"
  "fst (lab_change_set i d s) = s"
  by (simp_all add: lab_approve_def lab_waive_def lab_update_def lab_change_set_def split: prod.split sum.split option.split)

lemma lab_approvals: "approval_policy (bench_env b) lab_view"
  unfolding approval_policy_def Let_def
  by (simp add: bench_env_def lab_coordinator_def changes_view_def keeps_view_def lab_fst)
    (auto simp: lab_view_def lab_insert_def lab_claim_def lab_transition_def split: option.splits if_splits)

lemma office_history:
  "\<exists>ts. interleaved office_env (admits_own (\<lambda>_. True)) (\<lambda>_ _. False) lab_start [Some ''c1''] (bench_applied False) ts"
proof -
  have run: "office_pending = serve office_env (ChangeTool (CallPlan None lab_plan)) lab_start"
    "bench_planned False = serve office_env (ChangeTool (CallApprove (Some example_caller) office_approval)) office_pending"
    "bench_applied False = serve office_env (ChangeTool (CallApply None lab_apply)) (bench_planned False)"
    using bench_plan_run [of False] office_approve_run lab_apply_run [of False] by (auto simp: serve_def run_bind run_ret)
  have writes: "writes_in (w_events lab_start) = []" "writes_in (w_events office_pending) = []"
    "writes_in (w_events (bench_planned False)) = []" "length (writes_in (w_events (bench_applied False))) = 1"
    by (simp_all add: lab_start_def office_pending_def bench_planned_def bench_applied_def writes_in_def is_write_def
        ready_write_def write_request_of_def Let_def)
  have any: "admits_own (\<lambda>_. True) call" for call :: server_call by (simp add: admits_own_def pred_option_def)
  note call = interleaved_call [where admits = "admits_own (\<lambda>_. True)", OF _ any]
  obtain t1 where "interleaved office_env (admits_own (\<lambda>_. True)) (\<lambda>_ _. False) lab_start [] office_pending t1"
    using call [OF call_start run(1)] writes by (auto simp: new_writes_def)
  from call [OF this run(2)] writes
  obtain t2 where "interleaved office_env (admits_own (\<lambda>_. True)) (\<lambda>_ _. False) lab_start [] (bench_planned False) t2"
    by (auto simp: new_writes_def)
  from call [OF this run(3)] writes show ?thesis
    by (auto simp: new_writes_def lab_apply_def)
qed

theorem two_person_rule_witness:
  "\<exists>q p. q \<noteq> p \<and> planned_by ''c1'' q (w_events (bench_applied False)) \<and> approved_by ''c1'' p (w_events (bench_applied False))"
proof -
  obtain ts where "interleaved office_env (admits_own (\<lambda>_. True)) (\<lambda>_ _. False) lab_start [Some ''c1''] (bench_applied False) ts"
    using office_history by blast
  then have "\<forall>x \<in> set [Some ''c1'']. \<exists>i q p. x = Some i \<and> q \<noteq> p \<and>
      planned_by i q (w_events (bench_applied False)) \<and> approved_by i p (w_events (bench_applied False))"
    using two_person_rule [OF lab_policy lab_approvals, of False lab_start "\<lambda>_. True"]
    by (fastforce simp: bench_env_def bench_server_def lab_view_def lab_start_def)
  then show ?thesis by simp
qed

end
