(* ===== verification/Metered.thy ===== *)
theory Metered
  imports Concurrent
begin

text \<open>
  The server over the HTTP client with its call budget: \<open>execute_as\<close> of \<open>client.rs\<close> under the tools of
  \<open>server/mod.rs\<close>, the change-set handlers and the refresh of the sites, which all share one client.
  The budget keeps the reserve for human operators across all of them.
\<close>

section \<open>The client with a meter\<close>

text \<open>
  The client and, to state the property, what it did: the number of operations so far (each meets
  its own surroundings \<open>envs n\<close>: clock readings, answers of the service), the number of windows of the
  budget that were restarted, and of each call the window, the priority and the attempts it made.
\<close>

record metered =
  mt_client :: http_client
  mt_operations :: nat
  mt_window :: nat
  mt_log :: "(nat \<times> call_priority \<times> nat) list"

definition restarted :: "nat \<Rightarrow> rate_limit_budget \<Rightarrow> nat" where
  "restarted t b = of_bool (t - started_at (budget_window b) \<ge> WINDOW)"

text \<open>A refused call also takes the status of the budget, for its error.\<close>

definition metered_exec ::
  "(nat \<Rightarrow> client_env) \<Rightarrow> metered \<Rightarrow> mist_request \<Rightarrow> call_priority \<Rightarrow> metered \<times> (mist_error + mist_response)" where
  "metered_exec envs m r p =
     (let env = envs (mt_operations m);
          (t1, t2, t3, t4) = ce_clock env;
          budget = hc_budget (mt_client m);
          window = mt_window m + restarted t1 budget;
          (budget', acquired) = try_acquire t1 t2 p budget;
          (hc, outcome, attempts, waits) = http_execute_as env (mt_client m) r p
      in (\<lparr>mt_client = hc, mt_operations = Suc (mt_operations m),
           mt_window = (case acquired of Inl _ \<Rightarrow> window + restarted t3 budget' | Inr _ \<Rightarrow> window),
           mt_log = mt_log m @ [(window, p, attempts)]\<rparr>, outcome))"

definition metered_budget :: "(nat \<Rightarrow> client_env) \<Rightarrow> metered \<Rightarrow> metered \<times> budget_status option" where
  "metered_budget envs m =
     (let (t1, t2, t3, t4) = ce_clock (envs (mt_operations m));
          (hc, status) = http_budget_status t1 t2 (mt_client m)
      in (m\<lparr>mt_client := hc, mt_operations := Suc (mt_operations m),
           mt_window := mt_window m + restarted t1 (hc_budget (mt_client m))\<rparr>, status))"

definition metered_server :: "(nat \<Rightarrow> client_env) \<Rightarrow> ('v, metered) server \<Rightarrow> bool" where
  "metered_server envs sv \<longleftrightarrow> sv_exec sv = metered_exec envs \<and> sv_budget sv = metered_budget envs"

text \<open>The refresh of the sites calls \<open>execute\<close>, which is \<open>execute_as\<close> at the standard priority.\<close>

definition metered_refresh :: "(nat \<Rightarrow> client_env) \<Rightarrow> metered \<Rightarrow> metered \<Rightarrow> bool" where
  "metered_refresh envs m m' \<longleftrightarrow> (\<exists>r. m' = fst (metered_exec envs m r Standard))"

definition fresh_meter :: "nat \<Rightarrow> u32 \<Rightarrow> u32 \<Rightarrow> metered \<Rightarrow> bool" where
  "fresh_meter t0 limit reserve m \<longleftrightarrow>
     hc_budget (mt_client m) = new_budget t0 limit reserve \<and> mt_log m = []"

section \<open>What a window holds\<close>

text \<open>The calls of a window that reached the network, of the priorities \<open>P\<close>.\<close>

definition sent_in :: "nat \<Rightarrow> (call_priority \<Rightarrow> bool) \<Rightarrow> (nat \<times> call_priority \<times> nat) list \<Rightarrow> nat" where
  "sent_in k P log = length (filter (\<lambda>(j, p, attempts). j = k \<and> P p \<and> 0 < attempts) log)"

definition standard_share :: "u32 \<Rightarrow> u32 \<Rightarrow> nat" where
  "standard_share limit reserve = unat limit - min (unat reserve) (unat limit)"

text \<open>
  The log never exceeds what the budget counted: the sent calls of the current window are at
  most the used ones, no window holds more than its shares, and the windows to come have none.
\<close>

definition counted :: "u32 \<Rightarrow> u32 \<Rightarrow> rate_limit_budget \<Rightarrow> nat \<Rightarrow> (nat \<times> call_priority \<times> nat) list \<Rightarrow> bool" where
  "counted limit reserve b k log \<longleftrightarrow>
     hourly_limit b = limit \<and> human_reserve b = min reserve limit \<and>
     sent_in k (\<lambda>_. True) log \<le> unat (used (budget_window b)) \<and>
     (\<forall>j. sent_in j (\<lambda>p. p = Standard) log \<le> standard_share limit reserve \<and> sent_in j (\<lambda>_. True) log \<le> unat limit) \<and>
     (\<forall>j > k. sent_in j (\<lambda>_. True) log = 0)"

lemma sent_in_snoc [simp]:
  "sent_in k P (log @ [(j, p, attempts)]) = sent_in k P log + of_bool (j = k \<and> P p \<and> 0 < attempts)"
  by (simp add: sent_in_def)

lemma sent_in_mono: "(\<And>p. P p \<Longrightarrow> Q p) \<Longrightarrow> sent_in k P log \<le> sent_in k Q log"
  by (induction log) (auto simp: sent_in_def)

lemma unat_priority_cap:
  assumes "hourly_limit b = limit" and "human_reserve b = min reserve limit"
  shows "unat (priority_cap b p) = (case p of Standard \<Rightarrow> standard_share limit reserve | Reserved \<Rightarrow> unat limit)"
  using assms by (cases p) (auto simp: priority_cap_def standard_cap_def standard_share_def min_def word_le_nat_alt)

lemma counted_reset:
  assumes "counted limit reserve b k log"
  shows "counted limit reserve (b\<lparr>budget_window := reset_if_elapsed t1 t2 (budget_window b)\<rparr>) (k + restarted t1 b) log"
  using assms by (auto simp: counted_def reset_if_elapsed_def restarted_def)

lemma counted_grant:
  assumes "counted limit reserve b k log" and "used (budget_window b) < priority_cap b p"
  shows "counted limit reserve (b\<lparr>budget_window := (budget_window b)\<lparr>used := used (budget_window b) + 1\<rparr>\<rparr>) k
    (log @ [(k, p, attempts)])"
proof -
  have used: "unat (used (budget_window b) + 1) = Suc (unat (used (budget_window b)))"
    by (rule unat_Suc_word [OF assms(2)])
  have limits: "hourly_limit b = limit" "human_reserve b = min reserve limit" using assms(1) by (simp_all add: counted_def)
  have "unat (used (budget_window b)) < unat (priority_cap b p)" using assms(2) by (simp add: word_less_nat_alt)
  then have room: "unat (used (budget_window b)) < (case p of Standard \<Rightarrow> standard_share limit reserve | Reserved \<Rightarrow> unat limit)"
    by (simp only: unat_priority_cap [OF limits])
  have "sent_in k (\<lambda>p. p = Standard) log \<le> sent_in k (\<lambda>_. True) log" by (rule sent_in_mono) simp
  moreover have "standard_share limit reserve \<le> unat limit" by (simp add: standard_share_def)
  ultimately show ?thesis
    using assms(1) room used by (cases p) (auto simp: counted_def)
qed

lemma counted_unsent: "counted limit reserve b k log \<Longrightarrow> counted limit reserve b k (log @ [(j, p, 0)])"
  by (simp add: counted_def)

lemma counted_new: "counted limit reserve (new_budget t0 limit reserve) k []"
  by (simp add: counted_def sent_in_def new_budget_def)

section \<open>Every operation of the client keeps the count\<close>

definition meter_ok :: "(call_priority \<Rightarrow> bool) \<Rightarrow> u32 \<Rightarrow> u32 \<Rightarrow> u8 \<Rightarrow> metered \<Rightarrow> bool" where
  "meter_ok uses limit reserve retries m \<longleftrightarrow>
     counted limit reserve (hc_budget (mt_client m)) (mt_window m) (mt_log m) \<and>
     hc_max_429_retries (mt_client m) = retries \<and>
     list_all (\<lambda>(k, p, attempts). uses p \<and> attempts \<le> Suc (unat retries)) (mt_log m)"

lemma metered_exec_ok:
  assumes "meter_ok uses limit reserve retries m" and "uses p"
  shows "meter_ok uses limit reserve retries (fst (metered_exec envs m r p))"
proof -
  obtain t1 t2 t3 t4 where clock: "ce_clock (envs (mt_operations m)) = (t1, t2, t3, t4)"
    by (cases "ce_clock (envs (mt_operations m))") auto
  let ?b = "hc_budget (mt_client m)"
  let ?r = "?b\<lparr>budget_window := reset_if_elapsed t1 t2 (budget_window ?b)\<rparr>"
  obtain hc outcome attempts waits
    where run: "http_execute_as (envs (mt_operations m)) (mt_client m) r p = (hc, outcome, attempts, waits)"
    by (metis prod_cases4)
  obtain b acquired where acq: "try_acquire t1 t2 p ?b = (b, acquired)" by fastforce
  note charge = execute_charge [OF run clock acq]
  have reset: "counted limit reserve ?r (mt_window m + restarted t1 ?b) (mt_log m)"
    using assms(1) by (simp add: meter_ok_def counted_reset)
  have "counted limit reserve (hc_budget hc)
      (case acquired of Inl _ \<Rightarrow> mt_window m + restarted t1 ?b + restarted t3 b | Inr _ \<Rightarrow> mt_window m + restarted t1 ?b)
      (mt_log m @ [(mt_window m + restarted t1 ?b, p, attempts)])"
  proof (cases acquired)
    case (Inl e)
    then have "b = ?r" using acq by (auto simp: try_acquire_def Let_def split: if_splits)
    moreover have "attempts = 0" using charge(2) Inl by simp
    ultimately show ?thesis
      using Inl charge(1) counted_reset [OF counted_unsent [OF reset], of t3 t4] by (simp add: budget_status_of_def Let_def)
  next
    case (Inr st)
    then have "used (budget_window ?r) < priority_cap ?r p" and "b = ?r\<lparr>budget_window := (budget_window ?r)\<lparr>used := used (budget_window ?r) + 1\<rparr>\<rparr>"
      using acq by (auto simp: try_acquire_def Let_def not_le split: if_splits)
    with Inr charge(1) counted_grant [OF reset] show ?thesis by simp
  qed
  moreover have "attempts \<le> Suc (unat retries)" "hc_max_429_retries hc = retries"
    using assms(1) charge by (auto simp: meter_ok_def split: sum.splits)
  ultimately show ?thesis
    using assms by (simp add: meter_ok_def metered_exec_def Let_def clock acq run)
qed

lemma metered_budget_ok:
  assumes "meter_ok uses limit reserve retries m"
  shows "meter_ok uses limit reserve retries (fst (metered_budget envs m))"
  using assms counted_reset
  by (auto simp: meter_ok_def metered_budget_def http_budget_status_def budget_status_of_def Let_def split: prod.split)

section \<open>What the handlers do to the client\<close>

text \<open>A read leaves the client as it was or after its calls, at the caller's priority.\<close>

definition client_inv :: "('v, 'c) server \<Rightarrow> caller_ctx option \<Rightarrow> ('c \<Rightarrow> bool) \<Rightarrow> bool" where
  "client_inv sv caller I \<longleftrightarrow>
     (\<forall>c r. I c \<longrightarrow> I (fst (sv_exec sv c r (call_priority_for caller)))) \<and> (\<forall>c. I c \<longrightarrow> I (fst (sv_budget sv c)))"

lemma client_inv_catalogued:
  assumes "client_inv sv caller I" and "I client"
  shows "I (do_client (catalogued sv caller client rd))"
proof (cases "check_read (sv_env sv) (sv_handler sv) caller rd")
  case (Inr x)
  obtain p target request where x: "x = (p, target, request)" by (cases x)
  obtain c outcome where exec: "sv_exec sv client request (call_priority_for caller) = (c, outcome)" by fastforce
  with assms have "I c" by (metis client_inv_def fst_conv)
  moreover from this have "I (fst (sv_budget sv c))" using assms(1) by (simp add: client_inv_def)
  ultimately show ?thesis
    using Inr x exec by (auto simp: dispatch_catalogued_read_def Let_def split: sum.split prod.split)
qed (use assms(2) in \<open>auto simp: dispatch_catalogued_read_def\<close>)

lemma client_inv_other:
  assumes "client_inv sv caller I" and "I client"
  shows "I (do_client (named sv caller client tool i args names cap))"
    "I (do_client (invoked sv caller client tool invoke_args cap))" "I (do_client (ambiguous client tool))"
  using assms client_inv_catalogued [OF assms]
  by (auto simp: dispatch_named_def invoke_dispatcher_def ambiguous_def refused_def split: sum.split prod.split)

lemma client_inv_tool:
  assumes "client_inv sv caller I" and "I client"
  shows "I (do_client (call_tool sv caller client t))"
  by (cases t) (simp_all add: tool_defs Let_def client_inv_catalogued [OF assms] client_inv_other [OF assms]
      split: sum.split prod.split)

definition client_step :: "('c \<Rightarrow> bool) \<Rightarrow> ('s, 'c) world \<Rightarrow> ('s, 'c) world \<Rightarrow> bool" where
  "client_step I w w' \<longleftrightarrow> (I (w_client w) \<longrightarrow> I (w_client w'))"

fun served_priority :: "server_call \<Rightarrow> call_priority option" where
  "served_priority (ReadTool caller t) = Some (call_priority_for caller)"
| "served_priority (ChangeTool c) = acting_priority c"
| "served_priority _ = None"

lemma client_task:
  assumes "\<And>c r p. uses p \<Longrightarrow> I c \<Longrightarrow> I (fst (sv_exec (ce_server env) c r p))"
    and "\<And>c. I c \<Longrightarrow> I (fst (sv_budget (ce_server env) c))" and "pred_option uses (served_priority call)"
  shows "steps (client_step I) (\<lambda>_. True) (server_task env call)"
proof -
  have inv: "client_inv (ce_server env) caller I" if "uses (call_priority_for caller)" for caller
    using assms(1,2) that by (simp add: client_inv_def)
  show ?thesis
  proof (cases call)
    case (ReadTool caller t)
    with assms(3) have "client_inv (ce_server env) caller I" using inv by simp
    from client_inv_tool [OF this] ReadTool show ?thesis
      by (auto simp: Let_def client_step_def intro!: steps.intros)
  next
    case (ChangeTool c)
    have "steps (client_step I) (\<lambda>_. True) (dispatch_act env caller rd)" if "uses (call_priority_for caller)" for caller rd
      using client_inv_catalogued [OF inv [OF that]]
      by (auto simp: dispatch_act_def Let_def client_step_def intro!: steps.intros)
    then have ops: "handler_ops (\<lambda>_. True) uses (client_step I) env"
      unfolding handler_ops_def Let_def
      by (auto intro!: steps_outside steps.intros simp: client_step_def reading_def split: option.split)
    have "steps (client_step I) (\<lambda>_. True) (client_act env r p)" if "uses p" for r p
      using assms(1) [OF that] by (auto simp: client_act_def client_step_def split_beta intro!: steps.intros)
    from steps_run_call [OF ops this] ChangeTool assms(3) show ?thesis
      by (auto simp: option.pred_True intro!: steps_then steps_ret)
  qed (simp_all add: steps_ret)
qed

section \<open>The reserve is kept\<close>

lemma interleaved_meter:
  assumes server: "metered_server envs (ce_server env)"
    and "interleaved env admits (metered_refresh envs) w0 ids w ts"
    and "uses Standard" and calls: "\<And>call. admits call \<Longrightarrow> pred_option uses (served_priority call)"
    and "meter_ok uses limit reserve retries (w_client w0)"
  shows "meter_ok uses limit reserve retries (w_client w)"
proof -
  let ?I = "meter_ok uses limit reserve retries"
  have "client_step ?I w0 w"
  proof (rule interleaved_steps [OF assms(2), THEN conjunct1])
    fix sites call assume "admits call"
    then show "steps (client_step ?I) (\<lambda>_. True) (server_task (with_sites sites env) call)"
      by (intro client_task [where uses = uses])
        (use server calls in \<open>simp_all add: metered_server_def with_sites_def metered_exec_ok metered_budget_ok\<close>)
  next
    fix w1 :: "('b, metered) world" and c assume "metered_refresh envs (w_client w1) c"
    then show "client_step ?I w1 (w1\<lparr>w_client := c\<rparr>)"
      using metered_exec_ok assms(3) by (auto simp: client_step_def metered_refresh_def)
  qed (auto simp: client_step_def released_def)
  with assms(5) show ?thesis by (simp add: client_step_def)
qed

text \<open>C13: The human reserve holds for the server as a whole. Whatever tools are called by whatever callers,
  however their steps interleave with each other and with the refresh of the sites, in each window of the
  budget at most the limit less the reserve of the calls that reach the network are at the standard priority,
  and at most the limit altogether; each makes at most one attempt more than the configured retries; and
  only a call by a human operator was sent at the reserved priority.\<close>

theorem server_keeps_human_reserve:
  assumes "metered_server envs (ce_server env)" and "fresh_meter t0 limit reserve (w_client w0)"
    and "interleaved env admits (metered_refresh envs) w0 ids w ts"
  shows "sent_in k (\<lambda>p. p = Standard) (mt_log (w_client w)) \<le> unat limit - min (unat reserve) (unat limit) \<and>
    sent_in k (\<lambda>_. True) (mt_log (w_client w)) \<le> unat limit \<and>
    list_all (\<lambda>(j, p, attempts). attempts \<le> Suc (unat (hc_max_429_retries (mt_client (w_client w0)))) \<and>
      (p = Standard \<or> (\<exists>call. admits call \<and> served_priority call = Some Reserved))) (mt_log (w_client w))"
proof -
  let ?uses = "\<lambda>p. p = Standard \<or> (\<exists>call. admits call \<and> served_priority call = Some Reserved)"
  have "meter_ok ?uses limit reserve (hc_max_429_retries (mt_client (w_client w0))) (w_client w0)"
    using assms(2) counted_new by (simp add: meter_ok_def fresh_meter_def)
  moreover have "pred_option ?uses (served_priority call)" if "admits call" for call
    using that by (cases "served_priority call") (auto, metis call_priority.exhaust)
  ultimately have "meter_ok ?uses limit reserve (hc_max_429_retries (mt_client (w_client w0))) (w_client w)"
    by (intro interleaved_meter [OF assms(1,3)]) simp_all
  then show ?thesis
    unfolding meter_ok_def counted_def standard_share_def by (auto simp: list_all_iff)
qed

section \<open>Witness: a refresh, a human read and a refused refresh\<close>

definition meter_envs :: "nat \<Rightarrow> client_env" where
  "meter_envs n = example_env (answer 410)"

definition meter_env :: "(nat, lab_state, metered) change_env" where
  "meter_env = \<lparr>ce_server = \<lparr>sv_env = example_dispatch_env, sv_exec = metered_exec meter_envs,
       sv_budget = metered_budget meter_envs, sv_decode_cursor = \<lambda>_. None, sv_handler = example_handler\<rparr>,
     ce_coordinator = lab_coordinator, ce_evidence = None,
     ce_now = \<lambda>s. Inr 100, ce_random = \<lambda>s. (s, Inr ''c1''), ce_hex_encode = \<lambda>x. x, ce_sha256 = \<lambda>x. x,
     ce_to_vec = \<lambda>v. Inr ''body'', ce_from_str = \<lambda>t. Inl ''syntax'', ce_json_text = \<lambda>v. [],
     ce_change_set_digest = \<lambda>owner device fp acts. Inr ''digest'', ce_preview_digest = \<lambda>t. t,
     ce_tool_result = \<lambda>r. \<lparr>cr_is_error = True, cr_text = None\<rparr>, ce_state_name = \<lambda>st. []\<rparr>"

definition meter_budget :: "u32 \<Rightarrow> rate_limit_budget" where
  "meter_budget n = (new_budget 0 2 1)\<lparr>budget_window := \<lparr>started_at = 0, used = n\<rparr>\<rparr>"

definition meter_at :: "u32 \<Rightarrow> nat \<Rightarrow> (nat \<times> call_priority \<times> nat) list \<Rightarrow> metered" where
  "meter_at n k log = \<lparr>mt_client = example_client\<lparr>hc_budget := meter_budget n\<rparr>, mt_operations = k, mt_window = 0, mt_log = log\<rparr>"

lemma meter_acquire:
  "\<exists>st. try_acquire 1 1 Standard (meter_budget 0) = (meter_budget 1, Inr st)"
  "\<exists>st. try_acquire 1 1 Reserved (meter_budget 1) = (meter_budget 2, Inr st)"
  "try_acquire 1 1 Standard (meter_budget 2) = (meter_budget 2, Inl Exhausted)"
  "fst (budget_status_of 1 1 (meter_budget 2)) = meter_budget 2"
  by (simp_all add: try_acquire_def meter_budget_def new_budget_def priority_cap_def standard_cap_def
      budget_status_of_def reset_if_elapsed_def WINDOW_def sat_sub_def Let_def word_le_nat_alt)

lemma meter_granted:
  assumes "try_acquire 1 1 p (meter_budget n) = (meter_budget n', Inr st)"
  shows "\<exists>e. metered_exec meter_envs (meter_at n k log) example_request p = (meter_at n' (Suc k) (log @ [(0, p, 1)]), Inl e)"
proof -
  obtain request where "prepare_request (example_env (answer 410)) (example_client\<lparr>hc_budget := meter_budget n'\<rparr>)
      example_request = Inr request" using example_prepared by blast
  then have "\<exists>e. http_execute_as (example_env (answer 410)) (example_client\<lparr>hc_budget := meter_budget n\<rparr>) example_request p =
      (example_client\<lparr>hc_budget := meter_budget n'\<rparr>, Inl e, 1, [])"
    using assms by (simp add: http_execute_as_def example_env_def send_loop.simps answer_def finish_response_def)
  moreover have "restarted 1 (meter_budget n) = 0"
    by (simp add: restarted_def meter_budget_def WINDOW_def)
  moreover have "ce_clock (example_env (answer 410)) = (1, 1, 1, 1)" by (simp add: example_env_def)
  ultimately show ?thesis
    using assms by (auto simp: metered_exec_def meter_at_def meter_envs_def Let_def)
qed

lemma meter_refused:
  "fst (metered_exec meter_envs (meter_at 2 k log) example_request Standard) = meter_at 2 (Suc k) (log @ [(0, Standard, 0)])"
proof -
  have "restarted 1 (meter_budget 2) = 0" by (simp add: restarted_def meter_budget_def WINDOW_def)
  then show ?thesis
    using meter_acquire(3,4)
    by (simp add: metered_exec_def meter_at_def meter_envs_def http_execute_as_def example_env_def Let_def split_beta)
qed

definition meter_world :: "metered \<Rightarrow> (lab_state, metered) world" where
  "meter_world m = \<lparr>w_outside = Map.empty, w_client = m, w_events = []\<rparr>"

lemma meter_refreshed:
  assumes "interleaved meter_env (\<lambda>_. True) (metered_refresh meter_envs) w0 ids w ts"
  shows "interleaved meter_env (\<lambda>_. True) (metered_refresh meter_envs) w0 ids
    (w\<lparr>w_client := fst (metered_exec meter_envs (w_client w) example_request Standard)\<rparr>) ts"
  by (rule client_used [OF assms]) (auto simp: metered_refresh_def)

lemma meter_read:
  "\<exists>evs. serve meter_env (ReadTool (Some example_caller) (GetMistSelf (JObj []))) (meter_world (meter_at 1 1 [(0, Standard, 1)])) =
     (meter_world (meter_at 2 2 [(0, Standard, 1), (0, Reserved, 1)]))\<lparr>w_events := evs\<rparr>"
proof -
  obtain st where "try_acquire 1 1 Reserved (meter_budget 1) = (meter_budget 2, Inr st)"
    using meter_acquire(2) by blast
  from meter_granted [OF this, of 1 "[(0, Standard, 1)]"]
  obtain e where exec: "metered_exec meter_envs (meter_at 1 1 [(0, Standard, 1)]) example_request Reserved =
      (meter_at 2 2 [(0, Standard, 1), (0, Reserved, 1)], Inl e)" by (auto simp: numeral_2_eq_2)
  have "named_maps (JObj []) [] = Inr (bt_empty, bt_empty)" by (simp add: named_maps_def)
  moreover have "call_priority_for (Some example_caller) = Reserved"
    by (simp add: call_priority_for_def example_caller_def)
  ultimately show ?thesis
    using exec example_read_checked
    by (simp add: serve_def get_mist_self_def dispatch_named_def dispatch_catalogued_read_def example_read_def [symmetric]
        meter_env_def meter_world_def Let_def)
qed

theorem server_keeps_human_reserve_witness:
  "\<exists>ids w ts. interleaved meter_env (\<lambda>_. True) (metered_refresh meter_envs) (meter_world (meter_at 0 0 [])) ids w ts \<and>
     mt_log (w_client w) = [(0, Standard, 1), (0, Reserved, 1), (0, Standard, 0)] \<and>
     sent_in 0 (\<lambda>p. p = Standard) (mt_log (w_client w)) \<le> 1"
proof -
  let ?inter = "interleaved meter_env (\<lambda>_. True) (metered_refresh meter_envs) (meter_world (meter_at 0 0 []))"
  let ?log = "[(0, Standard, 1), (0, Reserved, 1), (0, Standard, 0)]"
  let ?read = "meter_at 2 2 [(0, Standard, 1), (0, Reserved, 1)]"
  obtain st where "try_acquire 1 1 Standard (meter_budget 0) = (meter_budget 1, Inr st)" using meter_acquire(1) by blast
  from meter_granted [OF this, of 0 "[]"] have first: "fst (metered_exec meter_envs (meter_at 0 0 []) example_request Standard) =
      meter_at 1 1 [(0, Standard, 1)]" by auto
  from meter_refreshed [OF call_start, of "meter_world (meter_at 0 0 [])"] first
  have "?inter [] (meter_world (meter_at 1 1 [(0, Standard, 1)])) []" by (simp add: meter_world_def)
  moreover obtain evs where "serve meter_env (ReadTool (Some example_caller) (GetMistSelf (JObj [])))
      (meter_world (meter_at 1 1 [(0, Standard, 1)])) = (meter_world ?read)\<lparr>w_events := evs\<rparr>"
    using meter_read by blast
  ultimately obtain ids ts where "?inter ids ((meter_world ?read)\<lparr>w_events := evs\<rparr>) ts"
    using interleaved_call [OF _ TrueI] by metis
  from meter_refreshed [OF this]
  have "?inter ids ((meter_world (meter_at 2 3 ?log))\<lparr>w_events := evs\<rparr>) ts"
    by (simp add: meter_refused meter_world_def)
  then obtain w where w: "?inter ids w ts" "w_client w = meter_at 2 3 ?log"
    by (rule that) (simp add: meter_world_def)
  moreover have "metered_server meter_envs (ce_server meter_env)" by (simp add: metered_server_def meter_env_def)
  moreover have "fresh_meter 0 2 1 (w_client (meter_world (meter_at 0 0 [])))"
    by (simp add: fresh_meter_def meter_world_def meter_at_def meter_budget_def new_budget_def)
  ultimately have le: "sent_in 0 (\<lambda>p. p = Standard) (mt_log (w_client w)) \<le> 1"
    using server_keeps_human_reserve [of meter_envs meter_env 0 2 1 _ _ ids w ts 0] by simp
  have "mt_log (w_client w) = ?log" using w(2) by (simp add: meter_at_def)
  with w(1) le show ?thesis by blast
qed

end
