(* ===== verification/Pool.thy ===== *)
theory Pool
  imports Client
begin

text \<open>
  Concurrent calls of \<open>HttpMistClient::execute_as\<close> in \<open>client.rs\<close>, at its await points: the permit of the
  semaphore, each attempt's answer, each sleep before a retry. Between two of them a call runs without
  being suspended; the budget, the only state calls share, is charged under its lock, and the status that
  goes into a refusal takes that lock again, so other calls can come between. A call can be dropped
  where it waits, and its permit is returned. Permits are handed out in the order of the requests, as the
  semaphore of the runtime documents.
\<close>

section \<open>The calls of a client\<close>

datatype call_stage =
    Queued
  | Refused
  | Sending http_request u8
  | Sleeping http_request u8 nat
  | Returned "mist_error + mist_response"
  | Dropped

record client_call =
  cl_env :: client_env
  cl_request :: mist_request
  cl_priority :: call_priority

text \<open>
  The client, the free permits and the calls that wait for one, the calls so far and the stage of each.
  \<open>po_history\<close> states the property: what happened to the client, in order.
\<close>

datatype client_op =
    Whole nat client_call
  | Charge nat nat call_priority
  | Status nat nat

record pool =
  po_client :: http_client
  po_free :: nat
  po_queue :: "nat list"
  po_calls :: "client_call list"
  po_stages :: "call_stage list"
  po_history :: "client_op list"

text \<open>A new client; the configuration says how many permits there are.\<close>

definition new_pool :: "http_client \<Rightarrow> nat \<Rightarrow> pool" where
  "new_pool hc permits = \<lparr>po_client = hc, po_free = permits, po_queue = [], po_calls = [], po_stages = [],
     po_history = []\<rparr>"

fun holds_permit :: "call_stage \<Rightarrow> bool" where
  "holds_permit Refused = True"
| "holds_permit (Sending _ _) = True"
| "holds_permit (Sleeping _ _ _) = True"
| "holds_permit _ = False"

section \<open>The steps of a call\<close>

text \<open>From the permit to the first attempt: the charge, the URL, the method, the body and the headers.\<close>

definition enter_stage ::
  "client_call \<Rightarrow> http_client \<Rightarrow> http_client \<times> call_stage" where
  "enter_stage cl hc =
     (let (t1, t2, t3, t4) = ce_clock (cl_env cl);
          (b, acquired) = try_acquire t1 t2 (cl_priority cl) (hc_budget hc);
          hc = hc\<lparr>hc_budget := b\<rparr> in
      (hc, case acquired of
         Inl _ \<Rightarrow> Refused
       | Inr _ \<Rightarrow> (case prepare_request (cl_env cl) hc (cl_request cl) of
             Inl e \<Rightarrow> Returned (Inl e)
           | Inr request \<Rightarrow> Sending request 0)))"

text \<open>The status in the error of a refused call.\<close>

definition refused_stage :: "client_call \<Rightarrow> http_client \<Rightarrow> http_client \<times> call_stage" where
  "refused_stage cl hc =
     (let (t1, t2, t3, t4) = ce_clock (cl_env cl); (b, status) = budget_status_of t3 t4 (hc_budget hc) in
      (hc\<lparr>hc_budget := b\<rparr>,
       Returned (Inl (mist_error.BudgetExhausted (st_used status) (st_hourly_limit status) (st_human_reserve status)))))"

text \<open>One turn of the loop: the answer of the attempt numbered \<open>retries_used\<close>.\<close>

definition answered_stage :: "client_call \<Rightarrow> http_client \<Rightarrow> http_request \<Rightarrow> u8 \<Rightarrow> call_stage" where
  "answered_stage cl hc request retries_used =
     (case ce_send (cl_env cl) request (unat retries_used) of
        Inl e \<Rightarrow> Returned (Inl (Service (''HTTP request failed: '' @ e)))
      | Inr response \<Rightarrow>
          if hs_status response \<noteq> 429 then Returned (finish_response (cl_env cl) hc (cl_request cl) response)
          else
            let header_retry_after =
              (case hs_header response ''Retry-After'' of None \<Rightarrow> None | Some v \<Rightarrow> parse_u64 v) in
            if retries_used \<ge> hc_max_429_retries hc then Returned (Inl (RateLimited header_retry_after))
            else Sleeping request (retries_used + 1)
              (retry_wait (hc_max_retry_wait hc) header_retry_after retries_used))"

text \<open>A call that held a permit moves on; it returns the permit when it ends.\<close>

definition moved :: "nat \<Rightarrow> call_stage \<Rightarrow> pool \<Rightarrow> pool" where
  "moved i stage P = P\<lparr>po_stages := (po_stages P)[i := stage],
     po_free := (if holds_permit stage then po_free P else Suc (po_free P))\<rparr>"

definition entered :: "nat \<Rightarrow> nat list \<Rightarrow> pool \<Rightarrow> pool" where
  "entered i waiting P =
     (let cl = po_calls P ! i; (hc, stage) = enter_stage cl (po_client P); (t1, t2, _) = ce_clock (cl_env cl) in
      (moved i stage P)\<lparr>po_client := hc, po_queue := waiting,
        po_free := (if holds_permit stage then po_free P - 1 else po_free P),
        po_history := po_history P @ [if stage = Refused then Charge t1 t2 (cl_priority cl) else Whole i cl]\<rparr>)"

definition told :: "nat \<Rightarrow> pool \<Rightarrow> pool" where
  "told i P =
     (let cl = po_calls P ! i; (hc, stage) = refused_stage cl (po_client P); (_, _, t3, t4) = ce_clock (cl_env cl) in
      (moved i stage P)\<lparr>po_client := hc, po_history := po_history P @ [Status t3 t4]\<rparr>)"

inductive pool_runs :: "pool \<Rightarrow> pool \<Rightarrow> bool" where
  permit: "po_queue P = i # waiting \<Longrightarrow> 0 < po_free P \<Longrightarrow> pool_runs P (entered i waiting P)"
| refusal: "i < length (po_stages P) \<Longrightarrow> po_stages P ! i = Refused \<Longrightarrow> pool_runs P (told i P)"
| answer: "i < length (po_stages P) \<Longrightarrow> po_stages P ! i = Sending request n \<Longrightarrow>
    pool_runs P (moved i (answered_stage (po_calls P ! i) (po_client P) request n) P)"
| wake: "i < length (po_stages P) \<Longrightarrow> po_stages P ! i = Sleeping request n wait \<Longrightarrow>
    pool_runs P (moved i (Sending request n) P)"

text \<open>The future of a call is dropped, while it holds a permit or waits for one.\<close>

inductive pool_drops :: "pool \<Rightarrow> pool \<Rightarrow> bool" where
  abandon: "i < length (po_stages P) \<Longrightarrow> po_stages P ! i = Sending request n \<or> po_stages P ! i = Sleeping request n wait \<Longrightarrow>
    pool_drops P (moved i Dropped P)"
| leave: "i < length (po_stages P) \<Longrightarrow> po_stages P ! i = Queued \<Longrightarrow>
    pool_drops P (P\<lparr>po_stages := (po_stages P)[i := Dropped], po_queue := remove1 i (po_queue P)\<rparr>)"

text \<open>A new call, and a reader of the budget, can come at any time.\<close>

definition called :: "client_call \<Rightarrow> pool \<Rightarrow> pool" where
  "called cl P = P\<lparr>po_queue := po_queue P @ [length (po_calls P)], po_calls := po_calls P @ [cl],
     po_stages := po_stages P @ [Queued]\<rparr>"

definition status_read :: "nat \<Rightarrow> nat \<Rightarrow> pool \<Rightarrow> pool" where
  "status_read t1 t2 P = P\<lparr>po_client := fst (http_budget_status t1 t2 (po_client P)),
     po_history := po_history P @ [Status t1 t2]\<rparr>"

inductive pool_reached :: "http_client \<Rightarrow> nat \<Rightarrow> pool \<Rightarrow> bool" for hc permits where
  start: "pool_reached hc permits (new_pool hc permits)"
| arrive: "pool_reached hc permits P \<Longrightarrow> pool_reached hc permits (called cl P)"
| status: "pool_reached hc permits P \<Longrightarrow> pool_reached hc permits (status_read t1 t2 P)"
| runs: "pool_reached hc permits P \<Longrightarrow> pool_runs P P' \<Longrightarrow> pool_reached hc permits P'"
| drops: "pool_reached hc permits P \<Longrightarrow> pool_drops P P' \<Longrightarrow> pool_reached hc permits P'"

section \<open>Permits\<close>

definition permits_held :: "pool \<Rightarrow> nat" where
  "permits_held P = sum_list (map (\<lambda>s. of_bool (holds_permit s)) (po_stages P))"

definition queue_ok :: "pool \<Rightarrow> bool" where
  "queue_ok P \<longleftrightarrow> length (po_stages P) = length (po_calls P) \<and> distinct (po_queue P) \<and>
     (\<forall>i. i \<in> set (po_queue P) \<longleftrightarrow> i < length (po_stages P) \<and> po_stages P ! i = Queued)"

definition permits_ok :: "nat \<Rightarrow> pool \<Rightarrow> bool" where
  "permits_ok permits P \<longleftrightarrow> po_free P + permits_held P = permits \<and> queue_ok P"

text \<open>What a weight of the stages gains when one stage changes.\<close>

lemma weight_update:
  fixes f :: "call_stage \<Rightarrow> nat"
  assumes "i < length xs"
  shows "sum_list (map f (xs[i := s])) + f (xs ! i) = sum_list (map f xs) + f s"
proof -
  have "f (xs ! i) \<le> sum_list (map f xs)" using assms by (simp add: member_le_sum_list)
  with assms show ?thesis by (simp add: map_update sum_list_update)
qed

lemma held_update:
  assumes "i < length xs"
  shows "sum_list (map (\<lambda>s. of_bool (holds_permit s)) (xs[i := s])) + of_bool (holds_permit (xs ! i)) =
    sum_list (map (\<lambda>s. of_bool (holds_permit s)) xs) + (of_bool (holds_permit s) :: nat)"
  using weight_update [OF assms, of "\<lambda>s. of_bool (holds_permit s)"] .

lemma moved_ok:
  assumes "permits_ok permits P" and "i < length (po_stages P)" and "holds_permit (po_stages P ! i)" and "s \<noteq> Queued"
  shows "permits_ok permits (moved i s P)"
proof -
  have "po_stages P ! i \<noteq> Queued" using assms(3) by auto
  with assms(1,2,4) have "queue_ok (moved i s P)"
    by (auto simp: permits_ok_def queue_ok_def moved_def nth_list_update)
  with assms held_update [OF assms(2), of s] show ?thesis
    by (simp add: permits_ok_def permits_held_def moved_def of_bool_def split: if_splits)
qed

lemma enter_not_queued: "enter_stage cl hc = (hc', s) \<Longrightarrow> s \<noteq> Queued"
  by (auto simp: enter_stage_def Let_def split: prod.splits sum.splits)

lemma answered_not_queued: "answered_stage cl hc request n \<noteq> Queued"
  by (auto simp: answered_stage_def Let_def split: sum.splits)

lemma refused_ends: "refused_stage cl hc = (hc', s) \<Longrightarrow> \<exists>x. s = Returned x"
  by (auto simp: refused_stage_def Let_def split: prod.splits)

lemma entered_ok:
  assumes ok: "permits_ok permits P" and queue: "po_queue P = i # waiting" and free: "0 < po_free P"
  shows "permits_ok permits (entered i waiting P)"
proof -
  obtain hc s where e: "enter_stage (po_calls P ! i) (po_client P) = (hc, s)" by fastforce
  obtain t1 t2 rest where clock: "ce_clock (cl_env (po_calls P ! i)) = (t1, t2, rest)"
    by (cases "ce_clock (cl_env (po_calls P ! i))") auto
  have "queue_ok P" using ok by (simp only: permits_ok_def)
  then have q: "distinct (i # waiting)" "length (po_stages P) = length (po_calls P)"
    "\<And>j. j \<in> set (i # waiting) \<longleftrightarrow> j < length (po_stages P) \<and> po_stages P ! j = Queued"
    unfolding queue_ok_def queue by blast+
  have i: "i < length (po_stages P)" "po_stages P ! i = Queued" using q(3) [of i] by simp_all
  have stages: "po_stages (entered i waiting P) = (po_stages P)[i := s]" and rest: "po_queue (entered i waiting P) = waiting"
    and calls: "po_calls (entered i waiting P) = po_calls P"
    and left: "po_free (entered i waiting P) = (if holds_permit s then po_free P - 1 else po_free P)"
    by (simp_all add: entered_def moved_def e clock Let_def)
  have "j \<in> set waiting \<longleftrightarrow> j < length (po_stages P) \<and> (po_stages P)[i := s] ! j = Queued" for j
  proof (cases "j = i")
    case True
    then show ?thesis using q(1) i enter_not_queued [OF e] by simp
  next
    case False
    then show ?thesis using q(3) [of j] by simp
  qed
  then have "queue_ok (entered i waiting P)" using q(1,2) by (simp add: queue_ok_def stages rest calls)
  moreover have "po_free (entered i waiting P) + permits_held (entered i waiting P) = permits"
    using ok free i(2) held_update [OF i(1), of s] unfolding permits_held_def stages left permits_ok_def by simp
  ultimately show ?thesis by (simp add: permits_ok_def)
qed

lemma told_ok:
  assumes "permits_ok permits P" and "i < length (po_stages P)" and "po_stages P ! i = Refused"
  shows "permits_ok permits (told i P)"
proof -
  obtain hc s where r: "refused_stage (po_calls P ! i) (po_client P) = (hc, s)" by fastforce
  have "permits_ok permits (moved i s P)"
    using refused_ends [OF r] assms by (auto intro: moved_ok)
  then show ?thesis
    by (auto simp: told_def r Let_def permits_ok_def permits_held_def queue_ok_def split: prod.split)
qed

lemma runs_ok: "pool_runs P P' \<Longrightarrow> permits_ok permits P \<Longrightarrow> permits_ok permits P'"
  by (induction rule: pool_runs.induct) (simp_all add: entered_ok told_ok moved_ok answered_not_queued)

lemma drops_ok: "pool_drops P P' \<Longrightarrow> permits_ok permits P \<Longrightarrow> permits_ok permits P'"
proof (induction rule: pool_drops.induct)
  case (abandon i P request n wait)
  then show ?case by (auto intro: moved_ok)
next
  case (leave i P)
  with held_update [OF leave(1), of Dropped] show ?case
    by (auto simp: permits_ok_def permits_held_def queue_ok_def nth_list_update)
qed

lemma called_ok:
  assumes "permits_ok permits P"
  shows "permits_ok permits (called cl P)"
proof -
  have "queue_ok P" and free: "po_free P + permits_held P = permits" using assms by (simp_all add: permits_ok_def)
  then have len: "length (po_stages P) = length (po_calls P)" and d: "distinct (po_queue P)"
    and q: "\<And>i. i \<in> set (po_queue P) \<longleftrightarrow> i < length (po_calls P) \<and> po_stages P ! i = Queued"
    by (simp_all add: queue_ok_def)
  have "i \<in> set (po_queue (called cl P)) \<longleftrightarrow>
      i < length (po_stages (called cl P)) \<and> po_stages (called cl P) ! i = Queued" for i
    by (cases "i < length (po_calls P)") (auto simp: called_def len q nth_append)
  then show ?thesis using len d free q by (simp add: permits_ok_def queue_ok_def permits_held_def called_def)
qed

lemma pool_permits: "pool_reached hc permits P \<Longrightarrow> permits_ok permits P"
proof (induction rule: pool_reached.induct)
  case start
  then show ?case by (simp add: new_pool_def permits_ok_def permits_held_def queue_ok_def)
next
  case (status P t1 t2)
  then show ?case by (simp add: status_read_def permits_ok_def permits_held_def queue_ok_def)
qed (simp_all add: called_ok runs_ok drops_ok)

section \<open>One call after the other\<close>

text \<open>The history as a sequential program: each call whole, a refused call as its charge and its status.\<close>

fun linear_op ::
  "client_op \<Rightarrow> http_client \<times> (nat \<rightharpoonup> mist_error + mist_response) \<Rightarrow> http_client \<times> (nat \<rightharpoonup> mist_error + mist_response)" where
  "linear_op (Whole i cl) (hc, outs) =
     (let (hc, outcome, attempts, waits) = http_execute_as (cl_env cl) hc (cl_request cl) (cl_priority cl)
      in (hc, outs(i \<mapsto> outcome)))"
| "linear_op (Charge t1 t2 p) (hc, outs) = (hc\<lparr>hc_budget := fst (try_acquire t1 t2 p (hc_budget hc))\<rparr>, outs)"
| "linear_op (Status t1 t2) (hc, outs) = (fst (http_budget_status t1 t2 hc), outs)"

definition one_by_one ::
  "client_op list \<Rightarrow> http_client \<Rightarrow> http_client \<times> (nat \<rightharpoonup> mist_error + mist_response)" where
  "one_by_one history hc = fold linear_op history (hc, Map.empty)"

lemma one_by_one_snoc: "one_by_one (history @ [op]) hc = linear_op op (one_by_one history hc)"
  by (simp add: one_by_one_def)

fun whole_id :: "client_op \<Rightarrow> nat list" where
  "whole_id (Whole i cl) = [i]"
| "whole_id _ = []"

definition whole_ids :: "client_op list \<Rightarrow> nat list" where
  "whole_ids history = concat (map whole_id history)"

lemma linear_op_dom: "dom (snd (linear_op op st)) = set (whole_id op) \<union> dom (snd st)"
  by (cases op; cases st) (auto split: prod.split)

lemma one_by_one_dom: "dom (snd (one_by_one history hc)) = set (whole_ids history)"
  by (induction history rule: rev_induct)
    (auto simp: one_by_one_snoc linear_op_dom whole_ids_def one_by_one_def [of "[]"])

text \<open>What is left of a call, at the stage it is in.\<close>

definition loop_from :: "http_client \<Rightarrow> client_call \<Rightarrow> http_request \<Rightarrow> u8 \<Rightarrow> mist_error + mist_response" where
  "loop_from hc cl request n =
     and_then (fst (send_loop (ce_send (cl_env cl) request) (hc_max_429_retries hc) (hc_max_retry_wait hc) n))
       (finish_response (cl_env cl) hc (cl_request cl))"

fun stage_ok :: "http_client \<Rightarrow> client_call \<Rightarrow> (mist_error + mist_response) option \<Rightarrow> call_stage \<Rightarrow> bool" where
  "stage_ok hc cl out Queued \<longleftrightarrow> out = None"
| "stage_ok hc cl out Refused \<longleftrightarrow> out = None"
| "stage_ok hc cl out (Sending request n) \<longleftrightarrow> out = Some (loop_from hc cl request n)"
| "stage_ok hc cl out (Sleeping request n wait) \<longleftrightarrow> out = Some (loop_from hc cl request n)"
| "stage_ok hc cl out (Returned x) \<longleftrightarrow>
     out = Some x \<or> out = None \<and> (\<exists>u l r. x = Inl (mist_error.BudgetExhausted u l r))"
| "stage_ok hc cl out Dropped \<longleftrightarrow> True"

definition linear_ok :: "http_client \<Rightarrow> pool \<Rightarrow> bool" where
  "linear_ok hc P \<longleftrightarrow> length (po_stages P) = length (po_calls P) \<and>
     (\<exists>b. po_client P = hc\<lparr>hc_budget := b\<rparr>) \<and>
     distinct (whole_ids (po_history P)) \<and>
     (\<forall>i cl. Whole i cl \<in> set (po_history P) \<longrightarrow> i < length (po_calls P) \<and> po_calls P ! i = cl) \<and>
     (\<exists>outs. one_by_one (po_history P) hc = (po_client P, outs) \<and>
        (\<forall>i < length (po_calls P). stage_ok hc (po_calls P ! i) (outs i) (po_stages P ! i)) \<and>
        (\<forall>i \<ge> length (po_calls P). outs i = None))"

text \<open>Only the charge reads the budget.\<close>

lemma cursor_budget [simp]: "derive_next_cursor ops (hc\<lparr>hc_budget := b\<rparr>) i body page = derive_next_cursor ops hc i body page"
proof -
  have "next_page_cursor (hc\<lparr>hc_budget := b\<rparr>) i pg = next_page_cursor hc i pg" for pg
    by (auto simp: next_page_cursor_def split: option.split)
  moreover have "extract_search_after_cursor ops (hc\<lparr>hc_budget := b\<rparr>) v i = extract_search_after_cursor ops hc v i" for v
    by (auto simp: extract_search_after_cursor_def split: option.split json.split)
  ultimately show ?thesis
    by (simp add: derive_next_cursor_def split: option.split pagination_mode.split response_body.split)
qed

lemma budget_irrelevant [simp]:
  "prepare_request env (hc\<lparr>hc_budget := b\<rparr>) r = prepare_request env hc r"
  "finish_response env (hc\<lparr>hc_budget := b\<rparr>) r = finish_response env hc r"
  by (simp_all add: fun_eq_iff prepare_request_def build_url_def finish_response_def Let_def)

lemma loop_from_budget [simp]: "loop_from (hc\<lparr>hc_budget := b\<rparr>) cl request n = loop_from hc cl request n"
  by (simp add: loop_from_def)

lemma enter_whole:
  assumes "enter_stage cl hc = (hc', s)" and "s \<noteq> Refused" and "hc = hc0\<lparr>hc_budget := b\<rparr>"
  shows "\<exists>x attempts waits. http_execute_as (cl_env cl) hc (cl_request cl) (cl_priority cl) = (hc', x, attempts, waits) \<and>
    stage_ok hc0 cl (Some x) s"
  using assms
  by (auto simp: enter_stage_def http_execute_as_def Let_def loop_from_def split: prod.splits sum.splits)

lemma enter_refused:
  assumes "enter_stage cl hc = (hc', Refused)" and "ce_clock (cl_env cl) = (t1, t2, rest)"
  shows "hc' = hc\<lparr>hc_budget := fst (try_acquire t1 t2 (cl_priority cl) (hc_budget hc))\<rparr>"
  using assms by (auto simp: enter_stage_def Let_def split: prod.splits sum.splits)

lemma enter_budget: "enter_stage cl hc = (hc', s) \<Longrightarrow> \<exists>b. hc' = hc\<lparr>hc_budget := b\<rparr>"
  by (auto simp: enter_stage_def Let_def split: prod.splits)

lemma answered_stage_ok:
  assumes "stage_ok hc0 cl out (Sending request n)" and "hc = hc0\<lparr>hc_budget := b\<rparr>"
  shows "stage_ok hc0 cl out (answered_stage cl hc request n)"
  using assms
  by (simp add: loop_from_def answered_stage_def send_loop.simps [of _ _ _ n] Let_def split: sum.split prod.split)

lemma linear_stage:
  assumes "linear_ok hc P" and "i < length (po_stages P)"
    and "\<And>out. stage_ok hc (po_calls P ! i) out (po_stages P ! i) \<Longrightarrow> stage_ok hc (po_calls P ! i) out s"
  shows "linear_ok hc (P\<lparr>po_stages := (po_stages P)[i := s]\<rparr>)"
  using assms by (auto simp: linear_ok_def nth_list_update)

lemma linear_moved:
  assumes "linear_ok hc P" and "i < length (po_stages P)"
    and "\<And>out. stage_ok hc (po_calls P ! i) out (po_stages P ! i) \<Longrightarrow> stage_ok hc (po_calls P ! i) out s"
  shows "linear_ok hc (moved i s P)"
  using linear_stage [OF assms] by (simp add: linear_ok_def moved_def)

text \<open>A status read, and the answer to a refused call, which is one.\<close>

lemma linear_status:
  assumes "linear_ok hc P"
  shows "linear_ok hc (P\<lparr>po_client := fst (http_budget_status t1 t2 (po_client P)),
    po_history := po_history P @ [Status t1 t2]\<rparr>)"
  using assms by (auto simp: linear_ok_def one_by_one_snoc whole_ids_def http_budget_status_def split: prod.splits)

lemma refused_status:
  assumes "refused_stage cl hc = (hc', s)" and "ce_clock (cl_env cl) = (t1, t2, t3, t4)"
  shows "hc' = fst (http_budget_status t3 t4 hc)" and "\<exists>u l r. s = Returned (Inl (mist_error.BudgetExhausted u l r))"
  using assms by (auto simp: refused_stage_def http_budget_status_def Let_def split: prod.splits)

lemma linear_told:
  assumes "linear_ok hc P" and "i < length (po_stages P)" and "po_stages P ! i = Refused"
  shows "linear_ok hc (told i P)"
proof -
  obtain hc' s where r: "refused_stage (po_calls P ! i) (po_client P) = (hc', s)" by fastforce
  obtain t1 t2 t3 t4 where clock: "ce_clock (cl_env (po_calls P ! i)) = (t1, t2, t3, t4)"
    by (cases "ce_clock (cl_env (po_calls P ! i))") auto
  note status = refused_status [OF r clock]
  have "linear_ok hc (moved i s P)" using status(2) assms by (auto intro!: linear_moved)
  from linear_status [OF this, of t3 t4] show ?thesis
    by (simp add: told_def r clock status(1) moved_def linear_ok_def)
qed

lemma linear_entered:
  assumes ok: "linear_ok hc P" and i: "i < length (po_stages P)" "po_stages P ! i = Queued"
  shows "linear_ok hc (entered i waiting P)"
proof -
  let ?cl = "po_calls P ! i"
  obtain hc' s where e: "enter_stage ?cl (po_client P) = (hc', s)" by fastforce
  obtain t1 t2 rest where clock: "ce_clock (cl_env ?cl) = (t1, t2, rest)" by (cases "ce_clock (cl_env ?cl)") auto
  obtain b outs where client: "po_client P = hc\<lparr>hc_budget := b\<rparr>"
    and run: "one_by_one (po_history P) hc = (po_client P, outs)"
    and stages: "\<And>j. j < length (po_calls P) \<Longrightarrow> stage_ok hc (po_calls P ! j) (outs j) (po_stages P ! j)"
    and later: "\<And>j. j \<ge> length (po_calls P) \<Longrightarrow> outs j = None"
    and len: "length (po_stages P) = length (po_calls P)"
    using ok unfolding linear_ok_def by blast
  obtain b' where budget: "hc' = hc\<lparr>hc_budget := b'\<rparr>" using enter_budget [OF e] by (auto simp: client)
  have out: "outs i = None" using stages [of i] i len by simp
  obtain outs' where new: "linear_op (if s = Refused then Charge t1 t2 (cl_priority ?cl) else Whole i ?cl) (po_client P, outs)
      = (hc', outs')" "stage_ok hc ?cl (outs' i) s" "\<And>j. j \<noteq> i \<Longrightarrow> outs' j = outs j"
  proof (cases "s = Refused")
    case True
    with out that [of outs] enter_refused [OF e [unfolded True] clock] show ?thesis by simp
  next
    case False
    with that enter_whole [OF e False client] show ?thesis by fastforce
  qed
  have "one_by_one (po_history (entered i waiting P)) hc = (hc', outs')"
    using new(1) by (simp add: entered_def e clock one_by_one_snoc run Let_def)
  moreover have "stage_ok hc (po_calls P ! j) (outs' j) ((po_stages P)[i := s] ! j)" if "j < length (po_calls P)" for j
    using stages [OF that] new(2,3) that len by (cases "j = i") simp_all
  moreover have "outs' j = None" if "j \<ge> length (po_calls P)" for j
    using later [OF that] new(3) i(1) len that by fastforce
  moreover have "i \<notin> set (whole_ids (po_history P))"
    using out one_by_one_dom [of "po_history P" hc] by (metis domIff run snd_conv)
  then have "distinct (whole_ids (po_history (entered i waiting P)))"
    using ok by (simp add: entered_def e clock Let_def whole_ids_def linear_ok_def)
  ultimately show ?thesis
    using ok i(1) len budget unfolding linear_ok_def by (auto simp: entered_def moved_def e clock Let_def)
qed

lemma linear_called:
  assumes "linear_ok hc P"
  shows "linear_ok hc (called cl P)"
  using assms unfolding linear_ok_def by (fastforce simp: called_def nth_append less_Suc_eq)

lemma queued_head:
  assumes "permits_ok permits P" and "po_queue P = i # waiting"
  shows "i < length (po_stages P)" and "po_stages P ! i = Queued"
proof -
  have "i \<in> set (po_queue P) \<longleftrightarrow> i < length (po_stages P) \<and> po_stages P ! i = Queued"
    using assms(1) unfolding permits_ok_def queue_ok_def by blast
  then show "i < length (po_stages P)" "po_stages P ! i = Queued" by (simp_all add: assms(2))
qed

lemma linear_runs:
  assumes "pool_runs P P'" and "permits_ok permits P" and "linear_ok hc P"
  shows "linear_ok hc P'"
  using assms
proof (induction rule: pool_runs.induct)
  case (permit P i waiting)
  then show ?case by (simp add: linear_entered queued_head)
next
  case (refusal i P)
  then show ?case by (simp add: linear_told)
next
  case (answer i P request n)
  then have "\<exists>b. po_client P = hc\<lparr>hc_budget := b\<rparr>" by (simp add: linear_ok_def)
  with answer show ?case by (auto intro!: linear_moved answered_stage_ok)
next
  case (wake i P request n wait)
  then show ?case by (auto intro!: linear_moved)
qed

lemma linear_drops: "pool_drops P P' \<Longrightarrow> linear_ok hc P \<Longrightarrow> linear_ok hc P'"
proof (induction rule: pool_drops.induct)
  case (leave i P)
  from linear_stage [OF leave(3,1), of Dropped] show ?case by (simp add: linear_ok_def)
qed (auto intro!: linear_moved)

lemma pool_linear: "pool_reached hc permits P \<Longrightarrow> linear_ok hc P"
proof (induction rule: pool_reached.induct)
  case start
  then show ?case by (auto simp: new_pool_def linear_ok_def one_by_one_def whole_ids_def intro: exI [of _ "hc_budget hc"])
next
  case (runs P P')
  then show ?case using linear_runs pool_permits by blast
qed (simp_all add: linear_called linear_status status_read_def linear_drops)

section \<open>Every call ends\<close>

fun stage_work :: "nat \<Rightarrow> call_stage \<Rightarrow> nat" where
  "stage_work m Queued = 2 * m + 2"
| "stage_work m Refused = 1"
| "stage_work m (Sending _ n) = 2 * (m - unat n) + 1"
| "stage_work m (Sleeping _ n _) = 2 * (m - unat n) + 2"
| "stage_work m _ = 0"

definition retries_of :: "pool \<Rightarrow> nat" where
  "retries_of P = unat (hc_max_429_retries (po_client P))"

definition pool_work :: "pool \<Rightarrow> nat" where
  "pool_work P = sum_list (map (stage_work (retries_of P)) (po_stages P))"

definition ended :: "call_stage \<Rightarrow> bool" where
  "ended s \<longleftrightarrow> s = Dropped \<or> (\<exists>x. s = Returned x)"

lemma pool_work_bound: "pool_work P \<le> length (po_stages P) * (2 * retries_of P + 2)"
proof -
  have one: "stage_work m s \<le> 2 * m + 2" for m s by (cases s) auto
  have "sum_list (map (stage_work m) xs) \<le> length xs * (2 * m + 2)" for m xs
  proof (induction xs)
    case (Cons s xs)
    then show ?case using add_mono [OF one [of m s] Cons] by simp
  qed simp
  then show ?thesis by (simp add: pool_work_def)
qed

lemma work_decreases:
  assumes "po_stages P' = (po_stages P)[i := s]" and "retries_of P' = retries_of P" and "i < length (po_stages P)"
    and "stage_work (retries_of P) s < stage_work (retries_of P) (po_stages P ! i)"
  shows "pool_work P' < pool_work P"
  using weight_update [OF assms(3), of "stage_work (retries_of P)" s] assms by (simp add: pool_work_def)

lemma enter_work: "enter_stage cl hc = (hc', s) \<Longrightarrow> stage_work m s < stage_work m Queued"
  by (auto simp: enter_stage_def Let_def split: prod.splits sum.splits)

lemma answered_work:
  "stage_work (unat (hc_max_429_retries hc)) (answered_stage cl hc request n)
     < stage_work (unat (hc_max_429_retries hc)) (Sending request n)"
  by (auto simp: answered_stage_def Let_def not_le unat_Suc_word word_less_nat_alt split: sum.split)

lemma runs_work:
  assumes "pool_runs P P'" and "permits_ok permits P"
  shows "pool_work P' < pool_work P \<and> retries_of P' = retries_of P \<and> po_calls P' = po_calls P"
  using assms
proof (induction rule: pool_runs.induct)
  case (permit P i waiting)
  obtain hc s where e: "enter_stage (po_calls P ! i) (po_client P) = (hc, s)" by fastforce
  have same: "retries_of (entered i waiting P) = retries_of P"
    using enter_budget [OF e] by (auto simp: retries_of_def entered_def e Let_def split: prod.split)
  have "po_stages (entered i waiting P) = (po_stages P)[i := s]" "po_calls (entered i waiting P) = po_calls P"
    by (simp_all add: entered_def moved_def e Let_def split: prod.split)
  with same queued_head [OF permit(3,1)] enter_work [OF e, of "retries_of P"] show ?case
    by (simp add: work_decreases)
next
  case (refusal i P)
  obtain hc s where r: "refused_stage (po_calls P ! i) (po_client P) = (hc, s)" by fastforce
  have same: "retries_of (told i P) = retries_of P"
    using r by (auto simp: retries_of_def told_def refused_stage_def Let_def split: prod.splits)
  have "po_stages (told i P) = (po_stages P)[i := s]" "po_calls (told i P) = po_calls P"
    by (simp_all add: told_def moved_def r Let_def split: prod.split)
  with same refusal refused_ends [OF r] show ?case by (auto intro!: work_decreases)
next
  case (answer i P request n)
  have "retries_of (moved i s P) = retries_of P" for s by (simp add: retries_of_def moved_def)
  with answer answered_work [of "po_client P"] show ?case
    by (auto simp: moved_def retries_of_def intro!: work_decreases)
next
  case (wake i P request n wait)
  then show ?case by (auto simp: moved_def retries_of_def intro!: work_decreases)
qed

lemma stuck_ended:
  assumes ok: "permits_ok permits P" and "0 < permits" and stuck: "\<not> (\<exists>Q. pool_runs P Q)"
  shows "\<forall>s \<in> set (po_stages P). ended s"
proof -
  have idle: "\<not> holds_permit (po_stages P ! i)" if "i < length (po_stages P)" for i
    using stuck pool_runs.refusal [OF that] pool_runs.answer [OF that] pool_runs.wake [OF that]
    by (cases "po_stages P ! i") auto
  then have "map (\<lambda>s. of_bool (holds_permit s)) (po_stages P) = map (\<lambda>s. 0 :: nat) (po_stages P)"
    by (auto simp: in_set_conv_nth)
  then have "permits_held P = 0" unfolding permits_held_def by (simp add: sum_list_0)
  with ok assms(2) have free: "0 < po_free P" by (simp add: permits_ok_def)
  have "po_queue P = []" using stuck pool_runs.permit [OF _ free] by (cases "po_queue P") auto
  moreover have "i \<in> set (po_queue P) \<longleftrightarrow> i < length (po_stages P) \<and> po_stages P ! i = Queued" for i
    using ok unfolding permits_ok_def queue_ok_def by blast
  ultimately have "ended (po_stages P ! i)" if "i < length (po_stages P)" for i
    using idle [OF that] that by (cases "po_stages P ! i") (auto simp: ended_def)
  then show ?thesis by (auto simp: in_set_conv_nth)
qed

lemma runs_bounded:
  assumes "(pool_runs ^^ n) P P'" and "permits_ok permits P"
  shows "n + pool_work P' \<le> pool_work P \<and> permits_ok permits P'"
  using assms(1)
proof (induction n arbitrary: P')
  case 0
  with assms(2) show ?case by simp
next
  case (Suc n)
  then obtain Q where "(pool_runs ^^ n) P Q" "pool_runs Q P'" by auto
  with Suc.IH [of Q] runs_work [of Q P'] runs_ok [of Q P'] show ?case by fastforce
qed

section \<open>Properties of concurrent calls\<close>

text \<open>C15: However many calls are made at once, at most as many hold a permit, and so are on the
  wire, as the configured concurrency; and whatever calls overlap, are refused, retry or are dropped, the budget
  and the outcomes are those of a sequential history in which every call that its budget granted is one
  uninterrupted \<open>execute_as\<close>, at most once. Only a refused call can differ, in the numbers of its refusal.\<close>

theorem calls_linearizable:
  assumes "pool_reached hc permits P"
  shows "length (filter holds_permit (po_stages P)) \<le> permits \<and> distinct (whole_ids (po_history P)) \<and>
    (\<exists>outs. one_by_one (po_history P) hc = (po_client P, outs) \<and>
       (\<forall>i cl. Whole i cl \<in> set (po_history P) \<longrightarrow> i < length (po_calls P) \<and> po_calls P ! i = cl) \<and>
       (\<forall>i < length (po_calls P). \<forall>x. po_stages P ! i = Returned x \<longrightarrow>
          outs i = Some x \<or> outs i = None \<and> (\<exists>u l r. x = Inl (mist_error.BudgetExhausted u l r))))"
proof -
  have "length (filter holds_permit xs) = sum_list (map (\<lambda>s. of_bool (holds_permit s)) xs)" for xs
    by (induction xs) simp_all
  then have "length (filter holds_permit (po_stages P)) \<le> permits"
    using pool_permits [OF assms] by (simp add: permits_ok_def permits_held_def)
  with pool_linear [OF assms] show ?thesis
    unfolding linear_ok_def by (metis stage_ok.simps(5))
qed

text \<open>C40: Calls cannot block each other for good: with at least one permit, once no new calls come the
  calls of the client take at most a bounded number of steps (attempts, sleeps, permits), and when no call can
  take another, every call has returned or was dropped.\<close>

theorem pool_drains:
  assumes "pool_reached hc permits P" and "0 < permits" and "(pool_runs ^^ n) P P'"
  shows "n \<le> length (po_calls P) * (2 * unat (hc_max_429_retries hc) + 2) \<and>
    ((\<exists>Q. pool_runs P' Q) \<or> (\<forall>s \<in> set (po_stages P'). ended s))"
proof -
  note ok = pool_permits [OF assms(1)]
  have "\<exists>b. po_client P = hc\<lparr>hc_budget := b\<rparr>" "length (po_stages P) = length (po_calls P)"
    using pool_linear [OF assms(1)] by (simp_all add: linear_ok_def)
  then have "pool_work P \<le> length (po_calls P) * (2 * unat (hc_max_429_retries hc) + 2)"
    using pool_work_bound [of P] by (auto simp: retries_of_def)
  with runs_bounded [OF assms(3) ok] stuck_ended [of permits P'] assms(2) show ?thesis by fastforce
qed

section \<open>Two calls and one permit\<close>

definition pooled_call :: client_call where
  "pooled_call = \<lparr>cl_env = example_env (answer 200), cl_request = example_request, cl_priority = Standard\<rparr>"

definition pooled :: pool where
  "pooled = called pooled_call (called pooled_call (new_pool example_client 1))"

lemma pooled_reached: "pool_reached example_client 1 pooled"
  unfolding pooled_def by (intro pool_reached.intros)

lemma pooled_fields:
  "po_queue pooled = [0, Suc 0]" "po_free pooled = 1" "po_calls pooled = [pooled_call, pooled_call]"
  "po_stages pooled = [Queued, Queued]" "po_client pooled = example_client"
  by (simp_all add: pooled_def called_def new_pool_def)

lemma pooled_enters: "\<exists>hc request. enter_stage pooled_call example_client = (hc, Sending request 0)"
proof -
  obtain b st where acq: "try_acquire 1 1 Standard (hc_budget example_client) = (b, Inr st)"
    by (simp add: try_acquire_def example_client_def new_budget_def priority_cap_def standard_cap_def
        reset_if_elapsed_def WINDOW_def sat_sub_def Let_def)
  obtain request where "prepare_request (example_env (answer 200)) example_client example_request = Inr request"
    using example_prepared [of "answer 200" "hc_budget example_client"] by (auto simp: budget_irrelevant)
  with acq show ?thesis by (simp add: enter_stage_def pooled_call_def example_env_def)
qed

lemma pooled_run:
  "\<exists>P request x. pool_runs pooled P \<and> po_stages P = [Sending request 0, Queued] \<and> po_calls P = po_calls pooled \<and>
    pool_runs P (moved 0 (Returned x) P)"
proof -
  obtain hc request where e: "enter_stage pooled_call example_client = (hc, Sending request 0)"
    using pooled_enters by blast
  let ?P = "entered 0 [Suc 0] pooled"
  have P: "po_stages ?P = [Sending request 0, Queued]" "po_calls ?P = po_calls pooled"
    by (simp_all add: entered_def moved_def pooled_fields e Let_def split: prod.split)
  have "pool_runs pooled ?P" by (rule pool_runs.permit) (simp_all add: pooled_fields)
  moreover have "pool_runs ?P (moved 0 (answered_stage pooled_call (po_client ?P) request 0) ?P)"
    using pool_runs.answer [of 0 ?P request 0] by (simp add: P pooled_fields)
  moreover have "\<exists>x. answered_stage pooled_call (po_client ?P) request 0 = Returned x"
    by (simp add: answered_stage_def pooled_call_def example_env_def answer_def)
  ultimately show ?thesis using P by metis
qed

theorem calls_linearizable_witness:
  "\<exists>(P :: pool) outs x. po_stages P = [Returned x, Queued] \<and> one_by_one (po_history P) example_client = (po_client P, outs) \<and>
    (outs 0 = Some x \<or> outs 0 = None \<and> (\<exists>u l r. x = Inl (mist_error.BudgetExhausted u l r)))"
proof -
  obtain P request x where run: "pool_runs pooled P" "po_stages P = [Sending request 0, Queued]"
      "po_calls P = po_calls pooled" "pool_runs P (moved 0 (Returned x) P)"
    using pooled_run by blast
  let ?Q = "moved 0 (Returned x) P"
  have "pool_reached example_client 1 ?Q"
    by (rule pool_reached.runs [OF pool_reached.runs [OF pooled_reached run(1)] run(4)])
  from calls_linearizable [OF this] obtain outs where run': "one_by_one (po_history ?Q) example_client = (po_client ?Q, outs)"
    and out: "\<forall>i < length (po_calls ?Q). \<forall>x. po_stages ?Q ! i = Returned x \<longrightarrow>
       outs i = Some x \<or> outs i = None \<and> (\<exists>u l r. x = Inl (mist_error.BudgetExhausted u l r))"
    by blast
  have Q: "po_stages ?Q = [Returned x, Queued]" "length (po_calls ?Q) = 2"
    by (simp_all add: moved_def run(2,3) pooled_fields)
  from out [rule_format, of 0 x] have "outs 0 = Some x \<or> outs 0 = None \<and> (\<exists>u l r. x = Inl (mist_error.BudgetExhausted u l r))"
    by (simp add: Q)
  with Q(1) run' show ?thesis by blast
qed

theorem pool_drains_witness:
  "\<exists>P. (pool_runs ^^ 2) pooled P \<and> (2 :: nat) \<le> 2 * (2 * 2 + 2) \<and>
    ((\<exists>Q. pool_runs P Q) \<or> (\<forall>s \<in> set (po_stages P). ended s))"
proof -
  obtain P x where "pool_runs pooled P" "pool_runs P (moved 0 (Returned x) P)" using pooled_run by blast
  then have two: "(pool_runs ^^ 2) pooled (moved 0 (Returned x) P)" by (auto simp: numeral_2_eq_2)
  from pool_drains [OF pooled_reached _ two] show ?thesis
    by (intro exI [of _ "moved 0 (Returned x) P"]) (simp add: two)
qed

end
