(* ===== verification/Construct.thy ===== *)
theory Construct
  imports ChangeSet
begin

text \<open>
  The client trait with its default methods (\<open>client.rs\<close>) and the constructors of the handler that are not
  the production one (\<open>server/mod.rs\<close>): the loading of the coordinator, \<open>with_client\<close>, \<open>blocked\<close> and
  \<open>from_config\<close>.
\<close>

section \<open>The client trait\<close>

text \<open>What an implementation of \<open>MistClient\<close> defines itself; the rest it takes from the trait.\<close>

record 'c client_impl =
  ci_execute :: "('c \<Rightarrow> mist_request \<Rightarrow> 'c \<times> (mist_error + mist_response)) option"
  ci_execute_as :: "('c \<Rightarrow> mist_request \<Rightarrow> call_priority \<Rightarrow> 'c \<times> (mist_error + mist_response)) option"
  ci_budget_status :: "('c \<Rightarrow> 'c \<times> budget_status option) option"
  ci_is_blocked :: "('c \<Rightarrow> bool) option"

text \<open>
  The two defaults call each other: \<open>execute\<close> is \<open>execute_as\<close> at the standard priority, and \<open>execute_as\<close>
  drops the priority and is \<open>execute\<close>. \<open>None\<close> is a call that does not return.
\<close>

datatype trait_call = TraitExecute mist_request | TraitExecuteAs mist_request call_priority

partial_function (option) trait_call_run ::
  "'c client_impl \<Rightarrow> 'c \<Rightarrow> trait_call \<Rightarrow> ('c \<times> (mist_error + mist_response)) option" where
  "trait_call_run ci c x =
     (case x of
        TraitExecute r \<Rightarrow> (case ci_execute ci of Some f \<Rightarrow> Some (f c r) | None \<Rightarrow> trait_call_run ci c (TraitExecuteAs r Standard))
      | TraitExecuteAs r p \<Rightarrow> (case ci_execute_as ci of Some f \<Rightarrow> Some (f c r p) | None \<Rightarrow> trait_call_run ci c (TraitExecute r)))"

definition trait_budget_status :: "'c client_impl \<Rightarrow> 'c \<Rightarrow> 'c \<times> budget_status option" where
  "trait_budget_status ci c = (case ci_budget_status ci of Some f \<Rightarrow> f c | None \<Rightarrow> (c, None))"

definition trait_is_blocked :: "'c client_impl \<Rightarrow> 'c \<Rightarrow> bool" where
  "trait_is_blocked ci c = (case ci_is_blocked ci of Some f \<Rightarrow> f c | None \<Rightarrow> False)"

text \<open>The two implementations of the repository.\<close>

definition blocked_client :: "unit client_impl" where
  "blocked_client = \<lparr>ci_execute = Some (\<lambda>c r. (c, blocked_execute r)), ci_execute_as = None,
     ci_budget_status = None, ci_is_blocked = Some (\<lambda>_. True)\<rparr>"

definition https_client :: "client_env \<Rightarrow> http_client client_impl" where
  "https_client env = \<lparr>ci_execute = None,
     ci_execute_as = Some (\<lambda>hc r p. case http_execute_as env hc r p of (hc', outcome, attempts, waits) \<Rightarrow> (hc', outcome)),
     ci_budget_status = Some (\<lambda>hc. case ce_clock env of (t1, t2, t3, t4) \<Rightarrow> http_budget_status t1 t2 hc),
     ci_is_blocked = None\<rparr>"

lemma trait_call_cases:
  "trait_call_run ci c (TraitExecute r) =
     (case ci_execute ci of Some f \<Rightarrow> Some (f c r) | None \<Rightarrow> trait_call_run ci c (TraitExecuteAs r Standard))"
  "trait_call_run ci c (TraitExecuteAs r p) =
     (case ci_execute_as ci of Some f \<Rightarrow> Some (f c r p) | None \<Rightarrow> trait_call_run ci c (TraitExecute r))"
  by (simp_all add: trait_call_run.simps [of ci c "TraitExecute r"] trait_call_run.simps [of ci c "TraitExecuteAs r p"]
      split: option.split)

lemma trait_call_defined:
  assumes "trait_call_run ci c x = Some y"
  shows "ci_execute ci \<noteq> None \<or> ci_execute_as ci \<noteq> None"
proof (rule trait_call_run.raw_induct [where P = "\<lambda>ci _ _ _. ci_execute ci \<noteq> None \<or> ci_execute_as ci \<noteq> None"
    and xa = "((ci, c), x)" and y = y, unfolded prod.case])
  show "trait_call_run ci c x = Some y" by (rule assms)
qed (fastforce split: trait_call.splits option.splits)

text \<open>An implementation must define one of the two: exactly then every call returns. Where it defines only
  \<open>execute\<close>, the priority is lost.\<close>

theorem trait_call_returns_iff:
  "(\<forall>c x. \<exists>y. trait_call_run ci c x = Some y) \<longleftrightarrow> ci_execute ci \<noteq> None \<or> ci_execute_as ci \<noteq> None"
proof
  assume defined: "ci_execute ci \<noteq> None \<or> ci_execute_as ci \<noteq> None"
  have "\<exists>y. trait_call_run ci c x = Some y" for c x
  proof (cases "ci_execute ci")
    case None
    with defined obtain f where "ci_execute_as ci = Some f" by auto
    with None show ?thesis by (cases x) (simp_all add: trait_call_cases)
  next
    case (Some f)
    then show ?thesis
      by (cases x; cases "ci_execute_as ci") (simp_all add: trait_call_cases)
  qed
  then show "\<forall>c x. \<exists>y. trait_call_run ci c x = Some y" by blast
next
  assume "\<forall>c x. \<exists>y. trait_call_run ci c x = Some y"
  then obtain y where "trait_call_run ci undefined undefined = Some y" by blast
  then show "ci_execute ci \<noteq> None \<or> ci_execute_as ci \<noteq> None" by (rule trait_call_defined)
qed

theorem trait_priorities:
  "trait_call_run blocked_client c (TraitExecuteAs r p) = Some (c, Inl TransportUnavailable)"
  "trait_call_run (https_client env) hc (TraitExecute r) = trait_call_run (https_client env) hc (TraitExecuteAs r Standard)"
  "trait_is_blocked blocked_client c" "\<not> trait_is_blocked (https_client env) hc"
  by (simp_all add: trait_call_cases(1)) (simp_all add: trait_call_cases blocked_client_def blocked_execute_def
      https_client_def trait_is_blocked_def)

section \<open>Constructors\<close>

text \<open>\<open>load_with_key\<close> and \<open>with_evidence\<close> are those of the change-set crate.\<close>

definition DEFAULT_APPROVAL_TIMEOUT :: nat where
  "DEFAULT_APPROVAL_TIMEOUT = 3600"

definition load_coordinator ::
  "('p option \<Rightarrow> operation_limits \<Rightarrow> nat \<Rightarrow> bool \<Rightarrow> 'k option \<Rightarrow> string + 'co) \<Rightarrow> ('e \<Rightarrow> 'co \<Rightarrow> 'co)
    \<Rightarrow> 'p option \<Rightarrow> bool \<Rightarrow> 'e option \<Rightarrow> 'k option \<Rightarrow> nat \<Rightarrow> server_error + 'co" where
  "load_coordinator load_with_key with_evidence path lab_mode evidence approval_digest_key approval_timeout =
     and_then (map_err ServerChangeSetState
       (load_with_key path change_set_limits approval_timeout lab_mode approval_digest_key)) (\<lambda>coordinator.
     Inr (case evidence of None \<Rightarrow> coordinator | Some recorder \<Rightarrow> with_evidence recorder coordinator))"

text \<open>\<open>load\<close> is the loading of the coordinator by path and lab mode, with the default timeout.\<close>

definition with_client ::
  "(string \<Rightarrow> url option) \<Rightarrow> catalog_error + catalog \<Rightarrow> ('p option \<Rightarrow> bool \<Rightarrow> string + unit) \<Rightarrow> string \<Rightarrow> string list
    \<Rightarrow> (string, string) btree \<Rightarrow> 'c client_impl \<Rightarrow> server_error + handler \<times> 'c client_impl" where
  "with_client parse_url embedded_catalog load e orgs sites client =
     and_then (with_client_options parse_url embedded_catalog (load None False) e orgs sites False) (\<lambda>h.
     Inr (h, client))"

definition blocked_handler ::
  "(string \<Rightarrow> url option) \<Rightarrow> catalog_error + catalog \<Rightarrow> ('p option \<Rightarrow> bool \<Rightarrow> string + unit) \<Rightarrow> string \<Rightarrow> string list
    \<Rightarrow> (string, string) btree \<Rightarrow> server_error + handler \<times> unit client_impl" where
  "blocked_handler parse_url embedded_catalog load e orgs sites =
     with_client parse_url embedded_catalog load e orgs sites blocked_client"

definition from_config ::
  "(string \<Rightarrow> url option) \<Rightarrow> (string \<Rightarrow> string + string) \<Rightarrow> catalog_error + catalog
    \<Rightarrow> (string \<Rightarrow> string \<Rightarrow> catalog \<Rightarrow> http_client_config \<Rightarrow> string + http_client)
    \<Rightarrow> ('p option \<Rightarrow> bool \<Rightarrow> string + unit) \<Rightarrow> mist_config \<Rightarrow> (string, string) btree \<Rightarrow> 'p
    \<Rightarrow> server_error + handler \<times> http_client" where
  "from_config parse_url load_secret embedded_catalog new_client load config sites state_path =
     from_config_with_lab_mode parse_url load_secret embedded_catalog new_client (load (Some state_path) False)
       config sites False"

text \<open>None of them makes a handler in lab mode, and each has the catalog and the organizations it was given.\<close>

theorem constructed_without_lab_mode:
  "with_client parse_url embedded_catalog load e orgs sites client = Inr (h, client') \<Longrightarrow>
     \<not> h_lab_mode h \<and> client' = client \<and> embedded_catalog = Inr (h_catalog h) \<and> h_allowed_orgs h = orgs"
  "from_config parse_url load_secret embedded_catalog new_client load config sites state_path = Inr (h, hc) \<Longrightarrow>
     \<not> h_lab_mode h \<and> embedded_catalog = Inr (h_catalog h) \<and> h_allowed_orgs h = allowed_orgs config"
  by (auto simp: with_client_def from_config_def with_client_options_def from_config_with_lab_mode_def and_then_Inr_iff
      map_err_def Let_def split: if_splits sum.splits)

section \<open>The result of a tool and its audit\<close>

record result_limits =
  max_text_bytes :: nat
  max_json_bytes :: nat

definition RESULT_LIMITS :: result_limits where
  "RESULT_LIMITS = \<lparr>max_text_bytes = 512 * 1024, max_json_bytes = 512 * 1024\<rparr>"

datatype audit_end = AuditSucceeded | AuditFailed string

text \<open>\<open>tool_result\<close> is the bounded conversion of the shared crate, which can fail for a success.\<close>

definition audited_tool_result ::
  "(result_limits \<Rightarrow> 'e + 'a \<Rightarrow> call_result) \<Rightarrow> ('e \<Rightarrow> string) \<Rightarrow> 'e + 'a \<Rightarrow> audit_end \<times> call_result" where
  "audited_tool_result tool_result show_error result =
     (let domain_error = (case result of Inl e \<Rightarrow> Some (show_error e) | Inr _ \<Rightarrow> None);
          output = tool_result RESULT_LIMITS result
      in (if cr_is_error output
          then AuditFailed (case domain_error of Some e \<Rightarrow> e
            | None \<Rightarrow> ''successful domain result failed bounded MCP result conversion'')
          else AuditSucceeded, output))"

text \<open>The audit follows what the caller gets, not what the handler computed.\<close>

theorem audit_follows_output:
  "fst (audited_tool_result tool_result show_error result) = AuditSucceeded \<longleftrightarrow>
     \<not> cr_is_error (snd (audited_tool_result tool_result show_error result))"
  by (simp add: audited_tool_result_def Let_def)

section \<open>What the server says of itself\<close>

record server_info =
  si_tools :: bool
  si_name :: string
  si_version :: string
  si_instructions :: string

text \<open>\<open>version\<close> is the version of the package at build time.\<close>

definition get_info :: "string \<Rightarrow> server_info" where
  "get_info version = \<lparr>si_tools = True, si_name = ''rustmistmcp'', si_version = version,
     si_instructions = ''HPE Juniper Mist MCP server. Read tools dominate the surface; batch-1 ''
       @ ''WAN edge mutations exist only behind the plan_mist_change -> ''
       @ ''approve_mist_change_set -> apply_mist_change_set lifecycle, and ''
       @ ''approval must come from a principal other than the planner. Use ''
       @ ''named workflows first; catalog dispatchers accept operation IDs, ''
       @ ''never methods or URLs.''\<rparr>"

end
