(* ===== verification/SiteDiscovery.thy ===== *)
theory SiteDiscovery
  imports Dispatch
begin

text \<open>
  \<open>site_discovery.rs\<close>: walking \<open>listOrgSites\<close> for every configured organization, merging a pass
  into the table of a running server, and the refresh loop; and the use of it at startup in
  \<open>main.rs\<close>. The client is a function on its state; log messages are not modelled. The map that
  the source fills through \<open>&mut\<close> is passed and returned, also where an organization fails.
\<close>

section \<open>One organization\<close>

definition LIST_ORG_SITES_OPERATION :: string where "LIST_ORG_SITES_OPERATION = ''listOrgSites''"
definition PAGE_LIMIT :: nat where "PAGE_LIMIT = 100"
definition MAX_PAGES_PER_ORG :: nat where "MAX_PAGES_PER_ORG = 64"
definition MAX_TOTAL_SITES :: nat where "MAX_TOTAL_SITES = 4096"

lemmas discovery_limits = PAGE_LIMIT_def MAX_PAGES_PER_ORG_def MAX_TOTAL_SITES_def

datatype org_discovery_error = DiscoveryMist mist_error | DiscoveryStatus u16 | NotAnArray

definition variant_name :: "org_discovery_error \<Rightarrow> string" where
  "variant_name e = (case e of
     DiscoveryMist (InvalidResponse _ _) \<Rightarrow> ''invalid listOrgSites response''
   | DiscoveryMist _ \<Rightarrow> ''listOrgSites request failed''
   | DiscoveryStatus _ \<Rightarrow> ''listOrgSites returned a non-2xx status''
   | NotAnArray \<Rightarrow> ''listOrgSites response was not a JSON array'')"

datatype org_outcome = Complete | Truncated

type_synonym sites = "(string, string) btree"

record site_discovery =
  sd_sites :: sites
  sd_incomplete_orgs :: "string set"

definition page_request :: "string \<Rightarrow> nat \<Rightarrow> mist_request" where
  "page_request org_id page =
     \<lparr>req_operation_id = LIST_ORG_SITES_OPERATION, req_path = bt_from [(''org_id'', org_id)],
      req_query = bt_from [(''limit'', JNum (PosInt (of_nat PAGE_LIMIT))), (''page'', JNum (PosInt (of_nat page)))],
      req_json = None, req_cursor = None\<rparr>"

text \<open>A page: the request is validated, sent, and its response validated.\<close>

definition fetch_page ::
  "'v dispatch_env \<Rightarrow> ('c \<Rightarrow> mist_request \<Rightarrow> 'c \<times> (mist_error + mist_response)) \<Rightarrow> catalog \<Rightarrow> url
    \<Rightarrow> string \<Rightarrow> 'c \<Rightarrow> nat \<Rightarrow> 'c \<times> (org_discovery_error + json list)" where
  "fetch_page env execute c origin org_id client page =
     (case request_validate (de_schema env) c origin (page_request org_id page) of
        Inl e \<Rightarrow> (client, Inl (DiscoveryMist e))
      | Inr request \<Rightarrow>
          (case execute client request of (client', outcome) \<Rightarrow> (client',
             and_then (map_err DiscoveryMist outcome) (\<lambda>response.
             if resp_operation_id response \<noteq> LIST_ORG_SITES_OPERATION
             then Inl (DiscoveryMist (InvalidResponse LIST_ORG_SITES_OPERATION
               ''response operation does not match request operation''))
             else and_then (map_err DiscoveryMist
                 (response_validate (de_schema env) (de_response_json env) c origin response)) (\<lambda>response.
               if \<not> (200 \<le> resp_status response \<and> resp_status response < 300)
               then Inl (DiscoveryStatus (resp_status response))
               else case resp_body response of
                   BodyJson (JArr page_sites) \<Rightarrow> Inr page_sites
                 | _ \<Rightarrow> Inl NotAnArray)))))"

text \<open>The entries of a page; the second result is whether the cap was hit.\<close>

definition site_id_of :: "json \<Rightarrow> string option" where
  "site_id_of site = Option.bind (jget site ''id'') as_str"

fun insert_sites :: "string \<Rightarrow> json list \<Rightarrow> sites \<Rightarrow> sites \<times> bool" where
  "insert_sites org_id [] sites = (sites, False)"
| "insert_sites org_id (site # rest) sites =
     (case site_id_of site of
        None \<Rightarrow> insert_sites org_id rest sites
      | Some site_id \<Rightarrow>
          if \<not> is_ok (target_site site_id) then insert_sites org_id rest sites
          else if length sites \<ge> MAX_TOTAL_SITES \<and> \<not> bt_contains_key sites site_id then (sites, True)
          else insert_sites org_id rest (bt_insert site_id org_id sites))"

text \<open>The pages in order, until one is short, a request fails or the cap is hit.\<close>

fun discover_pages ::
  "('c \<Rightarrow> nat \<Rightarrow> 'c \<times> (org_discovery_error + json list)) \<Rightarrow> string \<Rightarrow> nat list \<Rightarrow> 'c \<Rightarrow> sites
    \<Rightarrow> 'c \<times> sites \<times> (org_discovery_error + org_outcome)" where
  "discover_pages fetch org_id [] client sites = (client, sites, Inr Complete)"
| "discover_pages fetch org_id (page # pages) client sites =
     (case fetch client page of
        (client', Inl e) \<Rightarrow> (client', sites, Inl e)
      | (client', Inr page_sites) \<Rightarrow>
          (case insert_sites org_id page_sites sites of
             (sites', True) \<Rightarrow> (client', sites', Inr Truncated)
           | (sites', False) \<Rightarrow>
               if length page_sites < PAGE_LIMIT then (client', sites', Inr Complete)
               else discover_pages fetch org_id pages client' sites'))"

definition discover_org_sites ::
  "'v dispatch_env \<Rightarrow> ('c \<Rightarrow> mist_request \<Rightarrow> 'c \<times> (mist_error + mist_response)) \<Rightarrow> catalog \<Rightarrow> url
    \<Rightarrow> string \<Rightarrow> 'c \<Rightarrow> sites \<Rightarrow> 'c \<times> sites \<times> (org_discovery_error + org_outcome)" where
  "discover_org_sites env execute c origin org_id client sites =
     discover_pages (fetch_page env execute c origin org_id) org_id [1..<Suc MAX_PAGES_PER_ORG] client sites"

section \<open>All organizations\<close>

text \<open>One organization's pass, over the client, the table and the organizations so far incomplete.\<close>

fun discover_step ::
  "(string \<Rightarrow> 'c \<Rightarrow> sites \<Rightarrow> 'c \<times> sites \<times> (org_discovery_error + org_outcome))
    \<Rightarrow> string \<Rightarrow> 'c \<times> sites \<times> string set \<Rightarrow> 'c \<times> sites \<times> string set" where
  "discover_step org_sites org_id (client, sites, incomplete_orgs) =
     (case org_sites org_id client sites of
        (client', sites', Inr Complete) \<Rightarrow> (client', sites', incomplete_orgs)
      | (client', sites', _) \<Rightarrow> (client', sites', insert org_id incomplete_orgs))"

definition discover_sites ::
  "'v dispatch_env \<Rightarrow> ('c \<Rightarrow> mist_request \<Rightarrow> 'c \<times> (mist_error + mist_response)) \<Rightarrow> catalog \<Rightarrow> url
    \<Rightarrow> string list \<Rightarrow> 'c \<Rightarrow> 'c \<times> site_discovery" where
  "discover_sites env execute c origin orgs client =
     (case fold (discover_step (discover_org_sites env execute c origin)) orgs (client, bt_empty, {}) of
        (client', sites, incomplete_orgs) \<Rightarrow>
          (client', \<lparr>sd_sites = sites, sd_incomplete_orgs = incomplete_orgs\<rparr>))"

definition merge_refresh :: "site_discovery \<Rightarrow> sites \<Rightarrow> sites" where
  "merge_refresh discovered previous =
     (if sd_incomplete_orgs discovered = {} then sd_sites discovered
      else fold (\<lambda>(site_id, org_id) sites.
             if org_id \<in> sd_incomplete_orgs discovered then bt_insert site_id org_id sites else sites)
           previous (filter (\<lambda>(_, org_id). org_id \<notin> sd_incomplete_orgs discovered) (sd_sites discovered)))"

section \<open>The server's table\<close>

text \<open>Startup in \<open>main.rs\<close>: the pass is taken as it is, and a table that is refused is dropped.\<close>

definition startup_sites ::
  "'v dispatch_env \<Rightarrow> ('c \<Rightarrow> mist_request \<Rightarrow> 'c \<times> (mist_error + mist_response)) \<Rightarrow> handler \<Rightarrow> 'c
    \<Rightarrow> 'c \<times> handler" where
  "startup_sites env execute h client =
     (case discover_sites env execute (h_catalog h) (h_origin h) (h_allowed_orgs h) client of
        (client', discovered) \<Rightarrow> (client', fst (replace_sites (sd_sites discovered) h)))"

text \<open>One round of \<open>spawn_refresh_loop\<close>, and a number of them.\<close>

definition refresh_round ::
  "'v dispatch_env \<Rightarrow> ('c \<Rightarrow> mist_request \<Rightarrow> 'c \<times> (mist_error + mist_response)) \<Rightarrow> 'c \<times> handler
    \<Rightarrow> 'c \<times> handler" where
  "refresh_round env execute = (\<lambda>(client, h).
     let previous = sites_snapshot h in
     case discover_sites env execute (h_catalog h) (h_origin h) (h_allowed_orgs h) client of
       (client', discovered) \<Rightarrow> (client', fst (replace_sites (merge_refresh discovered previous) h)))"

definition refresh_loop ::
  "'v dispatch_env \<Rightarrow> ('c \<Rightarrow> mist_request \<Rightarrow> 'c \<times> (mist_error + mist_response)) \<Rightarrow> nat \<Rightarrow> 'c \<times> handler
    \<Rightarrow> 'c \<times> handler" where
  "refresh_loop env execute n = refresh_round env execute ^^ n"

section \<open>What a pass keeps\<close>

text \<open>A table in use: within the cap, ordered, of canonical sites, each of a configured organization.\<close>

definition site_table_ok :: "string list \<Rightarrow> sites \<Rightarrow> bool" where
  "site_table_ok orgs sites \<longleftrightarrow> bt_wf sites \<and> sites_of_orgs sites orgs"

lemma site_table_ok_empty: "site_table_ok orgs bt_empty"
  by (simp add: site_table_ok_def sites_of_orgs_def bt.wf_emp) (simp add: bt_empty_def)

lemma site_table_ok_insert:
  assumes "site_table_ok orgs sites" "is_canonical_uuid i" "org \<in> set orgs"
    and "length sites < MAX_TOTAL_SITES \<or> bt_contains_key sites i"
  shows "site_table_ok orgs (bt_insert i org sites)"
proof -
  have wf: "bt_wf sites" using assms(1) by (simp add: site_table_ok_def)
  have "length (bt_insert i org sites) \<le> 4096"
    using assms(1,4) bt.length_ins [OF wf, of i org]
    by (auto simp: site_table_ok_def sites_of_orgs_def bt_contains_key_def discovery_limits)
  moreover have "set (bt_insert i org sites) \<subseteq> insert (i, org) (set sites)"
    using bt.entries_ins_subset [OF wf] by auto
  ultimately show ?thesis
    using assms wf bt.wf_ins [OF wf] by (auto simp: site_table_ok_def sites_of_orgs_def list_all_iff)
qed

lemma insert_sites_ok:
  "site_table_ok orgs sites \<Longrightarrow> org \<in> set orgs \<Longrightarrow> site_table_ok orgs (fst (insert_sites org entries sites))"
proof (induction org entries sites rule: insert_sites.induct)
  case (2 org site rest sites)
  then show ?case
    by (auto simp: target_site_def not_le site_table_ok_insert split: option.splits if_splits)
qed simp

lemma discover_pages_ok:
  "site_table_ok orgs sites \<Longrightarrow> org \<in> set orgs \<Longrightarrow>
     site_table_ok orgs (fst (snd (discover_pages fetch org pages client sites)))"
proof (induction pages arbitrary: client sites)
  case (Cons page pages)
  then show ?case
    using insert_sites_ok [OF Cons.prems] by (auto split: prod.split sum.split bool.split) (metis fst_conv)+
qed simp

lemma discover_fold_ok:
  "site_table_ok orgs (fst (snd st)) \<Longrightarrow> set os \<subseteq> set orgs \<Longrightarrow>
     site_table_ok orgs (fst (snd (fold (discover_step (discover_org_sites env execute c origin)) os st)))"
proof (induction os arbitrary: st)
  case (Cons org os)
  obtain client sites inc where st: "st = (client, sites, inc)" by (cases st)
  have "fst (snd (discover_step (discover_org_sites env execute c origin) org st)) =
      fst (snd (discover_org_sites env execute c origin org client sites))"
    by (auto simp: st split: prod.split sum.split org_outcome.split)
  with Cons show ?case by (simp add: st discover_org_sites_def discover_pages_ok)
qed simp

lemma discover_sites_ok:
  "site_table_ok orgs (sd_sites (snd (discover_sites env execute c origin orgs client)))"
  using discover_fold_ok [of orgs "(client, bt_empty, {})" orgs env execute c origin] site_table_ok_empty [of orgs]
  by (cases "fold (discover_step (discover_org_sites env execute c origin)) orgs (client, bt_empty, {})")
    (simp add: discover_sites_def)

lemma site_table_ok_validates:
  assumes "site_table_ok orgs sites" and "list_all is_canonical_uuid orgs"
  shows "validate_sites sites orgs = Inr ()"
  using assms
  by (auto simp: site_table_ok_def sites_of_orgs_def validate_sites_def list_ex_iff list_all_iff
      target_site_def target_org_def)

section \<open>What a refresh keeps\<close>

text \<open>A table of the previous entries of the incomplete organizations over the other fresh ones.\<close>

lemma merge_fold:
  fixes sites :: sites
  assumes "bt_wf sites"
  shows "bt_wf (fold (\<lambda>(i, org) m. if org \<in> A then bt_insert i org m else m) previous sites)"
    and "bt_wf previous \<Longrightarrow>
      bt_get (fold (\<lambda>(i, org) m. if org \<in> A then bt_insert i org m else m) previous sites) k =
        (case bt_get previous k of
           Some org \<Rightarrow> if org \<in> A then Some org else bt_get sites k
         | None \<Rightarrow> bt_get sites k)"
proof -
  show wf: "bt_wf (fold (\<lambda>(i, org) m. if org \<in> A then bt_insert i org m else m) previous sites)"
    using assms by (induction previous arbitrary: sites) (auto simp: bt.wf_ins)
  have "distinct (map fst previous) \<Longrightarrow>
      bt_get (fold (\<lambda>(i, org) m. if org \<in> A then bt_insert i org m else m) previous sites) k =
        (case map_of previous k of
           Some org \<Rightarrow> if org \<in> A then Some org else bt_get sites k
         | None \<Rightarrow> bt_get sites k)"
    using assms
  proof (induction previous arbitrary: sites)
    case (Cons p previous)
    obtain i org where p: "p = (i, org)" by (cases p)
    have "map_of previous i = None" using Cons.prems(1) p by (simp add: map_of_eq_None_iff)
    then show ?case using Cons p by (auto simp: bt.wf_ins bt.get_ins split: option.split)
  qed simp
  then show "bt_wf previous \<Longrightarrow>
      bt_get (fold (\<lambda>(i, org) m. if org \<in> A then bt_insert i org m else m) previous sites) k =
        (case bt_get previous k of
           Some org \<Rightarrow> if org \<in> A then Some org else bt_get sites k
         | None \<Rightarrow> bt_get sites k)"
    using bt_wf_distinct by (auto simp: bt_get_def)
qed

lemma bt_get_filter:
  fixes m :: sites
  assumes "bt_wf m"
  shows "bt_get (filter (\<lambda>(_, org). P org) m) k =
    (case bt_get m k of Some org \<Rightarrow> if P org then Some org else None | None \<Rightarrow> None)"
proof -
  have wf: "bt_wf (filter (\<lambda>(_, org). P org) m)" using assms by (rule bt_wf_filter)
  have iff: "bt_get (filter (\<lambda>(_, org). P org) m) k = Some org \<longleftrightarrow> bt_get m k = Some org \<and> P org" for org
    by (simp add: bt.get_Some_iff [OF wf] bt.get_Some_iff [OF assms])
  show ?thesis
  proof (cases "bt_get (filter (\<lambda>(_, org). P org) m) k")
    case (Some org)
    with iff [of org] show ?thesis by simp
  next
    case None
    with iff have "bt_get m k = Some org \<Longrightarrow> \<not> P org" for org by simp
    with None show ?thesis by (simp split: option.split)
  qed
qed

lemma merge_refresh_wf:
  assumes "bt_wf (sd_sites d)"
  shows "bt_wf (merge_refresh d previous)"
  using assms by (simp add: merge_refresh_def merge_fold(1) bt_wf_filter)

lemma merge_refresh_get:
  assumes "bt_wf (sd_sites d)" and "bt_wf previous"
  shows "bt_get (merge_refresh d previous) k =
    (case bt_get previous k of
       Some org \<Rightarrow> if org \<in> sd_incomplete_orgs d then Some org
         else (case bt_get (sd_sites d) k of
            Some org' \<Rightarrow> if org' \<in> sd_incomplete_orgs d then None else Some org' | None \<Rightarrow> None)
     | None \<Rightarrow> (case bt_get (sd_sites d) k of
            Some org' \<Rightarrow> if org' \<in> sd_incomplete_orgs d then None else Some org' | None \<Rightarrow> None))"
proof (cases "sd_incomplete_orgs d = {}")
  case True
  then show ?thesis by (simp add: merge_refresh_def split: option.split)
next
  case False
  have "bt_wf (filter (\<lambda>(_, org). org \<notin> sd_incomplete_orgs d) (sd_sites d))"
    by (rule bt_wf_filter) (rule assms(1))
  from merge_fold(2) [OF this assms(2)] show ?thesis
    using False by (simp add: merge_refresh_def bt_get_filter [OF assms(1), of "\<lambda>org. org \<notin> sd_incomplete_orgs d"] split: option.split)
qed

section \<open>The requests of a pass\<close>

text \<open>A client with the list of the requests it received.\<close>

definition recorded ::
  "('c \<Rightarrow> mist_request \<Rightarrow> 'c \<times> (mist_error + mist_response))
    \<Rightarrow> mist_request list \<times> 'c \<Rightarrow> mist_request \<Rightarrow> (mist_request list \<times> 'c) \<times> (mist_error + mist_response)" where
  "recorded execute = (\<lambda>(rs, client) r. case execute client r of (client', x) \<Rightarrow> ((rs @ [r], client'), x))"

lemma fetch_page_records:
  assumes "fetch_page env (recorded execute) c origin org (rs, client) page = ((rs', client'), x)"
  shows "(rs' = rs \<and> (\<exists>e. x = Inl e)) \<or>
    rs' = rs @ [page_request org page]"
  using assms
  by (auto simp: fetch_page_def recorded_def request_validate_Inr split: sum.splits prod.splits)

lemma discover_pages_records:
  "\<exists>n \<le> length pages. fst (fst (discover_pages (fetch_page env (recorded execute) c origin org) org pages (rs, client) sites)) =
     rs @ map (page_request org) (take n pages)"
proof (induction pages arbitrary: rs client sites)
  case (Cons page pages)
  obtain rs' client' x where fetch:
    "fetch_page env (recorded execute) c origin org (rs, client) page = ((rs', client'), x)"
    by (metis prod.exhaust)
  from fetch_page_records [OF this] show ?case
  proof (elim disjE exE conjE)
    fix e assume "rs' = rs" "x = Inl e"
    with fetch show ?thesis by (intro exI [of _ 0]) simp
  next
    assume rs': "rs' = rs @ [page_request org page]"
    show ?thesis
    proof (cases x)
      case (Inl e)
      with fetch rs' show ?thesis by (intro exI [of _ 1]) simp
    next
      case (Inr page_sites)
      obtain sites' full where ins: "insert_sites org page_sites sites = (sites', full)" by fastforce
      show ?thesis
      proof (cases "full \<or> length page_sites < PAGE_LIMIT")
        case True
        with fetch Inr ins rs' show ?thesis by (cases full) (auto intro!: exI [of _ 1])
      next
        case False
        obtain n where "n \<le> length pages" "fst (fst (discover_pages (fetch_page env (recorded execute) c origin org) org pages
            (rs', client') sites')) = rs' @ map (page_request org) (take n pages)"
          using Cons.IH by blast
        with fetch Inr ins rs' False show ?thesis by (intro exI [of _ "Suc n"]) simp
      qed
    qed
  qed
qed simp

section \<open>A client that pages\<close>

text \<open>The pages of a list of entries, as the API serves them.\<close>

definition page_of :: "json list \<Rightarrow> nat \<Rightarrow> json list" where
  "page_of entries page = take PAGE_LIMIT (drop (PAGE_LIMIT * (page - 1)) entries)"

definition site_entry :: "json \<Rightarrow> bool" where
  "site_entry v \<longleftrightarrow> (case site_id_of v of Some i \<Rightarrow> is_canonical_uuid i | None \<Rightarrow> False)"

definition insert_all :: "string \<Rightarrow> json list \<Rightarrow> sites \<Rightarrow> sites" where
  "insert_all org entries sites = fold (\<lambda>v m. bt_insert (the (site_id_of v)) org m) entries sites"

lemma insert_sites_all:
  assumes "bt_wf sites" "list_all site_entry entries" "length sites + length entries \<le> MAX_TOTAL_SITES"
  shows "insert_sites org entries sites = (insert_all org entries sites, False)"
    "length (insert_all org entries sites) \<le> length sites + length entries" "bt_wf (insert_all org entries sites)"
proof -
  have "insert_sites org entries sites = (insert_all org entries sites, False) \<and>
    length (insert_all org entries sites) \<le> length sites + length entries \<and> bt_wf (insert_all org entries sites)"
    using assms
  proof (induction entries arbitrary: sites)
    case (Cons v entries)
    then obtain i where i: "site_id_of v = Some i" "is_canonical_uuid i"
      by (auto simp: site_entry_def split: option.splits)
    have "length (bt_insert i org sites) \<le> Suc (length sites)"
      using bt.length_ins [OF Cons.prems(1), of i org] by simp
    moreover have "\<not> length sites \<ge> MAX_TOTAL_SITES" using Cons.prems(3) by simp
    ultimately show ?case
      using Cons.IH [of "bt_insert i org sites"] Cons.prems i
      by (auto simp: insert_all_def target_site_def bt.wf_ins)
  qed (simp add: insert_all_def)
  then show "insert_sites org entries sites = (insert_all org entries sites, False)"
    "length (insert_all org entries sites) \<le> length sites + length entries" "bt_wf (insert_all org entries sites)"
    by simp_all
qed

lemma insert_all_append: "insert_all org (xs @ ys) sites = insert_all org ys (insert_all org xs sites)"
  by (simp add: insert_all_def)

lemma discover_pages_all:
  assumes fetch: "\<And>client page. snd (fetch client page) = Inr (page_of entries page)"
  shows "bt_wf sites \<Longrightarrow> 1 \<le> k \<Longrightarrow> list_all site_entry (drop (PAGE_LIMIT * (k - 1)) entries) \<Longrightarrow>
    length sites + length (drop (PAGE_LIMIT * (k - 1)) entries) \<le> MAX_TOTAL_SITES \<Longrightarrow>
    length entries < PAGE_LIMIT * (k - 1 + n) \<Longrightarrow>
    snd (discover_pages fetch org [k..<k + n] client sites) =
      (insert_all org (drop (PAGE_LIMIT * (k - 1)) entries) sites, Inr Complete)"
proof (induction n arbitrary: k client sites)
  case 0
  then show ?case by (simp add: insert_all_def)
next
  case (Suc n)
  let ?rest = "drop (PAGE_LIMIT * (k - 1)) entries"
  obtain client' where f: "fetch client k = (client', Inr (page_of entries k))"
    using fetch [of client k] by (metis prod.collapse)
  have split: "?rest = page_of entries k @ drop (PAGE_LIMIT * k) entries"
  proof -
    have "PAGE_LIMIT * k = PAGE_LIMIT * (k - 1) + PAGE_LIMIT"
      using Suc.prems(2) by (metis Suc_diff_1 less_eq_Suc_le mult_Suc_right One_nat_def add.commute)
    then show ?thesis
      by (simp add: page_of_def append_take_drop_id add.commute flip: drop_drop)
  qed
  have ok: "list_all site_entry (page_of entries k)" "list_all site_entry (drop (PAGE_LIMIT * k) entries)"
    using Suc.prems(3) split by simp_all
  have len: "length sites + length (page_of entries k) \<le> MAX_TOTAL_SITES"
      "length sites + length (page_of entries k) + length (drop (PAGE_LIMIT * k) entries) \<le> MAX_TOTAL_SITES"
    using Suc.prems(4) unfolding split length_append by linarith+
  note ins = insert_sites_all [OF Suc.prems(1) ok(1) len(1), of org]
  have upt: "[k..<k + Suc n] = k # [Suc k..<Suc k + n]" by (simp add: upt_conv_Cons)
  show ?case
  proof (cases "length (page_of entries k) < PAGE_LIMIT")
    case True
    then have "drop (PAGE_LIMIT * k) entries = []"
      using Suc.prems(2) by (cases k) (auto simp: page_of_def)
    then show ?thesis
      unfolding upt using True f ins(1) split by simp
  next
    case False
    have "snd (discover_pages fetch org [Suc k..<Suc k + n] client' (insert_all org (page_of entries k) sites)) =
      (insert_all org (drop (PAGE_LIMIT * k) entries) (insert_all org (page_of entries k) sites), Inr Complete)"
      using Suc.IH [of "insert_all org (page_of entries k) sites" "Suc k" client'] ins(2,3) ok len Suc.prems(2,5)
      by simp
    then show ?thesis
      unfolding upt using False f ins(1) split insert_all_append by simp
  qed
qed

lemma insert_all_get:
  assumes "bt_wf sites"
  shows "bt_get (insert_all org entries sites) i =
    (if i \<in> (the \<circ> site_id_of) ` set entries then Some org else bt_get sites i)"
  using assms
proof (induction entries arbitrary: sites)
  case (Cons v entries)
  then show ?case by (auto simp: insert_all_def bt.wf_ins bt.get_ins)
qed (simp add: insert_all_def)

section \<open>Properties\<close>

text \<open>C19: When the API serves an organization's sites in pages, a pass that starts from an empty table
  finds exactly those sites, all of that organization, and reports them as complete: no page
  is skipped or read twice, up to the cap of 4096 sites.\<close>

theorem discovery_exact:
  assumes "\<And>client page. snd (fetch client page) = Inr (page_of entries page)"
    and "list_all site_entry entries" and "length entries \<le> MAX_TOTAL_SITES"
  shows "\<exists>sites. snd (discover_pages fetch org [1..<Suc MAX_PAGES_PER_ORG] client bt_empty) = (sites, Inr Complete) \<and>
    bt_get sites i = (if i \<in> (the \<circ> site_id_of) ` set entries then Some org else None)"
proof -
  have "length (bt_empty :: sites) = 0" by (simp add: bt_empty_def)
  then have "snd (discover_pages fetch org [1..<1 + 64] client bt_empty) = (insert_all org entries bt_empty, Inr Complete)"
    using discover_pages_all [of fetch entries, OF assms(1) bt.wf_emp, of 1 64 org client] assms(2,3)
    by (simp add: discovery_limits)
  then show ?thesis
    using insert_all_get [OF bt.wf_emp, of org entries i] by (simp add: MAX_PAGES_PER_ORG_def bt.get_emp)
qed

theorem discovery_exact_witness:
  "\<exists>sites. snd (discover_pages (\<lambda>c p. (c, Inr (page_of [JObj [(''id'', JStr example_site)]] p))) example_org
      [1..<Suc MAX_PAGES_PER_ORG] () bt_empty) = (sites, Inr Complete) \<and> bt_get sites example_site = Some example_org"
proof -
  have entry: "site_id_of (JObj [(''id'', JStr example_site)]) = Some example_site"
    by (simp add: site_id_of_def jget_def obj_get_def)
  then show ?thesis
    using discovery_exact [of "\<lambda>c p. (c, Inr (page_of [JObj [(''id'', JStr example_site)]] p))"
        "[JObj [(''id'', JStr example_site)]]" example_org "()" example_site]
    by (simp add: site_entry_def example_canonical MAX_TOTAL_SITES_def)
qed


text \<open>The table that a startup pass found is always accepted: it is within the cap and has only
  canonical sites of configured organizations, so the server serves exactly what was found.\<close>

theorem startup_table_accepted:
  assumes "list_all is_canonical_uuid (h_allowed_orgs h)"
  shows "h_sites (snd (startup_sites env execute h client)) =
    sd_sites (snd (discover_sites env execute (h_catalog h) (h_origin h) (h_allowed_orgs h) client))"
  using site_table_ok_validates [OF discover_sites_ok assms, of env execute "h_catalog h" "h_origin h" client]
  by (cases "discover_sites env execute (h_catalog h) (h_origin h) (h_allowed_orgs h) client")
    (simp add: startup_sites_def replace_sites_def)

theorem startup_table_accepted_witness:
  "h_sites (snd (startup_sites example_dispatch_env (\<lambda>c r. (c, Inl TransportUnavailable)) example_handler ())) =
    sd_sites (snd (discover_sites example_dispatch_env (\<lambda>c r. (c, Inl TransportUnavailable)) example_catalog
      example_origin [example_org] ()))"
  using startup_table_accepted [of example_handler example_dispatch_env "\<lambda>c r. (c, Inl TransportUnavailable)" "()"]
    example_canonical
  by (simp add: example_handler_def example_org_def)


definition example_fail :: "unit \<Rightarrow> mist_request \<Rightarrow> unit \<times> (mist_error + mist_response)" where
  "example_fail c r = (c, Inl TransportUnavailable)"

lemma example_discovery_fails:
  "snd (discover_sites example_dispatch_env example_fail example_catalog origin [example_org] ()) =
     \<lparr>sd_sites = bt_empty, sd_incomplete_orgs = {example_org}\<rparr>"
proof -
  have "\<exists>e. fetch_page example_dispatch_env example_fail example_catalog origin example_org () 1 = ((), Inl e)"
    by (auto simp: fetch_page_def example_fail_def and_then_def map_err_def split: sum.split)
  then show ?thesis
    by (auto simp: discover_sites_def discover_org_sites_def MAX_PAGES_PER_ORG_def upt_conv_Cons)
qed


section \<open>Where the limits bite\<close>

text \<open>A pass that stops at the page limit reports the organization as complete, although the last
  page it read was full: here the pages never end and hold no usable entry.\<close>

theorem page_limit_reported_complete:
  "discover_pages (\<lambda>c p. (c, Inr (replicate 100 JNull))) org [1..<Suc MAX_PAGES_PER_ORG] () bt_empty =
     ((), bt_empty, Inr Complete)"
proof -
  have skip: "insert_sites org (replicate n JNull) sites = (sites, False)" for n sites
    by (induction n) (simp_all add: site_id_of_def jget_def)
  have "discover_pages (\<lambda>c p. (c, Inr (replicate 100 JNull))) org pages () bt_empty = ((), bt_empty, Inr Complete)"
    for pages
    by (induction pages) (simp_all add: skip PAGE_LIMIT_def)
  then show ?thesis by blast
qed

text \<open>
  The cap bounds one pass, not the merge: with a full table of one organization whose pass fails,
  a single new site of another one makes the merged table too large, and it is refused.
\<close>

definition many_sites :: "string list" where
  "many_sites = map (\<lambda>cs. ''00000000-0000-0000-0000-'' @ cs) (List.n_lists 12 ''12'')"

definition org_a :: string where "org_a = ''aaaaaaaa-aaaa-aaaa-aaaa-aaaaaaaaaaaa''"
definition org_b :: string where "org_b = ''bbbbbbbb-bbbb-bbbb-bbbb-bbbbbbbbbbbb''"

definition full_table :: sites where
  "full_table = bt_from (map (\<lambda>i. (i, org_a)) many_sites)"

lemma many_sites_facts:
  "length many_sites = 4096" "distinct many_sites" "list_all is_canonical_uuid many_sites"
proof -
  have two: "length ''12'' = 2" by simp
  show "length many_sites = 4096"
    unfolding many_sites_def length_map length_n_lists two by simp
  show "distinct many_sites"
    unfolding many_sites_def by (simp add: distinct_map inj_on_def distinct_n_lists)
  have tail: "24 \<le> i \<Longrightarrow> set cs \<subseteq> set ''12'' \<Longrightarrow> nz \<or> cs \<noteq> [] \<Longrightarrow> uuid_scan i nz cs" for i nz cs
    by (induction cs arbitrary: i nz) (auto simp: char_class_defs)
  have "is_canonical_uuid (''00000000-0000-0000-0000-'' @ cs)" if "length cs = 12" "set cs \<subseteq> set ''12''" for cs
  proof -
    have "uuid_scan 0 False (''00000000-0000-0000-0000-'' @ cs) = uuid_scan 24 False cs"
      by (simp add: char_class_defs numeral_eq_Suc)
    moreover have "uuid_scan 24 False cs" by (rule tail) (use that in auto)
    ultimately show ?thesis using that(1) by (simp add: is_canonical_uuid_def)
  qed
  then show "list_all is_canonical_uuid many_sites"
    unfolding many_sites_def by (auto simp: list_all_iff set_n_lists)
qed

lemma full_table_facts:
  "bt_wf full_table" "length full_table = 4096" "site_table_ok [org_a, org_b] full_table"
  "bt_get full_table example_site = None" "list_all (\<lambda>(i, org). org = org_a) full_table"
proof -
  show wf: "bt_wf full_table" by (simp add: full_table_def bt_wf_from)
  have get: "bt_get (fold (\<lambda>(k, v) m. bt_insert k v m) (map (\<lambda>i. (i, org_a)) is) m) k =
      (if k \<in> set is then Some org_a else bt_get m k)" if "bt_wf m" for "is" and m :: sites and k
    using that by (induction "is" arbitrary: m) (auto simp: bt.wf_ins bt.get_ins)
  have lookup: "bt_get full_table k = (if k \<in> set many_sites then Some org_a else None)" for k
    using get [OF bt.wf_emp] by (simp add: full_table_def bt_from_def bt.get_emp)
  have entries: "set full_table = (\<lambda>i. (i, org_a)) ` set many_sites"
    by (auto simp: lookup simp flip: bt.get_Some_iff [OF wf] split: if_splits)
  have "length full_table = card (fst ` set full_table)" by (rule bt.length_entries [OF wf])
  also have "fst ` set full_table = set many_sites" by (force simp: entries)
  finally show len: "length full_table = 4096"
    using many_sites_facts(1) distinct_card [OF many_sites_facts(2)] by simp
  show "site_table_ok [org_a, org_b] full_table"
    using wf len many_sites_facts(3) by (auto simp: site_table_ok_def sites_of_orgs_def entries list_all_iff)
  show "list_all (\<lambda>(i, org). org = org_a) full_table" by (auto simp: entries list_all_iff)
  have "example_site \<notin> set many_sites"
    by (auto simp: many_sites_def example_site_def)
  then show "bt_get full_table example_site = None" by (simp add: lookup)
qed

theorem refresh_refused_over_cap:
  "replace_sites (merge_refresh \<lparr>sd_sites = [(example_site, org_b)], sd_incomplete_orgs = {org_a}\<rparr> full_table)
     (example_handler\<lparr>h_allowed_orgs := [org_a, org_b], h_sites := full_table\<rparr>) =
   (example_handler\<lparr>h_allowed_orgs := [org_a, org_b], h_sites := full_table\<rparr>, Inl ServerInvalidOrganization)"
proof -
  let ?d = "\<lparr>sd_sites = [(example_site, org_b)], sd_incomplete_orgs = {org_a}\<rparr>"
  let ?m = "merge_refresh ?d full_table"
  have ab: "org_b \<noteq> org_a" by (simp add: org_a_def org_b_def)
  have wf: "bt_wf (sd_sites ?d)" by (simp add: bt_wf_def)
  note wfm = merge_refresh_wf [OF wf, of full_table]
  have org: "bt_get full_table k = Some org \<Longrightarrow> org = org_a" for k org
    using full_table_facts(5) by (auto simp: bt.get_Some_iff [OF full_table_facts(1)] list_all_iff)
  have get: "bt_get ?m k = (if k = example_site then Some org_b else bt_get full_table k)" for k
    using ab full_table_facts(4) org
    by (auto simp: merge_refresh_get [OF wf full_table_facts(1)] split: option.split)
      (simp_all add: bt_get_def split: if_splits)
  then have "k \<in> fst ` set ?m \<longleftrightarrow> k \<in> insert example_site (fst ` set full_table)" for k
    using bt.get_None_iff [OF wfm, of k] bt.get_None_iff [OF full_table_facts(1), of k] get [of k]
    by (metis insert_iff option.distinct(1))
  then have "fst ` set ?m = insert example_site (fst ` set full_table)" by blast
  then have "length ?m = 4097"
    using full_table_facts(2,4) bt.length_entries [OF wfm] bt.length_entries [OF full_table_facts(1)]
    by (simp add: bt.get_None_iff [OF full_table_facts(1)])
  then show ?thesis by (simp add: replace_sites_def validate_sites_def)
qed

end
