(* ===== verification/Process.thy ===== *)
theory Process
  imports Startup SiteDiscovery Similarity Preflight
begin

text \<open>
  \<open>main.rs\<close>: the process from its arguments to its end, as a sequence of steps that either go on or
  end it with an error, with the trace of what they did. The steps are those of \<open>Startup\<close>,
  \<open>Config\<close>, \<open>Dispatch\<close> and \<open>SiteDiscovery\<close> in the order of \<open>main\<close>; what belongs to other crates and
  to the operating system (the shared command line, tracing, evidence, signals, token stores, TLS,
  serving) is in the record \<open>proc_env\<close>, whose values of those crates have the one type \<open>'x\<close>.
\<close>

section \<open>Arguments, environment, trace\<close>

datatype transport = Stdio | StreamableHttp

record 'x cli =
  cl_command :: "'x option"
  cl_device_mapping :: string
  cl_transport :: transport
  cl_host :: string
  cl_port :: u16
  cl_allowed_host :: "string list"
  cl_allowed_origin :: "string list"
  cl_tokens_file :: "string option"
  cl_allow_no_auth :: bool
  cl_tls_cert :: "string option"
  cl_tls_key :: "string option"
  cl_allow_insecure_bind :: bool
  cl_audit_hmac_key_file :: "string option"
  cl_audit_redact :: string
  cl_otel_endpoint :: "string option"
  cl_approval_digest_key_file :: "string option"
  cl_state_file :: string
  cl_approval_timeout_secs :: u64
  cl_lab_mode :: bool
  cl_site_refresh_interval_secs :: u64

text \<open>What is handed to the HTTP server; metrics are the constant of the call.\<close>

record 'x serving =
  sg_handler :: handler
  sg_ip :: ip_addr
  sg_port :: u16
  sg_auth :: "'x auth_config"
  sg_allowed_hosts :: "string list"
  sg_allowed_origins :: "string list"
  sg_enable_metrics :: bool
  sg_tls :: "'x option"
  sg_allow_insecure_bind :: bool

text \<open>The configuration that \<open>build_http_router\<close> composes for the shared transport crate: its identity
  and scope fields, host and origin policy, and the boundary. A bearer boundary always has the scope
  preflight, over the restricted tools.\<close>

datatype 'x boundary = BearerBoundary 'x mist_scope_preflight | NoAuthBoundary

record 'x transport_config =
  tc_identity :: "string \<times> string \<times> string \<times> string list"
  tc_allowed_hosts :: "string list"
  tc_allowed_origins :: "string list"
  tc_boundary :: "'x boundary"
  tc_metrics :: bool
  tc_insecure_bind :: bool

datatype 'x proc_event =
    PrAuditKey string
  | PrTracing
  | PrTokenCommand 'x
  | PrAuditReopen
  | PrLabWarning
  | PrCryptoProvider
  | PrConfigRead mist_config
  | PrEvidence
  | PrHandlerBuilt handler
  | PrSitesSet handler
  | PrRefreshSpawned u64
  | PrTokensLoaded string
  | PrStaleScan string string
  | PrTokenReload
  | PrSignals
  | PrServeStdio handler
  | PrServeHttp "'x serving"
  | PrRefreshAborted
  | PrEvidenceFlushed

type_synonym ('x, 'a) step = "'x proc_event list \<times> (string + 'a)"

record ('v, 'x) proc_env =
  pe_validate :: "'x cli \<Rightarrow> string + unit"
  pe_io :: io_outcome
  pe_entropy :: "string + u8 list"
  pe_files :: files
  pe_redaction :: "string \<Rightarrow> string option \<Rightarrow> string + 'x"
  pe_init_tracing :: "'x cli \<Rightarrow> 'x option \<Rightarrow> string + 'x option"
  pe_token_command :: "'x \<Rightarrow> string + unit"
  pe_install_reopen :: "'x \<Rightarrow> string + unit"
  pe_read_file :: "string \<Rightarrow> string + string"
  pe_parse_config :: "string \<Rightarrow> string + mist_config"
  pe_parse_url :: "string \<Rightarrow> url option"
  pe_lstat :: "string \<Rightarrow> string + file_metadata"
  pe_evidence_config :: "string + 'x option"
  pe_evidence_transport :: "string + 'x"
  pe_evidence_start :: "'x \<Rightarrow> 'x \<Rightarrow> string + 'x"
  pe_load_digest_key :: "string \<Rightarrow> string + 'x"
  pe_load_secret :: "string \<Rightarrow> string + string"
  pe_catalog :: "catalog_error + catalog"
  pe_new_client :: "string \<Rightarrow> string \<Rightarrow> catalog \<Rightarrow> http_client_config \<Rightarrow> string + http_client"
  pe_load_coordinator :: "string \<Rightarrow> bool \<Rightarrow> 'x option \<Rightarrow> 'x option \<Rightarrow> u64 \<Rightarrow> string + unit"
  pe_dispatch :: "'v dispatch_env"
  pe_execute :: "http_client \<Rightarrow> mist_request \<Rightarrow> http_client \<times> (mist_error + mist_response)"
  pe_resolve_token_path :: "string \<Rightarrow> string \<Rightarrow> string + resolved_token_path"
  pe_load_store :: "string \<Rightarrow> string + 'x"
  pe_path_parent :: "string \<Rightarrow> string option"
  pe_file_name :: "string \<Rightarrow> string option"
  pe_install_token_reload :: "'x \<Rightarrow> string + unit"
  pe_load_tls :: "string \<Rightarrow> string \<Rightarrow> string + 'x"
  pe_parse_ip :: "string \<Rightarrow> ip_addr option"
  pe_show_ip :: "ip_addr \<Rightarrow> string"
  pe_install_signals :: "string + unit"
  pe_stdio_start :: "handler \<Rightarrow> string + 'x"
  pe_stdio_waiting :: "'x \<Rightarrow> string + 'x"
  pe_build_router :: "handler \<Rightarrow> 'x transport_config \<Rightarrow> string + 'x"
  pe_router_error :: "ip_addr \<Rightarrow> u16 \<Rightarrow> string \<Rightarrow> string"
  pe_serve_router :: "'x \<Rightarrow> ip_addr \<Rightarrow> u16 \<Rightarrow> 'x option \<Rightarrow> u64 \<Rightarrow> string + unit"

section \<open>Steps\<close>

definition proceed :: "'a \<Rightarrow> ('x, 'a) step" where
  "proceed x = ([], Inr x)"

definition attempt :: "string \<Rightarrow> 'e + 'a \<Rightarrow> ('x, 'a) step" where
  "attempt context r = ([], map_err (\<lambda>_. context) r)"

definition attempt_saying :: "string \<Rightarrow> string + 'a \<Rightarrow> ('x, 'a) step" where
  "attempt_saying prefix r = ([], map_err (\<lambda>e. prefix @ e) r)"

definition note_that :: "'x proc_event \<Rightarrow> ('x, unit) step" where
  "note_that e = ([e], Inr ())"

definition followed :: "('x, 'a) step \<Rightarrow> ('a \<Rightarrow> ('x, 'b) step) \<Rightarrow> ('x, 'b) step" where
  "followed s f =
     (case s of
        (es, Inl e) \<Rightarrow> (es, Inl e)
      | (es, Inr x) \<Rightarrow> (es @ fst (f x), snd (f x)))"

text \<open>A string of which \<open>trim\<close> leaves nothing.\<close>

definition blank :: "string \<Rightarrow> bool" where
  "blank s \<longleftrightarrow> list_all (\<lambda>c. c \<in> set ws_encodings \<or> list_all is_ascii_ws c) (chars s)"

text \<open>\<open>init_audit\<close>.\<close>

definition init_audit :: "('v, 'x) proc_env \<Rightarrow> 'x cli \<Rightarrow> ('x, 'x option) step" where
  "init_audit env args =
     followed (case cl_audit_hmac_key_file args of
         None \<Rightarrow> proceed ()
       | Some path \<Rightarrow> followed (note_that (PrAuditKey path)) (\<lambda>_.
           attempt ''pre-provisioning audit HMAC key file''
             (snd (ensure_audit_hmac_key (pe_io env) (pe_entropy env) path (pe_files env))))) (\<lambda>_.
     followed (if blank (cl_audit_redact args) then proceed None
       else followed (attempt_saying ''invalid --audit-redact: ''
           (pe_redaction env (cl_audit_redact args) (cl_audit_hmac_key_file args))) (\<lambda>r. proceed (Some r))) (\<lambda>redaction.
     followed (if cl_otel_endpoint args = None then proceed ()
       else ([], Inl (''--otel-endpoint requires a build of rustmistmcp with mecmcp-audit's `otel` feature, ''
         @ ''which this binary does not enable''))) (\<lambda>_.
     followed (attempt ''initializing audit tracing'' (pe_init_tracing env args redaction)) (\<lambda>sink.
     followed (note_that PrTracing) (\<lambda>_. proceed sink)))))"

section \<open>The phases of \<open>main\<close>\<close>

text \<open>The SSDF evidence pipeline, when it is configured.\<close>

definition main_evidence :: "('v, 'x) proc_env \<Rightarrow> ('x, 'x option) step" where
  "main_evidence env =
     followed (attempt_saying ''SSDF evidence configuration: '' (pe_evidence_config env)) (\<lambda>config.
     (case config of
        None \<Rightarrow> proceed None
      | Some c \<Rightarrow>
          followed (attempt_saying ''building the SSDF evidence transport: '' (pe_evidence_transport env)) (\<lambda>transport.
          followed (attempt_saying ''starting the SSDF evidence pipeline: '' (pe_evidence_start env c transport)) (\<lambda>service.
          followed (note_that PrEvidence) (\<lambda>_. proceed (Some service))))))"

text \<open>The handler, over the profile and an empty site table, and then the sites.\<close>

definition main_handler :: "('v, 'x) proc_env \<Rightarrow> 'x cli \<Rightarrow> mist_config \<Rightarrow> 'x option \<Rightarrow> 'x option \<Rightarrow> ('x, handler) step" where
  "main_handler env args config evidence key =
     followed (attempt ''constructing Mist handler with HTTP client''
         (from_config_with_lab_mode (pe_parse_url env) (pe_load_secret env) (pe_catalog env) (pe_new_client env)
           (pe_load_coordinator env (cl_state_file args) (cl_lab_mode args) evidence key (cl_approval_timeout_secs args))
           config bt_empty (cl_lab_mode args))) (\<lambda>(h, client).
     followed (note_that (PrHandlerBuilt h)) (\<lambda>_.
     let h' = snd (startup_sites (pe_dispatch env) (pe_execute env) h client) in
     followed (note_that (PrSitesSet h')) (\<lambda>_. proceed h')))"

text \<open>\<open>warn_about_stale_secrets\<close>: a scan that ends nothing, whatever it finds.\<close>

definition warn_about_stale_secrets :: "('v, 'x) proc_env \<Rightarrow> string \<Rightarrow> ('x, unit) step" where
  "warn_about_stale_secrets env live_path =
     (case pe_path_parent env live_path of
        None \<Rightarrow> proceed ()
      | Some parent \<Rightarrow> (case pe_file_name env live_path of
            None \<Rightarrow> proceed ()
          | Some live_file_name \<Rightarrow> note_that (PrStaleScan parent live_file_name)))"

definition main_auth :: "('v, 'x) proc_env \<Rightarrow> 'x cli \<Rightarrow> ('x, 'x auth_config) step" where
  "main_auth env args =
     followed ([], load_http_token_store (pe_resolve_token_path env) (pe_load_store env) (cl_tokens_file args)
         (cl_allow_no_auth args)) (\<lambda>auth.
     (case (auth, Option.bind (cl_tokens_file args) (\<lambda>path. ok (resolve_tokens (pe_resolve_token_path env) path))) of
        (Authenticated store, Some resolved) \<Rightarrow>
          followed (note_that (PrTokensLoaded (rt_path resolved))) (\<lambda>_.
          followed (warn_about_stale_secrets env (rt_path resolved)) (\<lambda>_. proceed auth))
      | _ \<Rightarrow> proceed auth))"

text \<open>The servers. A router that cannot be built is an error of serving, with the address.\<close>

definition http_transport_config :: "'x serving \<Rightarrow> 'x transport_config" where
  "http_transport_config q =
     (let config = (case sg_auth q of
          Authenticated store \<Rightarrow> BearerBoundary store \<lparr>restricted_tools = RESTRICTED_TOOLS\<rparr>
        | ExplicitlyUnauthenticated \<Rightarrow> NoAuthBoundary) in
      \<lparr>tc_identity = (''rustmistmcp'', ''mist'', ''rustmistmcp'', [''org_id'', ''site_id'']),
       tc_allowed_hosts = sg_allowed_hosts q, tc_allowed_origins = sg_allowed_origins q,
       tc_boundary = config, tc_metrics = sg_enable_metrics q,
       tc_insecure_bind = sg_allow_insecure_bind q\<rparr>)"

definition build_http_router :: "('v, 'x) proc_env \<Rightarrow> 'x serving \<Rightarrow> string + 'x" where
  "build_http_router env q = pe_build_router env (sg_handler q) (http_transport_config q)"

definition serve_http :: "('v, 'x) proc_env \<Rightarrow> 'x serving \<Rightarrow> u64 \<Rightarrow> string + unit" where
  "serve_http env q shutdown_timeout =
     and_then (map_err (pe_router_error env (sg_ip q) (sg_port q)) (build_http_router env q)) (\<lambda>plan.
     pe_serve_router env plan (sg_ip q) (sg_port q) (sg_tls q) shutdown_timeout)"

definition serve_stdio :: "('v, 'x) proc_env \<Rightarrow> handler \<Rightarrow> string + unit" where
  "serve_stdio env h =
     and_then (map_err (\<lambda>_. ''starting MCP stdio service'') (pe_stdio_start env h)) (\<lambda>service.
     and_then (map_err (\<lambda>_. ''MCP stdio service exited with error'') (pe_stdio_waiting env service)) (\<lambda>_. Inr ()))"

text \<open>Serving; the value of the step is how serving ended. An error of the step is an early return,
  before anything was served.\<close>

definition main_http :: "('v, 'x) proc_env \<Rightarrow> 'x cli \<Rightarrow> handler \<Rightarrow> ('x, string + unit) step" where
  "main_http env args h =
     followed (main_auth env args) (\<lambda>auth.
     followed (case auth of
         Authenticated store \<Rightarrow> followed (attempt ''installing token snapshot reload handler''
             (pe_install_token_reload env store)) (\<lambda>_. note_that PrTokenReload)
       | ExplicitlyUnauthenticated \<Rightarrow> proceed ()) (\<lambda>_.
     followed ([], load_listener_tls (pe_load_tls env) (cl_tls_cert args) (cl_tls_key args)) (\<lambda>tls.
     followed ([], ok_or ''invalid --host IP address'' (pe_parse_ip env (cl_host args))) (\<lambda>ip.
     followed ([], refuse_lab_mode_off_loopback (pe_show_ip env) (cl_lab_mode args) ip) (\<lambda>_.
     followed ([], pe_install_signals env) (\<lambda>_.
     let q = \<lparr>sg_handler = h, sg_ip = ip, sg_port = cl_port args, sg_auth = auth,
              sg_allowed_hosts = cl_allowed_host args, sg_allowed_origins = cl_allowed_origin args, sg_enable_metrics = False,
              sg_tls = tls, sg_allow_insecure_bind = cl_allow_insecure_bind args\<rparr> in
     followed (note_that PrSignals) (\<lambda>_.
     followed (note_that (PrServeHttp q)) (\<lambda>_. proceed (serve_http env q 10)))))))))"

definition main_serve :: "('v, 'x) proc_env \<Rightarrow> 'x cli \<Rightarrow> handler \<Rightarrow> ('x, string + unit) step" where
  "main_serve env args h =
     (case cl_transport args of
        Stdio \<Rightarrow> followed (note_that (PrServeStdio h)) (\<lambda>_. proceed (serve_stdio env h))
      | StreamableHttp \<Rightarrow> main_http env args h)"

text \<open>After serving, however it ended: the refresh is aborted and the evidence flushed.\<close>

definition main_shutdown :: "'x cli \<Rightarrow> 'x option \<Rightarrow> string + unit \<Rightarrow> ('x, unit) step" where
  "main_shutdown args evidence served =
     (let refresh = (if cl_site_refresh_interval_secs args > 0 then [PrRefreshAborted] else []);
          flush = (if evidence \<noteq> None then [PrEvidenceFlushed] else []) in
      (refresh @ flush, served))"

definition main_refresh :: "'x cli \<Rightarrow> ('x, unit) step" where
  "main_refresh args =
     (if cl_site_refresh_interval_secs args > 0 then note_that (PrRefreshSpawned (cl_site_refresh_interval_secs args))
      else proceed ())"

definition main_server :: "('v, 'x) proc_env \<Rightarrow> 'x cli \<Rightarrow> 'x option \<Rightarrow> ('x, unit) step" where
  "main_server env args sink =
     followed (case sink of
         None \<Rightarrow> proceed ()
       | Some s \<Rightarrow> followed (attempt ''installing audit log reopen handler'' (pe_install_reopen env s))
           (\<lambda>_. note_that PrAuditReopen)) (\<lambda>_.
     followed (if cl_lab_mode args then note_that PrLabWarning else proceed ()) (\<lambda>_.
     followed (note_that PrCryptoProvider) (\<lambda>_.
     followed (attempt (''loading '' @ cl_device_mapping args)
         (config_from_path (pe_read_file env) (pe_parse_config env) (pe_parse_url env) (pe_lstat env)
           (cl_device_mapping args))) (\<lambda>config.
     followed (note_that (PrConfigRead config)) (\<lambda>_.
     followed (main_evidence env) (\<lambda>evidence.
     followed ([], load_approval_digest_key (pe_load_digest_key env) (cl_approval_digest_key_file args)) (\<lambda>key.
     followed (main_handler env args config evidence key) (\<lambda>h.
     followed (main_refresh args) (\<lambda>_.
     followed (main_serve env args h) (\<lambda>served.
     main_shutdown args evidence served))))))))))"

definition main_process :: "('v, 'x) proc_env \<Rightarrow> 'x cli \<Rightarrow> ('x, unit) step" where
  "main_process env args =
     followed ([], pe_validate env args) (\<lambda>_.
     followed (init_audit env args) (\<lambda>sink.
     (case cl_command args of
        Some action \<Rightarrow> followed (note_that (PrTokenCommand action)) (\<lambda>_. ([], pe_token_command env action))
      | None \<Rightarrow> main_server env args sink)))"

section \<open>What the process does\<close>

lemma followed_events:
  "e \<in> set (fst (followed s f)) \<longleftrightarrow> e \<in> set (fst s) \<or> (\<exists>x. snd s = Inr x \<and> e \<in> set (fst (f x)))"
  by (auto simp: followed_def split: prod.split sum.split)

lemma followed_Inr [simp]:
  "snd (followed s f) = Inr y \<longleftrightarrow> (\<exists>x. snd s = Inr x \<and> snd (f x) = Inr y)"
  by (auto simp: followed_def split: prod.split sum.split)

lemma step_simps [simp]:
  "fst (proceed x) = []" "snd (proceed x) = Inr y \<longleftrightarrow> x = y" "fst (attempt c r) = []"
  "snd (attempt c r) = Inr y \<longleftrightarrow> r = Inr y" "fst (attempt_saying c r') = []"
  "snd (attempt_saying c r') = Inr y' \<longleftrightarrow> r' = Inr y'" "fst (note_that e) = [e]" "snd (note_that e) = Inr u"
  by (auto simp: proceed_def attempt_def attempt_saying_def note_that_def map_err_def split: sum.splits)

fun is_serving :: "'x proc_event \<Rightarrow> bool" where
  "is_serving (PrServeStdio _) = True"
| "is_serving (PrServeHttp _) = True"
| "is_serving _ = False"

fun is_shutdown :: "'x proc_event \<Rightarrow> bool" where
  "is_shutdown PrRefreshAborted = True"
| "is_shutdown PrEvidenceFlushed = True"
| "is_shutdown _ = False"

text \<open>A step of the start: it neither serves nor shuts down, nor does it start the evidence pipeline.\<close>

fun is_starting :: "'x proc_event \<Rightarrow> bool" where
  "is_starting e = (\<not> is_serving e \<and> \<not> is_shutdown e \<and> (case e of PrEvidence \<Rightarrow> False | _ \<Rightarrow> True))"

definition starting :: "('x, 'a) step \<Rightarrow> bool" where
  "starting s \<longleftrightarrow> list_all is_starting (fst s)"

lemma starting_followed: "starting s \<Longrightarrow> (\<And>x. snd s = Inr x \<Longrightarrow> starting (f x)) \<Longrightarrow> starting (followed s f)"
  by (auto simp: starting_def list_all_iff followed_events simp del: is_starting.simps)

lemma starting_simps [simp]:
  "starting (proceed x)" "starting (attempt c r)" "starting (attempt_saying c r')" "starting ([], r'')"
  "starting (note_that e) \<longleftrightarrow> is_starting e"
  by (simp_all add: starting_def)

lemma starting_init_audit: "starting (init_audit env args)"
  unfolding init_audit_def by (intro starting_followed) (auto intro!: starting_followed split: option.split)

lemma starting_handler: "starting (main_handler env args config evidence key)"
  unfolding main_handler_def by (intro starting_followed) (auto simp: Let_def intro!: starting_followed)

lemma starting_stale: "starting (warn_about_stale_secrets env path)"
  by (simp add: warn_about_stale_secrets_def split: option.split)

lemma starting_auth: "starting (main_auth env args)"
  unfolding main_auth_def
  by (intro starting_followed)
    (auto intro!: starting_followed starting_stale split: auth_config.split option.split)

text \<open>Serving is the last event of its phase.\<close>

definition serves_last :: "('x, 'a) step \<Rightarrow> bool" where
  "serves_last s \<longleftrightarrow> (\<exists>pre err. s = (pre, Inl err) \<and> list_all is_starting pre) \<or>
     (\<exists>pre e v. s = (pre @ [e], Inr v) \<and> list_all is_starting pre \<and> is_serving e)"

lemma serves_last_followed:
  assumes "starting s" and "\<And>x. snd s = Inr x \<Longrightarrow> serves_last (f x)"
  shows "serves_last (followed s f)"
proof (cases "snd s")
  case (Inl err)
  then have "followed s f = (fst s, Inl err)" by (cases s) (simp add: followed_def)
  with assms(1) show ?thesis by (auto simp: serves_last_def starting_def)
next
  case (Inr x)
  then have "followed s f = (fst s @ fst (f x), snd (f x))" by (cases s) (simp add: followed_def)
  with assms(1) assms(2) [OF Inr] show ?thesis
    unfolding serves_last_def starting_def by (auto simp del: is_starting.simps)
qed

lemma serves_last_note: "is_serving e \<Longrightarrow> serves_last (followed (note_that e) (\<lambda>_. proceed v))"
  by (auto simp: serves_last_def followed_def note_that_def proceed_def)

lemma serves_last_serve: "serves_last (main_serve env args h)"
proof (cases "cl_transport args")
  case Stdio
  then show ?thesis by (simp add: main_serve_def serves_last_note)
next
  case StreamableHttp
  then show ?thesis
    unfolding main_serve_def transport.case main_http_def
    by (simp add: Let_def)
      (intro serves_last_followed serves_last_note starting_auth;
        auto intro: starting_followed split: auth_config.split)
qed

text \<open>The shape of a run: a start, and then, if serving began, its event and the shutdown.\<close>

definition shutdown_events :: "'x cli \<Rightarrow> bool \<Rightarrow> 'x proc_event list" where
  "shutdown_events args evidence =
     (if cl_site_refresh_interval_secs args > 0 then [PrRefreshAborted] else []) @
     (if evidence then [PrEvidenceFlushed] else [])"

definition runs :: "'x cli \<Rightarrow> bool \<Rightarrow> ('x, 'a) step \<Rightarrow> bool" where
  "runs args evidence s \<longleftrightarrow> (\<exists>pre rest. fst s = pre @ rest \<and> list_all is_starting pre \<and>
     (rest = [] \<or> (\<exists>e. is_serving e \<and> rest = e # shutdown_events args evidence)))"

lemma runs_followed:
  assumes "starting s" and "\<And>x. snd s = Inr x \<Longrightarrow> runs args b (f x)"
  shows "runs args b (followed s f)"
proof (cases "snd s")
  case (Inl err)
  then have "followed s f = (fst s, Inl err)" by (cases s) (simp add: followed_def)
  with assms(1) show ?thesis by (auto simp: runs_def starting_def)
next
  case (Inr x)
  then have s: "fst (followed s f) = fst s @ fst (f x)" by (cases s) (simp add: followed_def)
  obtain pre rest where "fst (f x) = pre @ rest" "list_all is_starting pre"
      "rest = [] \<or> (\<exists>e. is_serving e \<and> rest = e # shutdown_events args b)"
    using assms(2) [OF Inr] unfolding runs_def by blast
  with assms(1) s show ?thesis
    unfolding runs_def starting_def by (intro exI [of _ "fst s @ pre"] exI [of _ rest]) simp
qed

lemma runs_serve: "runs args (evidence \<noteq> None) (followed (main_serve env args h) (main_shutdown args evidence))"
proof -
  consider pre err where "main_serve env args h = (pre, Inl err)" "list_all is_starting pre"
    | pre e v where "main_serve env args h = (pre @ [e], Inr v)" "list_all is_starting pre" "is_serving e"
    using serves_last_serve unfolding serves_last_def by blast
  then show ?thesis
  proof cases
    case 1
    then show ?thesis unfolding runs_def by (intro exI [of _ pre] exI [of _ "[]"]) (simp add: followed_def)
  next
    case 2
    then show ?thesis
      unfolding runs_def by (intro exI [of _ pre] exI [of _ "e # shutdown_events args (evidence \<noteq> None)"])
        (simp add: followed_def main_shutdown_def shutdown_events_def)
  qed
qed

lemma evidence_cases:
  "(\<exists>err. main_evidence env = ([], Inl err)) \<or> main_evidence env = ([], Inr None) \<or>
   (\<exists>service. main_evidence env = ([PrEvidence], Inr (Some service)))"
  by (auto simp: main_evidence_def followed_def attempt_saying_def note_that_def proceed_def split: sum.split option.split)

text \<open>The whole of a run, with the evidence pipeline started or not.\<close>

definition run_ok :: "'x cli \<Rightarrow> ('x, 'a) step \<Rightarrow> bool" where
  "run_ok args s \<longleftrightarrow> (\<exists>pre rest. fst s = pre @ rest \<and> list_all (\<lambda>e. \<not> is_serving e \<and> \<not> is_shutdown e) pre \<and>
     (rest = [] \<or> (\<exists>e. is_serving e \<and> rest = e # shutdown_events args (PrEvidence \<in> set pre))))"

lemma run_ok_followed:
  assumes "starting s" and "\<And>x. snd s = Inr x \<Longrightarrow> run_ok args (f x)"
  shows "run_ok args (followed s f)"
proof (cases "snd s")
  case (Inl err)
  then have "followed s f = (fst s, Inl err)" by (cases s) (simp add: followed_def)
  with assms(1) show ?thesis by (auto simp: run_ok_def starting_def list_all_iff)
next
  case (Inr x)
  then have s: "fst (followed s f) = fst s @ fst (f x)" by (cases s) (simp add: followed_def)
  have new: "PrEvidence \<notin> set (fst s)" using assms(1) by (auto simp: starting_def list_all_iff)
  obtain pre rest where "fst (f x) = pre @ rest" "list_all (\<lambda>e. \<not> is_serving e \<and> \<not> is_shutdown e) pre"
      "rest = [] \<or> (\<exists>e. is_serving e \<and> rest = e # shutdown_events args (PrEvidence \<in> set pre))"
    using assms(2) [OF Inr] unfolding run_ok_def by blast
  with assms(1) s new show ?thesis
    unfolding run_ok_def starting_def
    by (intro exI [of _ "fst s @ pre"] exI [of _ rest]) (auto simp: list_all_iff)
qed

lemma run_ok_evidence:
  assumes "\<And>evidence. runs args (evidence \<noteq> None) (f evidence)"
  shows "run_ok args (followed (main_evidence env) f)"
proof -
  have quiet: "PrEvidence \<notin> set pre \<and> list_all (\<lambda>e. \<not> is_serving e \<and> \<not> is_shutdown e) pre"
    if "list_all is_starting pre" for pre :: "'x proc_event list"
    using that by (auto simp: list_all_iff)
  from evidence_cases [of env] show ?thesis
  proof (elim disjE exE)
    fix err assume "main_evidence env = ([], Inl err)"
    then show ?thesis by (simp add: run_ok_def followed_def)
  next
    assume e: "main_evidence env = ([], Inr None)"
    obtain pre rest where "fst (f None) = pre @ rest" "list_all is_starting pre"
        "rest = [] \<or> (\<exists>e. is_serving e \<and> rest = e # shutdown_events args False)"
      using assms [of None] unfolding runs_def by auto
    with quiet [of pre] e show ?thesis
      unfolding run_ok_def by (intro exI [of _ pre] exI [of _ rest]) (simp add: followed_def)
  next
    fix service assume e: "main_evidence env = ([PrEvidence], Inr (Some service))"
    obtain pre rest where "fst (f (Some service)) = pre @ rest" "list_all is_starting pre"
        "rest = [] \<or> (\<exists>e. is_serving e \<and> rest = e # shutdown_events args True)"
      using assms [of "Some service"] unfolding runs_def by auto
    with quiet [of pre] e show ?thesis
      unfolding run_ok_def by (intro exI [of _ "PrEvidence # pre"] exI [of _ rest]) (simp add: followed_def)
  qed
qed

lemma run_ok_start: "starting s \<Longrightarrow> run_ok args s"
  unfolding run_ok_def starting_def by (intro exI [of _ "fst s"] exI [of _ "[]"]) (auto simp: list_all_iff)

lemma run_ok_server: "run_ok args (main_server env args sink)"
proof -
  have tail: "runs args (evidence \<noteq> None)
      (followed ([], load_approval_digest_key (pe_load_digest_key env) (cl_approval_digest_key_file args)) (\<lambda>key.
       followed (main_handler env args config evidence key) (\<lambda>h.
       followed (main_refresh args) (\<lambda>_.
       followed (main_serve env args h) (\<lambda>served. main_shutdown args evidence served)))))" for config evidence
    by (intro runs_followed runs_serve starting_handler) (auto simp: main_refresh_def)
  show ?thesis
    unfolding main_server_def
    by (intro run_ok_followed run_ok_evidence tail) (auto intro: starting_followed split: option.split)
qed

lemma main_run_ok: "run_ok args (main_process env args)"
  unfolding main_process_def
  by (intro run_ok_followed starting_init_audit)
    (auto intro!: run_ok_followed run_ok_server run_ok_start starting_followed split: option.split)

section \<open>What is served\<close>

lemma not_serving: "starting s \<Longrightarrow> PrServeHttp q \<notin> set (fst s)"
  by (auto simp: starting_def list_all_iff)

lemma main_http_serves:
  assumes "PrServeHttp q \<in> set (fst (main_http env args h))"
  shows "load_http_token_store (pe_resolve_token_path env) (pe_load_store env) (cl_tokens_file args)
      (cl_allow_no_auth args) = Inr (sg_auth q) \<and>
    load_listener_tls (pe_load_tls env) (cl_tls_cert args) (cl_tls_key args) = Inr (sg_tls q) \<and>
    pe_parse_ip env (cl_host args) = Some (sg_ip q) \<and> (cl_lab_mode args \<longrightarrow> is_loopback (sg_ip q)) \<and>
    sg_handler q = h \<and> \<not> sg_enable_metrics q"
proof -
  have auth: "load_http_token_store (pe_resolve_token_path env) (pe_load_store env) (cl_tokens_file args)
      (cl_allow_no_auth args) = Inr auth" if "snd (main_auth env args) = Inr auth" for auth
    using that by (auto simp: main_auth_def split: auth_config.splits option.splits) (metis auth_config.exhaust)+
  have quiet: "PrServeHttp q \<notin> set (fst (main_auth env args))" by (rule not_serving [OF starting_auth])
  have lab: "refuse_lab_mode_off_loopback show_ip lab ip = Inr u \<Longrightarrow> lab \<Longrightarrow> is_loopback ip" for show_ip lab ip u
    by (simp add: refuse_lab_mode_off_loopback_def split: if_splits)
  have reload: "PrServeHttp q \<notin> set (fst (case auth of
       Authenticated store \<Rightarrow> followed (attempt ''installing token snapshot reload handler''
             (pe_install_token_reload env store)) (\<lambda>_. note_that PrTokenReload)
       | ExplicitlyUnauthenticated \<Rightarrow> proceed ()))" for auth
    by (cases auth) (auto simp: followed_events)
  obtain a tls ip u where a: "snd (main_auth env args) = Inr a"
      "load_listener_tls (pe_load_tls env) (cl_tls_cert args) (cl_tls_key args) = Inr tls"
      "pe_parse_ip env (cl_host args) = Some ip"
      "refuse_lab_mode_off_loopback (pe_show_ip env) (cl_lab_mode args) ip = Inr u"
      "q = \<lparr>sg_handler = h, sg_ip = ip, sg_port = cl_port args, sg_auth = a,
            sg_allowed_hosts = cl_allowed_host args, sg_allowed_origins = cl_allowed_origin args, sg_enable_metrics = False,
            sg_tls = tls, sg_allow_insecure_bind = cl_allow_insecure_bind args\<rparr>"
    using assms quiet reload unfolding main_http_def Let_def by (auto simp: followed_events)
  with auth [OF a(1)] lab [OF a(4)] show ?thesis by simp
qed

lemma main_handler_serves:
  assumes "snd (main_handler env args config evidence key) = Inr h"
  shows "h_lab_mode h = cl_lab_mode args \<and> h_allowed_orgs h = allowed_orgs config \<and>
    site_table_ok (h_allowed_orgs h) (h_sites h)"
proof -
  obtain h0 client where built: "from_config_with_lab_mode (pe_parse_url env) (pe_load_secret env) (pe_catalog env)
      (pe_new_client env) (pe_load_coordinator env (cl_state_file args) (cl_lab_mode args) evidence key
        (cl_approval_timeout_secs args)) config bt_empty (cl_lab_mode args) = Inr (h0, client)"
      and h: "h = snd (startup_sites (pe_dispatch env) (pe_execute env) h0 client)"
    using assms by (auto simp: main_handler_def Let_def)
  from built have h0: "h_lab_mode h0 = cl_lab_mode args" "h_allowed_orgs h0 = allowed_orgs config" "h_sites h0 = bt_empty"
    by (auto simp: from_config_with_lab_mode_def and_then_Inr_iff Let_def split: if_splits)
  let ?d = "discover_sites (pe_dispatch env) (pe_execute env) (h_catalog h0) (h_origin h0) (h_allowed_orgs h0) client"
  have found: "site_table_ok (h_allowed_orgs h0) (sd_sites (snd ?d))" by (rule discover_sites_ok)
  have "h = fst (replace_sites (sd_sites (snd ?d)) h0)"
    unfolding h startup_sites_def by (cases ?d) simp
  with h0 found site_table_ok_empty [of "allowed_orgs config"] show ?thesis
    by (simp add: replace_sites_def split: sum.split)
qed

text \<open>C38: What the HTTP server is started with, in every run that starts it: the address of the arguments
  and no metrics; authentication with the scope preflight over the restricted tools, unless the
  arguments have no tokens file and the flag that acknowledges it; lab mode only on a loopback address; and a handler in that mode whose site
  table is in order, of the organizations of a profile that was read.\<close>

theorem http_serves_guarded:
  assumes "PrServeHttp q \<in> set (fst (main_process env args))"
  shows "cl_command args = None \<and> cl_transport args = StreamableHttp \<and> pe_parse_ip env (cl_host args) = Some (sg_ip q) \<and>
    (case tc_boundary (http_transport_config q) of
       BearerBoundary store pre \<Rightarrow> restricted_tools pre = RESTRICTED_TOOLS \<and> (\<exists>path. pe_load_store env path = Inr store)
     | NoAuthBoundary \<Rightarrow> cl_tokens_file args = None \<and> cl_allow_no_auth args) \<and>
    (cl_lab_mode args \<longrightarrow> is_loopback (sg_ip q)) \<and> \<not> tc_metrics (http_transport_config q) \<and>
    (\<exists>config. PrConfigRead config \<in> set (fst (main_process env args)) \<and>
      h_lab_mode (sg_handler q) = cl_lab_mode args \<and> h_allowed_orgs (sg_handler q) = allowed_orgs config \<and>
      site_table_ok (h_allowed_orgs (sg_handler q)) (h_sites (sg_handler q)))"
proof -
  note quiet = not_serving [OF starting_init_audit, of q env args] not_serving [OF starting_handler, of q env args]
  have evidence: "PrServeHttp q \<notin> set (fst (main_evidence env))"
    "PrServeHttp q \<notin> set (fst (main_shutdown args service served))" for service served
    using evidence_cases [of env] by (auto simp: main_shutdown_def)
  from assms quiet(1) obtain sink where none: "cl_command args = None" "pe_validate env args = Inr ()"
      "snd (init_audit env args) = Inr sink" and server: "PrServeHttp q \<in> set (fst (main_server env args sink))"
    unfolding main_process_def by (auto simp: followed_events split: option.splits)
  have within: "set (fst (main_server env args sink)) \<subseteq> set (fst (main_process env args))"
    unfolding main_process_def using none by (auto simp: followed_events)
  from server quiet evidence obtain config evidence key h where config: "PrConfigRead config \<in> set (fst (main_server env args sink))"
      and h: "snd (main_handler env args config evidence key) = Inr h"
      and serve: "PrServeHttp q \<in> set (fst (main_serve env args h))"
    unfolding main_server_def main_refresh_def by (auto simp: followed_events split: option.splits if_splits; blast)
  have http: "cl_transport args = StreamableHttp" "PrServeHttp q \<in> set (fst (main_http env args h))"
    using serve by (auto simp: main_serve_def followed_events split: transport.splits)
  note q = main_http_serves [OF http(2)]
  have auth: "case tc_boundary (http_transport_config q) of
       BearerBoundary store pre \<Rightarrow> restricted_tools pre = RESTRICTED_TOOLS \<and> (\<exists>path. pe_load_store env path = Inr store)
     | NoAuthBoundary \<Rightarrow> cl_tokens_file args = None \<and> cl_allow_no_auth args"
    using q by (cases "sg_auth q") (auto simp: http_transport_config_def load_http_token_store_def and_then_Inr_iff
        split: option.splits bool.splits)
  have "\<not> tc_metrics (http_transport_config q)" using q by (simp add: http_transport_config_def)
  with none(1) http(1) q main_handler_serves [OF h] auth config within show ?thesis
    by blast
qed

text \<open>A token command runs on the local files only: nothing of the profile, the service, the network
  or the change sets is touched.\<close>

theorem token_command_is_local:
  assumes "cl_command args = Some action"
  shows "set (fst (main_process env args)) \<subseteq>
    PrAuditKey ` set_option (cl_audit_hmac_key_file args) \<union> {PrTracing, PrTokenCommand action}"
proof -
  have "set (fst (init_audit env args)) \<subseteq> PrAuditKey ` set_option (cl_audit_hmac_key_file args) \<union> {PrTracing}"
    by (auto simp: init_audit_def followed_events split: option.splits if_splits)
  then show ?thesis
    using assms by (auto simp: main_process_def followed_events)
qed

section \<open>Witness\<close>

text \<open>Lab mode on a loopback address, without authentication.\<close>

definition lab_profile :: mist_config where
  "lab_profile = \<lparr>config_version = 1, endpoint = ''https://api.mist.com/'', credential_file = ''/token'',
     allowed_orgs = [example_org]\<rparr>"

definition lab_args :: "unit cli" where
  "lab_args = \<lparr>cl_command = None, cl_device_mapping = ''mist.json'', cl_transport = StreamableHttp,
     cl_host = ''127.0.0.1'', cl_port = 8080, cl_allowed_host = [], cl_allowed_origin = [], cl_tokens_file = None, cl_allow_no_auth = True, cl_tls_cert = None,
     cl_tls_key = None, cl_allow_insecure_bind = False, cl_audit_hmac_key_file = None, cl_audit_redact = [],
     cl_otel_endpoint = None, cl_approval_digest_key_file = None, cl_state_file = ''state.json'',
     cl_approval_timeout_secs = 3600, cl_lab_mode = True, cl_site_refresh_interval_secs = 300\<rparr>"

definition lab_proc :: "(nat, unit) proc_env" where
  "lab_proc = \<lparr>pe_validate = \<lambda>_. Inr (), pe_io = \<lparr>io_umask = 0, io_open_error = None, io_write_error = None\<rparr>,
     pe_entropy = Inr [], pe_files = \<lambda>_. None, pe_redaction = \<lambda>_ _. Inr (), pe_init_tracing = \<lambda>_ _. Inr None,
     pe_token_command = \<lambda>_. Inr (), pe_install_reopen = \<lambda>_. Inr (), pe_read_file = \<lambda>_. Inr [],
     pe_parse_config = \<lambda>_. Inr lab_profile, pe_parse_url = \<lambda>_. Some example_origin,
     pe_lstat = \<lambda>_. Inr \<lparr>meta_is_symlink = False, meta_is_file = True, meta_mode = 0x180\<rparr>,
     pe_evidence_config = Inr None, pe_evidence_transport = Inr (), pe_evidence_start = \<lambda>_ _. Inr (),
     pe_load_digest_key = \<lambda>_. Inr (), pe_load_secret = \<lambda>_. Inr ''token'', pe_catalog = Inr example_catalog,
     pe_new_client = \<lambda>_ _ _ _. Inr example_client, pe_load_coordinator = \<lambda>_ _ _ _ _. Inr (),
     pe_dispatch = example_dispatch_env, pe_execute = \<lambda>c r. (c, Inl TransportUnavailable),
     pe_resolve_token_path = \<lambda>p _. Inr \<lparr>rt_path = p, rt_used_fallback = False, rt_fallback_from = None\<rparr>,
     pe_load_store = \<lambda>_. Inr (), pe_path_parent = \<lambda>_. None, pe_file_name = \<lambda>_. None,
     pe_install_token_reload = \<lambda>_. Inr (), pe_load_tls = \<lambda>_ _. Inr (),
     pe_parse_ip = \<lambda>host. if host = ''127.0.0.1'' then Some (V4 127 0 0 1) else None, pe_show_ip = \<lambda>_. [],
     pe_install_signals = Inr (), pe_stdio_start = \<lambda>_. Inr (),
     pe_stdio_waiting = \<lambda>_. Inr (), pe_build_router = \<lambda>_ _. Inr (), pe_router_error = \<lambda>_ _ e. e,
     pe_serve_router = \<lambda>_ _ _ _ _. Inr ()\<rparr>"

lemma lab_profile_read:
  "config_from_path (pe_read_file lab_proc) (pe_parse_config lab_proc) (pe_parse_url lab_proc) (pe_lstat lab_proc) path =
     Inr lab_profile"
  "validate_mist_endpoint (\<lambda>_. Some example_origin) ''https://api.mist.com/'' = Inr example_origin"
proof -
  show endpoint: "validate_mist_endpoint (\<lambda>_. Some example_origin) ''https://api.mist.com/'' = Inr example_origin"
    by code_simp
  then show "config_from_path (pe_read_file lab_proc) (pe_parse_config lab_proc) (pe_parse_url lab_proc) (pe_lstat lab_proc) path =
     Inr lab_profile"
    by (simp add: config_from_path_def config_validate_def config_base_url_def lab_proc_def lab_profile_def
        CONFIG_VERSION_def validate_credential_file_def path_is_absolute_def starts_with_def validate_allowed_orgs_def
        MAX_ALLOWED_ORGS_def example_canonical target_org_def)
qed

lemma lab_handler_built:
  "\<exists>h. main_handler lab_proc lab_args lab_profile None None = ([PrHandlerBuilt h, PrSitesSet (snd (startup_sites
      example_dispatch_env (\<lambda>c r. (c, Inl TransportUnavailable)) h example_client))],
     Inr (snd (startup_sites example_dispatch_env (\<lambda>c r. (c, Inl TransportUnavailable)) h example_client)))"
proof -
  have "\<exists>h. from_config_with_lab_mode (pe_parse_url lab_proc) (pe_load_secret lab_proc) (pe_catalog lab_proc)
      (pe_new_client lab_proc) (pe_load_coordinator lab_proc (cl_state_file lab_args) True None None 3600)
      lab_profile bt_empty True = Inr (h, example_client)"
    using lab_profile_read(2)
    by (simp add: from_config_with_lab_mode_def lab_proc_def lab_profile_def orgs_invalid_def target_org_def
        example_canonical validate_sites_def bt_empty_def)
  then show ?thesis
    by (auto simp: main_handler_def followed_def attempt_def note_that_def proceed_def Let_def lab_args_def lab_proc_def)
qed

theorem http_serves_guarded_witness:
  "\<exists>q. PrServeHttp q \<in> set (fst (main_process lab_proc lab_args)) \<and> sg_auth q = ExplicitlyUnauthenticated \<and>
     h_lab_mode (sg_handler q) \<and> is_loopback (sg_ip q)"
proof -
  obtain h where h: "main_handler lab_proc lab_args lab_profile None None = h" "\<exists>x. snd h = Inr x"
    using lab_handler_built by fastforce
  then obtain x where x: "snd h = Inr x" by blast
  let ?q = "\<lparr>sg_handler = x, sg_ip = V4 127 0 0 1, sg_port = 8080, sg_auth = ExplicitlyUnauthenticated,
    sg_allowed_hosts = [], sg_allowed_origins = [], sg_enable_metrics = False, sg_tls = None, sg_allow_insecure_bind = False\<rparr>"
  have audit: "init_audit lab_proc lab_args = ([PrTracing], Inr None)"
    by (simp add: init_audit_def followed_def proceed_def attempt_def note_that_def map_err_def lab_args_def lab_proc_def
        blank_def)
  have evidence: "main_evidence lab_proc = ([], Inr None)"
    by (simp add: main_evidence_def followed_def attempt_saying_def map_err_def proceed_def lab_proc_def)
  have auth: "main_auth lab_proc lab_args = ([], Inr ExplicitlyUnauthenticated)"
    by (simp add: main_auth_def load_http_token_store_def followed_def proceed_def lab_args_def)
  have args: "cl_transport lab_args = StreamableHttp" "cl_command lab_args = None" "cl_lab_mode lab_args"
    "cl_host lab_args = ''127.0.0.1''" "cl_port lab_args = 8080" "\<not> cl_allow_insecure_bind lab_args"
    "cl_allowed_host lab_args = []" "cl_allowed_origin lab_args = []" "cl_tls_cert lab_args = None" "cl_approval_digest_key_file lab_args = None"
    "cl_site_refresh_interval_secs lab_args > 0"
    by (simp_all add: lab_args_def)
  have proc: "pe_validate lab_proc lab_args = Inr ()" "pe_parse_ip lab_proc ''127.0.0.1'' = Some (V4 127 0 0 1)"
    "pe_install_signals lab_proc = Inr ()"
    by (simp_all add: lab_proc_def)
  have http: "PrServeHttp ?q \<in> set (fst (main_serve lab_proc lab_args x))"
    by (simp add: main_serve_def main_http_def auth Let_def followed_events args proc load_listener_tls_def
        refuse_lab_mode_off_loopback_def)
  have "PrServeHttp ?q \<in> set (fst (main_process lab_proc lab_args))"
    using http x
    by (simp add: main_process_def main_server_def main_refresh_def followed_events audit evidence lab_profile_read h(1) args proc
        load_approval_digest_key_def)
  from http_serves_guarded [OF this] this show ?thesis
    by (intro exI [of _ ?q]) (auto simp: args)
qed

end
