(* ===== verification/Signals.thy ===== *)
theory Signals
  imports Process
begin

text \<open>
  The two SIGHUP handlers of \<open>http_transport.rs\<close>, \<open>install_token_reload_handler\<close> and
  \<open>install_audit_reopen_handler\<close>, and which of them a process has when it serves; and the stop
  signals, which \<open>main.rs\<close> handles for the HTTP server.
\<close>

section \<open>The handlers\<close>

text \<open>What the handlers act on: the token store with its current snapshot, and the audit file.\<close>

record ('t, 'f) live =
  lv_tokens :: 't
  lv_audit :: 'f

datatype hup_log =
    TokensReloaded nat
  | TokenReloadFailed string
  | AuditReopened
  | AuditReopenFailed string

text \<open>\<open>reload\<close>, \<open>tokens\<close> and \<open>reopen\<close> are those of the shared crates; a handler ends in a log line, whatever
  they answer.\<close>

definition token_reload_handler ::
  "('t \<Rightarrow> 't \<times> (string + unit)) \<Rightarrow> ('t \<Rightarrow> nat) \<Rightarrow> ('t, 'f) live \<Rightarrow> ('t, 'f) live \<times> hup_log" where
  "token_reload_handler reload tokens s =
     (case reload (lv_tokens s) of
        (store, Inr _) \<Rightarrow> (s\<lparr>lv_tokens := store\<rparr>, TokensReloaded (tokens store))
      | (store, Inl e) \<Rightarrow> (s\<lparr>lv_tokens := store\<rparr>, TokenReloadFailed e))"

definition audit_reopen_handler ::
  "('f \<Rightarrow> 'f \<times> (string + unit)) \<Rightarrow> ('t, 'f) live \<Rightarrow> ('t, 'f) live \<times> hup_log" where
  "audit_reopen_handler reopen s =
     (case reopen (lv_audit s) of
        (sink, Inr _) \<Rightarrow> (s\<lparr>lv_audit := sink\<rparr>, AuditReopened)
      | (sink, Inl e) \<Rightarrow> (s\<lparr>lv_audit := sink\<rparr>, AuditReopenFailed e))"

text \<open>
  SIGHUP with the hooks that the events of a process installed, in this order; without any the
  signal has its default disposition and the process ends.
\<close>

fun hup_hooks ::
  "('t \<Rightarrow> 't \<times> (string + unit)) \<Rightarrow> ('t \<Rightarrow> nat) \<Rightarrow> ('f \<Rightarrow> 'f \<times> (string + unit)) \<Rightarrow> 'x proc_event list
    \<Rightarrow> (('t, 'f) live \<Rightarrow> ('t, 'f) live \<times> hup_log) list" where
  "hup_hooks reload tokens reopen [] = []"
| "hup_hooks reload tokens reopen (PrAuditReopen # es) = audit_reopen_handler reopen # hup_hooks reload tokens reopen es"
| "hup_hooks reload tokens reopen (PrTokenReload # es) = token_reload_handler reload tokens # hup_hooks reload tokens reopen es"
| "hup_hooks reload tokens reopen (e # es) = hup_hooks reload tokens reopen es"

fun run_hooks :: "('s \<Rightarrow> 's \<times> 'l) list \<Rightarrow> 's \<Rightarrow> 's \<times> 'l list" where
  "run_hooks [] s = (s, [])"
| "run_hooks (f # fs) s = (let (s', l) = f s; (s'', ls) = run_hooks fs s' in (s'', l # ls))"

definition sighup ::
  "('t \<Rightarrow> 't \<times> (string + unit)) \<Rightarrow> ('t \<Rightarrow> nat) \<Rightarrow> ('f \<Rightarrow> 'f \<times> (string + unit)) \<Rightarrow> 'x proc_event list
    \<Rightarrow> ('t, 'f) live \<Rightarrow> (('t, 'f) live \<times> hup_log list) option" where
  "sighup reload tokens reopen es s =
     (if hup_hooks reload tokens reopen es = [] then None else Some (run_hooks (hup_hooks reload tokens reopen es) s))"

lemma sighup_handled_iff:
  "sighup reload tokens reopen es s \<noteq> None \<longleftrightarrow> PrAuditReopen \<in> set es \<or> PrTokenReload \<in> set es"
  by (simp add: sighup_def) (induction es rule: hup_hooks.induct, auto)

section \<open>The hooks of a process that serves\<close>

definition hooked :: "'x auth_config \<Rightarrow> bool" where
  "hooked auth \<longleftrightarrow> (case auth of Authenticated _ \<Rightarrow> True | ExplicitlyUnauthenticated \<Rightarrow> False)"

text \<open>A phase that neither installs a hook nor serves.\<close>

definition unhooked :: "('x, 'a) step \<Rightarrow> bool" where
  "unhooked s \<longleftrightarrow> PrTokenReload \<notin> set (fst s) \<and> PrAuditReopen \<notin> set (fst s) \<and> PrSignals \<notin> set (fst s)"

lemma unhooked_followed: "unhooked s \<Longrightarrow> (\<And>x. snd s = Inr x \<Longrightarrow> unhooked (f x)) \<Longrightarrow> unhooked (followed s f)"
  by (auto simp: unhooked_def followed_events)

lemma unhooked_simps [simp]:
  "unhooked (proceed x)" "unhooked (attempt c r)" "unhooked (attempt_saying c r')" "unhooked ([], r'')"
  "unhooked (note_that e) \<longleftrightarrow> e \<noteq> PrTokenReload \<and> e \<noteq> PrAuditReopen \<and> e \<noteq> PrSignals"
  by (auto simp: unhooked_def)

lemma unhooked_phases:
  "unhooked (init_audit env args)" "unhooked (main_handler env args config evidence key)" "unhooked (main_auth env args)"
  "unhooked (main_evidence env)" "unhooked (main_shutdown args evidence served)" "unhooked (main_refresh args)"
proof -
  show "unhooked (init_audit env args)"
    unfolding init_audit_def by (intro unhooked_followed) (auto intro!: unhooked_followed split: option.split)
  show "unhooked (main_handler env args config evidence key)"
    unfolding main_handler_def by (intro unhooked_followed) (auto simp: Let_def intro!: unhooked_followed)
  have "unhooked (warn_about_stale_secrets env path)" for path
    by (simp add: warn_about_stale_secrets_def split: option.split)
  then show "unhooked (main_auth env args)"
    unfolding main_auth_def by (intro unhooked_followed) (auto intro!: unhooked_followed split: auth_config.split option.split)
  show "unhooked (main_evidence env)" using evidence_cases [of env] by (auto simp: unhooked_def)
  show "unhooked (main_shutdown args evidence served)" "unhooked (main_refresh args)"
    by (simp_all add: main_shutdown_def main_refresh_def unhooked_def)
qed

lemma reload_hook:
  assumes "PrServeHttp q \<in> set (fst (main_http env args h))"
  shows "PrTokenReload \<in> set (fst (main_http env args h)) \<longleftrightarrow> hooked (sg_auth q)"
    and "PrAuditReopen \<notin> set (fst (main_http env args h))"
proof -
  have auth: "PrServeHttp q \<notin> set (fst (main_auth env args))" "PrTokenReload \<notin> set (fst (main_auth env args))"
    "PrAuditReopen \<notin> set (fst (main_auth env args))"
    using not_serving [OF starting_auth] unhooked_phases(3) [of env args] by (auto simp: unhooked_def)
  from assms auth(1) obtain a where a: "snd (main_auth env args) = Inr a"
    unfolding main_http_def followed_events by blast
  show "PrTokenReload \<in> set (fst (main_http env args h)) \<longleftrightarrow> hooked (sg_auth q)"
    and "PrAuditReopen \<notin> set (fst (main_http env args h))"
    using assms auth a by (cases a; auto simp: main_http_def Let_def followed_events hooked_def)+
qed

text \<open>An HTTP server has the token hook exactly when it authenticates, and the audit hook exactly when it audits
  to a file; so a SIGHUP ends exactly a server that does neither.\<close>

theorem serving_survives_sighup_iff:
  assumes "PrServeHttp q \<in> set (fst (main_process env args))"
  shows "sighup reload tokens reopen (fst (main_process env args)) s \<noteq> None \<longleftrightarrow>
    hooked (sg_auth q) \<or> (\<exists>sink. snd (init_audit env args) = Inr (Some sink))"
proof -
  note quiet = not_serving [OF starting_init_audit, of q env args] not_serving [OF starting_handler, of q env args]
  note no = unhooked_phases [unfolded unhooked_def]
  have evidence: "PrServeHttp q \<notin> set (fst (main_evidence env))"
    "PrServeHttp q \<notin> set (fst (main_shutdown args service served))" for service served
    using evidence_cases [of env] by (auto simp: main_shutdown_def)
  from assms quiet(1) obtain sink where none: "cl_command args = None" "pe_validate env args = Inr ()"
      "snd (init_audit env args) = Inr sink" and server: "PrServeHttp q \<in> set (fst (main_server env args sink))"
    unfolding main_process_def by (auto simp: followed_events split: option.splits)
  have whole: "PrTokenReload \<in> set (fst (main_process env args)) \<longleftrightarrow> PrTokenReload \<in> set (fst (main_server env args sink))"
    "PrAuditReopen \<in> set (fst (main_process env args)) \<longleftrightarrow> PrAuditReopen \<in> set (fst (main_server env args sink))"
    using none no(1) by (auto simp: main_process_def followed_events)
  have main: "PrTokenReload \<in> set (fst (main_server env args sink)) \<longleftrightarrow> hooked (sg_auth q)"
    "PrAuditReopen \<in> set (fst (main_server env args sink)) \<longleftrightarrow> sink \<noteq> None"
  proof -
    from server quiet evidence obtain config evidence key h where
        v: "config_from_path (pe_read_file env) (pe_parse_config env) (pe_parse_url env) (pe_lstat env)
            (cl_device_mapping args) = Inr config" "snd (main_evidence env) = Inr evidence"
          "load_approval_digest_key (pe_load_digest_key env) (cl_approval_digest_key_file args) = Inr key"
          "snd (main_handler env args config evidence key) = Inr h"
        and serve: "PrServeHttp q \<in> set (fst (main_serve env args h))"
        and installed: "sink = None \<or> (\<exists>s. sink = Some s \<and> pe_install_reopen env s = Inr ())"
      unfolding main_server_def main_refresh_def
      by (auto simp: followed_events split: option.splits if_splits; blast)
    have "PrServeHttp q \<in> set (fst (main_http env args h))" and transport: "cl_transport args = StreamableHttp"
      using serve by (auto simp: main_serve_def followed_events split: transport.splits)
    note hooks = reload_hook [OF this(1)]
    have refresh: "snd (main_refresh args) = Inr u" for u by (simp add: main_refresh_def)
    show "PrTokenReload \<in> set (fst (main_server env args sink)) \<longleftrightarrow> hooked (sg_auth q)"
      and "PrAuditReopen \<in> set (fst (main_server env args sink)) \<longleftrightarrow> sink \<noteq> None"
      using installed
      by (auto simp: main_server_def main_serve_def followed_events no hooks v transport refresh)
  qed
  show ?thesis unfolding sighup_handled_iff using none(3) whole main by auto
qed

section \<open>The stop signals\<close>

text \<open>
  SIGTERM or SIGINT. The HTTP arm of \<open>main\<close> registers both and spawns a task that cancels the token of
  the server when the first one comes; a cancelled server ends, as \<open>serve_router\<close> documents, and later signals
  only find the registration. Before that, and under stdio, the signals have their default disposition and
  the process ends there. The signal comes after the first \<open>n\<close> events of the run.
\<close>

datatype ending = Ended "string + unit" | Killed

definition stop_handled :: "'x proc_event list \<Rightarrow> bool" where
  "stop_handled es \<longleftrightarrow> PrSignals \<in> set es"

definition signalled :: "nat \<Rightarrow> ('x, unit) step \<Rightarrow> 'x proc_event list \<times> ending" where
  "signalled n s =
     (if stop_handled (take n (fst s)) then (fst s, Ended (snd s)) else (take n (fst s), Killed))"

text \<open>The events of a run that matter: the registration and the start of a server.\<close>

definition keys :: "('x, 'a) step \<Rightarrow> 'x proc_event list" where
  "keys s = filter (\<lambda>e. is_serving e \<or> e = PrSignals) (fst s)"

definition keyed :: "'x cli \<Rightarrow> ('x, 'a) step \<Rightarrow> bool" where
  "keyed args s \<longleftrightarrow> keys s = [] \<or>
     (case cl_transport args of
        Stdio \<Rightarrow> \<exists>h. keys s = [PrServeStdio h]
      | StreamableHttp \<Rightarrow> \<exists>q. keys s = [PrSignals, PrServeHttp q])"

lemma keys_followed: "keys (followed s f) = keys s @ (case snd s of Inl _ \<Rightarrow> [] | Inr x \<Rightarrow> keys (f x))"
  by (auto simp: keys_def followed_def split: prod.split sum.split)

lemma keys_quiet: "starting s \<Longrightarrow> unhooked s \<Longrightarrow> keys s = []"
  by (auto simp: keys_def starting_def unhooked_def list_all_iff filter_empty_conv)

lemma keyed_quiet: "keys s = [] \<Longrightarrow> keyed args s"
  by (simp add: keyed_def)

lemma keyed_followed:
  assumes "keys s = []" and "\<And>x. snd s = Inr x \<Longrightarrow> keyed args (f x)"
  shows "keyed args (followed s f)"
proof (cases "snd s")
  case (Inr x)
  then have "keys (followed s f) = keys (f x)" using assms(1) by (simp add: keys_followed)
  with assms(2) [OF Inr] show ?thesis by (simp only: keyed_def)
qed (use assms(1) in \<open>simp add: keyed_def keys_followed\<close>)

lemma keys_simps [simp]:
  "keys (proceed x) = []" "keys (attempt c r) = []" "keys (attempt_saying c r') = []" "keys ([], r'') = []"
  "keys (note_that e) = (if is_serving e \<or> e = PrSignals then [e] else [])"
  by (simp_all add: keys_def note_that_def)

lemma keys_phases:
  "keys (init_audit env args) = []" "keys (main_handler env args config evidence key) = []" "keys (main_auth env args) = []"
  "keys (main_evidence env) = []" "keys (main_shutdown args evidence served) = []" "keys (main_refresh args) = []"
proof -
  show "keys (init_audit env args) = []" "keys (main_handler env args config evidence key) = []" "keys (main_auth env args) = []"
    by (intro keys_quiet unhooked_phases starting_init_audit starting_handler starting_auth)+
  show "keys (main_evidence env) = []" using evidence_cases [of env] by (auto simp: keys_def)
  show "keys (main_shutdown args evidence served) = []" "keys (main_refresh args) = []"
    by (simp_all add: main_shutdown_def main_refresh_def) (simp add: keys_def)
qed

lemma keyed_http:
  assumes "cl_transport args = StreamableHttp"
  shows "keyed args (main_http env args h)"
proof -
  have tail: "keyed args (followed (note_that PrSignals) (\<lambda>_. followed (note_that (PrServeHttp q)) (\<lambda>_. proceed v)))" for q v
    by (simp add: keyed_def assms keys_def followed_def note_that_def proceed_def)
  show ?thesis
    unfolding main_http_def Let_def
    by ((rule keyed_followed, fastforce simp: keys_phases keys_followed split: auth_config.split sum.split)+) (rule tail)
qed

lemma keyed_serve: "keyed args (followed (main_serve env args h) (main_shutdown args evidence))"
proof -
  have "keyed args (main_serve env args h)"
  proof (cases "cl_transport args")
    case Stdio
    then show ?thesis by (simp add: main_serve_def keyed_def keys_def followed_def note_that_def proceed_def)
  qed (simp add: main_serve_def keyed_http)
  moreover have "keys (followed (main_serve env args h) (main_shutdown args evidence)) = keys (main_serve env args h)"
    by (simp add: keys_followed keys_phases split: sum.split)
  ultimately show ?thesis by (simp only: keyed_def)
qed

lemma keyed_server: "keyed args (main_server env args sink)"
  unfolding main_server_def
  by (intro keyed_followed keyed_serve) (auto simp: keys_phases keys_followed split: option.split sum.split)

lemma keyed_process: "keyed args (main_process env args)"
  unfolding main_process_def
  by (intro keyed_followed)
    (auto simp: keys_phases keys_followed keyed_server intro!: keyed_quiet split: option.split sum.split)

text \<open>The registration comes before an HTTP server, and never with stdio.\<close>

lemma handled_when_serving:
  assumes "fst (main_process env args) = pre @ e # post" and "is_serving e"
    and "list_all (\<lambda>e. \<not> is_serving e) (pre @ post)"
  shows "stop_handled (pre @ [e]) \<longleftrightarrow> cl_transport args = StreamableHttp"
proof -
  let ?key = "\<lambda>e. is_serving e \<or> e = PrSignals"
  have none: "\<not> is_serving x" if "x \<in> set (filter ?key pre) \<or> x \<in> set (filter ?key post)" for x
    using assms(3) that by (auto simp: list_all_iff)
  have keys: "keys (main_process env args) = filter ?key pre @ e # filter ?key post" using assms(1,2) by (simp add: keys_def)
  have e: "e \<noteq> PrSignals" using assms(2) by auto
  have handled: "stop_handled (pre @ [e]) \<longleftrightarrow> PrSignals \<in> set (filter ?key pre)" using e by (auto simp: stop_handled_def)
  show ?thesis
  proof (cases "filter ?key pre")
    case Nil
    then show ?thesis
      using keyed_process [of args env] e unfolding keyed_def keys handled by (cases "cl_transport args") auto
  next
    case (Cons k ks)
    then have "\<not> is_serving k" using none [of k] by simp
    then show ?thesis
      using keyed_process [of args env] e unfolding keyed_def keys handled Cons by (cases "cl_transport args") auto
  qed
qed

text \<open>A run of a stdio server, and what is left of it when a signal stops it.\<close>

definition stdio_args :: "unit cli" where
  "stdio_args = lab_args\<lparr>cl_transport := Stdio\<rparr>"

definition stdio_proc :: "(nat, unit) proc_env" where
  "stdio_proc = lab_proc\<lparr>pe_evidence_config := Inr (Some ())\<rparr>"

lemma stdio_handler: "\<exists>es h. main_handler stdio_proc stdio_args lab_profile (Some ()) None = (es, Inr h)"
proof -
  have "main_handler stdio_proc stdio_args lab_profile (Some ()) None = main_handler lab_proc lab_args lab_profile None None"
    by (simp add: main_handler_def stdio_proc_def stdio_args_def lab_proc_def)
  with lab_handler_built show ?thesis by metis
qed

lemma stdio_server:
  "\<exists>pre h. fst (main_process stdio_proc stdio_args) = pre @ [PrServeStdio h, PrRefreshAborted, PrEvidenceFlushed]"
proof -
  obtain es h where h: "main_handler stdio_proc stdio_args lab_profile (Some ()) None = (es, Inr h)"
    using stdio_handler by blast
  have audit: "init_audit stdio_proc stdio_args = ([PrTracing], Inr None)"
    by (simp add: init_audit_def followed_def proceed_def attempt_def note_that_def map_err_def stdio_args_def
        lab_args_def stdio_proc_def lab_proc_def blank_def)
  have evidence: "main_evidence stdio_proc = ([PrEvidence], Inr (Some ()))"
    by (simp add: main_evidence_def followed_def attempt_saying_def note_that_def map_err_def proceed_def stdio_proc_def lab_proc_def)
  have config: "config_from_path (pe_read_file stdio_proc) (pe_parse_config stdio_proc) (pe_parse_url stdio_proc)
      (pe_lstat stdio_proc) path = Inr lab_profile" for path
    using lab_profile_read(1) by (simp add: stdio_proc_def)
  have args: "cl_transport stdio_args = Stdio" "cl_command stdio_args = None" "cl_approval_digest_key_file stdio_args = None"
    "cl_site_refresh_interval_secs stdio_args > 0" "pe_validate stdio_proc stdio_args = Inr ()"
    by (simp_all add: stdio_args_def lab_args_def stdio_proc_def lab_proc_def)
  show ?thesis
    by (simp add: main_process_def main_server_def main_refresh_def main_serve_def main_shutdown_def followed_def
        audit evidence config h args load_approval_digest_key_def attempt_def note_that_def proceed_def map_err_def)
qed

theorem stdio_stop_loses_evidence:
  "\<exists>pre h. fst (main_process stdio_proc stdio_args) = pre @ [PrServeStdio h, PrRefreshAborted, PrEvidenceFlushed] \<and>
     signalled (Suc (length pre)) (main_process stdio_proc stdio_args) = (pre @ [PrServeStdio h], Killed)"
proof -
  obtain pre h where run: "fst (main_process stdio_proc stdio_args) = pre @ [PrServeStdio h, PrRefreshAborted, PrEvidenceFlushed]"
    using stdio_server by blast
  have "list_all (\<lambda>e. \<not> is_serving e) (pre @ [PrRefreshAborted, PrEvidenceFlushed])"
    using main_run_ok [of stdio_args stdio_proc] unfolding run_ok_def run by (auto simp: append_eq_append_conv2 shutdown_events_def list_all_iff append_eq_Cons_conv Cons_eq_append_conv split: if_splits)
  from handled_when_serving [OF run _ this] have "\<not> stop_handled (pre @ [PrServeStdio h])"
    by (simp add: stdio_args_def)
  with run show ?thesis by (intro exI [of _ pre] exI [of _ h]) (simp add: signalled_def)
qed

section \<open>Serving is followed by the shutdown\<close>

text \<open>C39: In every run of \<open>main\<close> in which a server is started: nothing was served or shut down before,
  and after serving, with whatever result it returned, the process aborts the refresh if one was spawned and then
  flushes the evidence if the pipeline was started, and does nothing else.\<close>

theorem serving_then_shutdown:
  assumes "fst (main_process env args) = pre @ e # post" and "is_serving e"
  shows "list_all (\<lambda>e. \<not> is_serving e \<and> \<not> is_shutdown e) pre \<and>
    post = (if cl_site_refresh_interval_secs args > 0 then [PrRefreshAborted] else []) @
      (if PrEvidence \<in> set pre then [PrEvidenceFlushed] else [])"
proof -
  obtain pre' rest where run: "pre @ e # post = pre' @ rest" "list_all (\<lambda>e. \<not> is_serving e \<and> \<not> is_shutdown e) pre'"
      "rest = [] \<or> (\<exists>d. is_serving d \<and> rest = d # shutdown_events args (PrEvidence \<in> set pre'))"
    using main_run_ok [of args env] unfolding run_ok_def assms(1) by blast
  have "e \<in> set pre' \<union> set rest" using run(1) by (metis in_set_conv_decomp set_append)
  with run(2) assms(2) obtain d where d: "is_serving d" "rest = d # shutdown_events args (PrEvidence \<in> set pre')"
    using run(3) by (auto simp: list_all_iff)
  have quiet: "\<not> is_serving x" if "x \<in> set pre' \<union> set (shutdown_events args b)" for x b
    using that run(2) by (auto simp: list_all_iff shutdown_events_def split: if_splits)
  have "filter is_serving (pre @ e # post) = [d]"
    using quiet d(1) unfolding run(1) d(2) by (auto simp: filter_empty_conv)
  with assms(2) have "\<forall>x \<in> set pre. \<not> is_serving x"
    by (auto simp: append_eq_Cons_conv filter_empty_conv)
  then have "takeWhile (\<lambda>x. \<not> is_serving x) (pre @ e # post) = pre"
    using assms(2) by (simp add: takeWhile_append2)
  moreover have "takeWhile (\<lambda>x. \<not> is_serving x) (pre @ e # post) = pre'"
    using quiet d(1) unfolding run(1) d(2) by (simp add: takeWhile_append2)
  ultimately have "pre = pre' \<and> post = shutdown_events args (PrEvidence \<in> set pre')"
    using run(1) d(2) by simp
  with run(2) show ?thesis by (simp add: shutdown_events_def)
qed

theorem serving_then_shutdown_witness:
  "\<exists>pre h. fst (main_process stdio_proc stdio_args) = pre @ [PrServeStdio h, PrRefreshAborted, PrEvidenceFlushed] \<and>
     PrEvidence \<in> set pre"
proof -
  obtain pre h where run: "fst (main_process stdio_proc stdio_args) = pre @ [PrServeStdio h, PrRefreshAborted, PrEvidenceFlushed]"
    using stdio_server by blast
  from serving_then_shutdown [OF this] have "PrEvidence \<in> set pre" by (auto split: if_splits)
  with run show ?thesis by blast
qed

end
