(* ===== verification/CommandLine.thy ===== *)
theory CommandLine
  imports Process
begin

text \<open>
  \<open>cli.rs\<close>: the server's own options beside those of the shared command line. The tokenizer (\<open>clap\<close>) gives
  the value of each long option and the presence of each flag; the shared crate has filled in its
  part of the record. The numbers are read as \<open>u64::from_str\<close> does, a path must not be empty.
\<close>

definition path_option :: "(string \<Rightarrow> string option) \<Rightarrow> string \<Rightarrow> string \<Rightarrow> string option" where
  "path_option options name otherwise =
     (case options name of None \<Rightarrow> Some otherwise | Some v \<Rightarrow> if v = [] then None else Some v)"

definition u64_option :: "(string \<Rightarrow> string option) \<Rightarrow> string \<Rightarrow> u64 \<Rightarrow> u64 option" where
  "u64_option options name otherwise = (case options name of None \<Rightarrow> Some otherwise | Some v \<Rightarrow> parse_u64 v)"

definition own_options :: "(string \<Rightarrow> string option) \<Rightarrow> (string \<Rightarrow> bool) \<Rightarrow> 'x cli \<Rightarrow> 'x cli option" where
  "own_options options flags shared =
     (case (path_option options ''state-file'' ''/var/lib/rustmistmcp/changeset-state.json'',
            u64_option options ''approval-timeout-secs'' 3600, u64_option options ''site-refresh-interval-secs'' 300) of
        (Some state_file, Some timeout, Some interval) \<Rightarrow>
          Some (shared\<lparr>cl_state_file := state_file, cl_approval_timeout_secs := timeout,
            cl_lab_mode := flags ''lab-mode'', cl_site_refresh_interval_secs := interval\<rparr>)
      | _ \<Rightarrow> None)"

text \<open>Without options of its own the server asks for a second person, keeps approvals for an hour and
  refreshes the sites.\<close>

lemma own_options_defaults:
  "own_options (\<lambda>_. None) (\<lambda>_. False) shared = Some (shared\<lparr>cl_state_file := ''/var/lib/rustmistmcp/changeset-state.json'',
     cl_approval_timeout_secs := 3600, cl_lab_mode := False, cl_site_refresh_interval_secs := 300\<rparr>)"
  by (simp add: own_options_def path_option_def u64_option_def)

lemma own_options_Some:
  "own_options options flags shared = Some args \<Longrightarrow>
     cl_lab_mode args = flags ''lab-mode'' \<and> cl_state_file args \<noteq> [] \<and>
     cl_transport args = cl_transport shared \<and> cl_host args = cl_host shared \<and> cl_allow_no_auth args = cl_allow_no_auth shared"
  by (auto simp: own_options_def path_option_def split: option.splits if_splits)

text \<open>So a server that is started without the flag for lab mode hands its coordinator and its handler none.\<close>

lemma two_persons_by_default:
  assumes "own_options options flags shared = Some args" and "\<not> flags ''lab-mode''"
    and "snd (main_handler env args config evidence key) = Inr h"
  shows "\<not> h_lab_mode h"
  using own_options_Some [OF assms(1)] assms(2) main_handler_serves [OF assms(3)] by simp

end
