(* ===== verification/UnitTests.thy ===== *)
theory UnitTests
  imports Pool Process ChangeSet ExecuteClass
begin

text \<open>
  Unit tests of the crates (the \<open>tests\<close> modules of \<open>rate_limit.rs\<close>, \<open>wan.rs\<close>, \<open>wan_write.rs\<close>,
  \<open>similarity.rs\<close>, \<open>change_set.rs\<close>, \<open>pagination.rs\<close>, \<open>execute_class.rs\<close>, \<open>client.rs\<close> and \<open>main.rs\<close>), run on
  the model: each test is the conjunction of its assertions, on the values the test itself states, and holds.
  Where a test only needs how some operations of the catalog paginate, or that a request of the catalog can be
  prepared, it is about any catalog and URL parser for which this is so; the mock HTTPS server of \<open>client.rs\<close>
  is the list of its answers. Left out are the tests of files, of what is in the embedded catalog, and of the handlers.
\<close>

section \<open>\<open>rate_limit.rs\<close>\<close>

text \<open>The clock stands still in a test; the one that lets an hour pass moves the start of the window back.\<close>

definition acquire_at :: "nat \<Rightarrow> call_priority \<Rightarrow> rate_limit_budget \<Rightarrow> rate_limit_budget \<times> bool" where
  "acquire_at now p b = (case try_acquire now now p b of (b, r) \<Rightarrow> (b, is_ok r))"

fun acquire_all :: "nat \<Rightarrow> call_priority list \<Rightarrow> rate_limit_budget \<Rightarrow> rate_limit_budget \<times> bool list" where
  "acquire_all now [] b = (b, [])"
| "acquire_all now (p # ps) b =
     (let (b, r) = acquire_at now p b; (b, rs) = acquire_all now ps b in (b, r # rs))"

definition standard_calls_are_denied_once_the_non_reserved_pool_is_spent :: "nat \<Rightarrow> bool" where
  "standard_calls_are_denied_once_the_non_reserved_pool_is_spent now =
     (let (budget, granted) = acquire_all now (replicate 7 Standard) (new_budget now 10 3);
          (budget, denied) = try_acquire now now Standard budget;
          (budget, status) = budget_status_of now now budget
      in granted = replicate 7 True \<and> denied = Inl Exhausted \<and> st_used status = 7 \<and>
         st_remaining_standard status = 0 \<and> st_remaining_reserved status = 3)"

definition reserved_headroom_stays_available_after_standard_is_exhausted :: "nat \<Rightarrow> bool" where
  "reserved_headroom_stays_available_after_standard_is_exhausted now =
     (let (budget, granted) = acquire_all now (replicate 7 Standard) (new_budget now 10 3);
          (budget, standard) = acquire_at now Standard budget;
          (budget, reserved) = acquire_all now (replicate 3 Reserved) budget;
          (budget, denied1) = try_acquire now now Reserved budget;
          (budget, denied2) = try_acquire now now Standard budget
      in granted = replicate 7 True \<and> \<not> standard \<and> reserved = replicate 3 True \<and>
         denied1 = Inl Exhausted \<and> denied2 = Inl Exhausted)"

definition status_reports_headroom_without_consuming_it :: "nat \<Rightarrow> bool" where
  "status_reports_headroom_without_consuming_it now =
     (let (budget, before) = budget_status_of now now (new_budget now 10 3);
          (budget, call) = acquire_at now Standard budget;
          (budget, after) = budget_status_of now now budget;
          (budget, again) = budget_status_of now now budget
      in st_remaining_standard before = 7 \<and> st_remaining_reserved before = 10 \<and> call \<and>
         st_used after = 1 \<and> st_remaining_standard after = 6 \<and> st_remaining_reserved after = 9 \<and>
         st_used again = 1)"

definition window_resets_after_an_hour_elapses :: "nat \<Rightarrow> bool" where
  "window_resets_after_an_hour_elapses now =
     (let (budget, first) = acquire_at now Standard (new_budget now 2 1);
          (budget, second) = acquire_at now Standard budget;
          budget = budget\<lparr>budget_window := (budget_window budget)\<lparr>started_at := now - secs 3601\<rparr>\<rparr>;
          (budget, third) = acquire_at now Standard budget
      in first \<and> \<not> second \<and> third)"

definition human_reserve_is_clamped_to_the_hourly_limit :: "nat \<Rightarrow> bool" where
  "human_reserve_is_clamped_to_the_hourly_limit now =
     (let (budget, status) = budget_status_of now now (new_budget now 5 100)
      in st_human_reserve status = 5 \<and> st_remaining_standard status = 0 \<and> st_remaining_reserved status = 5)"

text \<open>A budget of which \<open>n\<close> calls are spent in the window that opened now.\<close>

definition spent :: "nat \<Rightarrow> u32 \<Rightarrow> u32 \<Rightarrow> u32 \<Rightarrow> rate_limit_budget" where
  "spent now limit reserve n =
     \<lparr>hourly_limit = limit, human_reserve = reserve, budget_window = \<lparr>started_at = now, used = n\<rparr>\<rparr>"

lemma spent_simps:
  "new_budget now limit reserve = spent now limit (min reserve limit) 0"
  "try_acquire now now Standard (spent now limit reserve n) =
     (if n \<ge> sat_sub limit reserve then (spent now limit reserve n, Inl Exhausted)
      else (spent now limit reserve (n + 1), Inr (status_locked (spent now limit reserve n) \<lparr>started_at = now, used = n + 1\<rparr>)))"
  "try_acquire now now Reserved (spent now limit reserve n) =
     (if n \<ge> limit then (spent now limit reserve n, Inl Exhausted)
      else (spent now limit reserve (n + 1), Inr (status_locked (spent now limit reserve n) \<lparr>started_at = now, used = n + 1\<rparr>)))"
  "budget_status_of now now (spent now limit reserve n) =
     (spent now limit reserve n, \<lparr>st_hourly_limit = limit, st_human_reserve = reserve, st_used = n,
        st_remaining_standard = sat_sub (sat_sub limit reserve) n, st_remaining_reserved = sat_sub limit n\<rparr>)"
  by (simp_all add: spent_def new_budget_def try_acquire_def budget_status_of_def reset_if_elapsed_def priority_cap_def
      standard_cap_def status_locked_def WINDOW_def Let_def)

lemma repeated: "replicate 7 x = [x, x, x, x, x, x, x]" "replicate 3 x = [x, x, x]"
  by (simp_all add: eval_nat_numeral)

lemma rate_limit_tests:
  "standard_calls_are_denied_once_the_non_reserved_pool_is_spent now"
  "reserved_headroom_stays_available_after_standard_is_exhausted now"
  "status_reports_headroom_without_consuming_it now"
  "human_reserve_is_clamped_to_the_hourly_limit now"
  unfolding standard_calls_are_denied_once_the_non_reserved_pool_is_spent_def
      reserved_headroom_stays_available_after_standard_is_exhausted_def
      status_reports_headroom_without_consuming_it_def human_reserve_is_clamped_to_the_hourly_limit_def repeated
  by (simp_all add: acquire_at_def spent_simps sat_sub_def) (simp_all add: word_le_nat_alt)

text \<open>The clock has run for more than the hour that the test goes back.\<close>

lemma window_test: "secs 3601 \<le> now \<Longrightarrow> window_resets_after_an_hour_elapses now"
  by (simp add: window_resets_after_an_hour_elapses_def acquire_at_def try_acquire_def new_budget_def reset_if_elapsed_def
      status_locked_def priority_cap_def standard_cap_def sat_sub_def WINDOW_def Let_def secs_def)

section \<open>\<open>wan.rs\<close>\<close>

definition scope_requires_exactly_one_identifier :: bool where
  "scope_requires_exactly_one_identifier \<longleftrightarrow>
     resolve_scope (Some ''org'') None = Inr ScopeOrg \<and> resolve_scope None (Some ''site'') = Inr ScopeSite \<and>
     resolve_scope None None = Inl () \<and> resolve_scope (Some ''org'') (Some ''site'') = Inl ()"

definition wan_edges_resolves_per_scope :: bool where
  "wan_edges_resolves_per_scope \<longleftrightarrow>
     wan_edges ScopeOrg = resolve ''searchOrgDevices'' [''org_id''] \<and>
     wan_edges ScopeSite = resolve ''searchSiteDevices'' [''site_id'']"

definition wan_edge_stats_selects_on_device_presence :: bool where
  "wan_edge_stats_selects_on_device_presence \<longleftrightarrow>
     wan_edge_stats False = resolve ''getSiteGatewayMetrics'' [''site_id''] \<and>
     wan_edge_stats True = resolve ''getSiteInsightMetricsForGateway'' [''site_id'', ''device_id'']"

definition tunnels_resolve_per_mode :: bool where
  "tunnels_resolve_per_mode \<longleftrightarrow>
     tunnels ModeRecords = resolve ''searchOrgTunnelsStats'' [''org_id''] \<and>
     tunnels ModeCount = resolve ''countOrgTunnelsStats'' [''org_id'']"

definition peer_paths_resolve_per_mode :: bool where
  "peer_paths_resolve_per_mode \<longleftrightarrow>
     peer_paths ModeRecords = resolve ''searchOrgPeerPathStats'' [''org_id''] \<and>
     peer_paths ModeCount = resolve ''countOrgPeerPathStats'' [''org_id'']"

definition alarms_resolve_all_four_combinations :: bool where
  "alarms_resolve_all_four_combinations \<longleftrightarrow>
     alarms ScopeOrg ModeRecords = resolve ''searchOrgAlarms'' [''org_id''] \<and>
     alarms ScopeOrg ModeCount = resolve ''countOrgAlarms'' [''org_id''] \<and>
     alarms ScopeSite ModeRecords = resolve ''searchSiteAlarms'' [''site_id''] \<and>
     alarms ScopeSite ModeCount = resolve ''countSiteAlarms'' [''site_id'']"

definition bgp_peers_resolve_all_four_combinations :: bool where
  "bgp_peers_resolve_all_four_combinations \<longleftrightarrow>
     bgp_peers ScopeOrg ModeRecords = resolve ''searchOrgBgpStats'' [''org_id''] \<and>
     bgp_peers ScopeOrg ModeCount = resolve ''countOrgBgpStats'' [''org_id''] \<and>
     bgp_peers ScopeSite ModeRecords = resolve ''searchSiteBgpStats'' [''site_id''] \<and>
     bgp_peers ScopeSite ModeCount = resolve ''countSiteBgpStats'' [''site_id'']"

definition service_path_events_resolve_per_mode :: bool where
  "service_path_events_resolve_per_mode \<longleftrightarrow>
     service_path_events ModeRecords = resolve ''searchSiteServicePathEvents'' [''site_id''] \<and>
     service_path_events ModeCount = resolve ''countSiteServicePathEvents'' [''site_id'']"

definition sle_impact_resolves_per_selector :: bool where
  "sle_impact_resolves_per_selector \<longleftrightarrow>
     (let paths = [''site_id'', ''scope'', ''scope_id'', ''metric''] in
      sle_impact ImpactGateways = resolve ''listSiteSleImpactedGateways'' paths \<and>
      sle_impact ImpactApplications = resolve ''listSiteSleImpactedApplications'' paths \<and>
      sle_impact ImpactSummary = resolve ''getSiteSleImpactSummary'' paths)"

definition applications_resolve_source_and_mode :: bool where
  "applications_resolve_source_and_mode \<longleftrightarrow>
     applications AppSite ModeRecords = resolve ''listSiteApps'' [''site_id''] \<and>
     applications AppSite ModeCount = resolve ''countSiteApps'' [''site_id''] \<and>
     applications AppCatalog ModeCount = resolve ''listGatewayApplications'' []"

definition list_config_resolves_object_and_scope :: bool where
  "list_config_resolves_object_and_scope \<longleftrightarrow>
     list_config ObjNetwork ScopeOrg = resolve ''listOrgNetworks'' [''org_id''] \<and>
     list_config ObjNetwork ScopeSite = resolve ''listSiteNetworksDerived'' [''site_id''] \<and>
     list_config ObjGatewayTemplate ScopeSite = resolve ''listSiteGatewayTemplatesDerived'' [''site_id''] \<and>
     list_config ObjDeviceProfile ScopeSite = resolve ''listSiteDeviceProfilesDerived'' [''site_id'']"

definition get_config_resolves_each_object :: bool where
  "get_config_resolves_each_object \<longleftrightarrow>
     get_config ObjNetwork = resolve ''getOrgNetwork'' [''org_id'', ''network_id''] \<and>
     get_config ObjService = resolve ''getOrgService'' [''org_id'', ''service_id''] \<and>
     get_config ObjServicePolicy = resolve ''getOrgServicePolicy'' [''org_id'', ''servicepolicy_id''] \<and>
     get_config ObjGatewayTemplate = resolve ''getOrgGatewayTemplate'' [''org_id'', ''gatewaytemplate_id''] \<and>
     get_config ObjDeviceProfile = resolve ''getOrgDeviceProfile'' [''org_id'', ''deviceprofile_id'']"

lemma wan_tests:
  scope_requires_exactly_one_identifier wan_edges_resolves_per_scope wan_edge_stats_selects_on_device_presence
  tunnels_resolve_per_mode peer_paths_resolve_per_mode alarms_resolve_all_four_combinations
  bgp_peers_resolve_all_four_combinations service_path_events_resolve_per_mode sle_impact_resolves_per_selector
  applications_resolve_source_and_mode list_config_resolves_object_and_scope get_config_resolves_each_object
  by (simp_all add: scope_requires_exactly_one_identifier_def wan_edges_resolves_per_scope_def
      wan_edge_stats_selects_on_device_presence_def tunnels_resolve_per_mode_def peer_paths_resolve_per_mode_def
      alarms_resolve_all_four_combinations_def bgp_peers_resolve_all_four_combinations_def
      service_path_events_resolve_per_mode_def sle_impact_resolves_per_selector_def
      applications_resolve_source_and_mode_def list_config_resolves_object_and_scope_def
      get_config_resolves_each_object_def resolve_scope_def wan_edge_stats_def sle_impact_def)

section \<open>\<open>wan_write.rs\<close>\<close>

definition update_targets_pair_each_write_with_its_own_read :: bool where
  "update_targets_pair_each_write_with_its_own_read \<longleftrightarrow>
     write_target ObjNetwork VerbUpdate = target_info ''updateOrgNetwork'' ''getOrgNetwork'' ''network_id'' False \<and>
     write_target ObjService VerbUpdate = target_info ''updateOrgService'' ''getOrgService'' ''service_id'' False \<and>
     write_target ObjServicePolicy VerbUpdate =
       target_info ''updateOrgServicePolicy'' ''getOrgServicePolicy'' ''servicepolicy_id'' False \<and>
     write_target ObjGatewayTemplate VerbUpdate =
       target_info ''updateOrgGatewayTemplate'' ''getOrgGatewayTemplate'' ''gatewaytemplate_id'' True \<and>
     write_target ObjDeviceProfile VerbUpdate =
       target_info ''updateOrgDeviceProfile'' ''getOrgDeviceProfile'' ''deviceprofile_id'' True"

definition create_targets_use_the_collection_endpoint :: bool where
  "create_targets_use_the_collection_endpoint \<longleftrightarrow>
     (let service = write_target ObjService VerbCreate; profile = write_target ObjDeviceProfile VerbCreate in
      wt_write_operation_id service = ''createOrgService'' \<and> wt_read_operation_id service = ''getOrgService'' \<and>
      wt_write_operation_id profile = ''createOrgDeviceProfile'' \<and> wt_privileged profile)"

definition every_object_and_verb_resolves :: bool where
  "every_object_and_verb_resolves \<longleftrightarrow>
     list_all (\<lambda>object. list_all (\<lambda>verb.
         starts_with (case verb of VerbCreate \<Rightarrow> ''create'' | VerbUpdate \<Rightarrow> ''update'')
           (wt_write_operation_id (write_target object verb)) \<and>
         starts_with ''get'' (wt_read_operation_id (write_target object verb)))
       [VerbCreate, VerbUpdate])
     [ObjNetwork, ObjService, ObjServicePolicy, ObjGatewayTemplate, ObjDeviceProfile]"

abbreviation int_json :: "u64 \<Rightarrow> json" where
  "int_json n \<equiv> JNum (PosInt n)"

definition merge_preserves_unspecified_fields :: bool where
  "merge_preserves_unspecified_fields \<longleftrightarrow>
     json_eq (merge_patch
         (JObj [(''name'', JStr ''branch''), (''vlan_id'', int_json 10), (''subnet'', JStr ''10.0.0.0/24'')])
         (JObj [(''vlan_id'', int_json 20)]))
       (JObj [(''name'', JStr ''branch''), (''vlan_id'', int_json 20), (''subnet'', JStr ''10.0.0.0/24'')])"

definition merge_replaces_arrays_wholesale :: bool where
  "merge_replaces_arrays_wholesale \<longleftrightarrow>
     json_eq (merge_patch (JObj [(''servers'', JArr [JStr ''a'', JStr ''b'', JStr ''c''])])
         (JObj [(''servers'', JArr [JStr ''z''])]))
       (JObj [(''servers'', JArr [JStr ''z''])])"

definition merge_deletes_on_null :: bool where
  "merge_deletes_on_null \<longleftrightarrow>
     json_eq (merge_patch (JObj [(''name'', JStr ''branch''), (''note'', JStr ''temporary'')]) (JObj [(''note'', JNull)]))
       (JObj [(''name'', JStr ''branch'')])"

definition merge_recurses_into_nested_objects :: bool where
  "merge_recurses_into_nested_objects \<longleftrightarrow>
     json_eq (merge_patch (JObj [(''dhcpd'', JObj [(''enabled'', JBool True), (''lease'', int_json 3600)])])
         (JObj [(''dhcpd'', JObj [(''lease'', int_json 7200)])]))
       (JObj [(''dhcpd'', JObj [(''enabled'', JBool True), (''lease'', int_json 7200)])])"

definition config_authority_is_refused_at_any_depth :: bool where
  "config_authority_is_refused_at_any_depth \<longleftrightarrow>
     reject_config_authority (JObj [(''mist_configured'', JBool True)]) = Inl MistConfigured \<and>
     reject_config_authority (JObj [(''switch'', JObj [(''mist_configured'', JBool False)])]) = Inl MistConfigured \<and>
     reject_config_authority (JObj [(''devices'', JArr [JObj [(''mist_configured'', JBool True)]])]) = Inl MistConfigured \<and>
     reject_config_authority (JObj [(''name'', JStr ''branch'')]) = Inr ()"

definition redaction_placeholder_is_refused_at_any_depth :: bool where
  "redaction_placeholder_is_refused_at_any_depth \<longleftrightarrow>
     reject_redaction_placeholder (JObj [(''psk'', JStr ''[REDACTED]'')]) = Inl RedactionPlaceholder \<and>
     reject_redaction_placeholder (JObj [(''tunnel_configs'', JObj [(''t1'',
       JObj [(''provider'', JStr ''zscaler-ipsec''), (''psk'', JStr ''[REDACTED]'')])])]) = Inl RedactionPlaceholder \<and>
     reject_redaction_placeholder (JObj [(''radius_config'', JObj [(''auth_servers'',
       JArr [JObj [(''host'', JStr ''10.0.0.1''), (''secret'', JStr ''[REDACTED]'')]])])]) = Inl RedactionPlaceholder \<and>
     reject_redaction_placeholder (JObj [(''name'', JStr ''branch''), (''vlan_id'', int_json 20)]) = Inr () \<and>
     reject_redaction_placeholder (JObj [(''note'', JStr ''field is [REDACTED] upstream'')]) = Inl RedactionPlaceholder \<and>
     reject_redaction_placeholder (JObj [(''additional_config_cmds'',
       JArr [JStr ''set system radius-server 10.0.0.1 secret [REDACTED]''])]) = Inl RedactionPlaceholder"

lemma write_target_tests:
  update_targets_pair_each_write_with_its_own_read create_targets_use_the_collection_endpoint every_object_and_verb_resolves
  by (simp_all add: update_targets_pair_each_write_with_its_own_read_def create_targets_use_the_collection_endpoint_def
      every_object_and_verb_resolves_def target_info_def starts_with_def)

lemma merge_tests:
  merge_preserves_unspecified_fields merge_replaces_arrays_wholesale merge_deletes_on_null
  merge_recurses_into_nested_objects
  by code_simp+

lemma refusal_tests:
  config_authority_is_refused_at_any_depth redaction_placeholder_is_refused_at_any_depth
  by code_simp+

section \<open>\<open>similarity.rs\<close>\<close>

text \<open>The strings are ASCII, for which Rust's lowercasing is that of the letters.\<close>

abbreviation ascii_distance :: "string \<Rightarrow> string \<Rightarrow> nat" where
  "ascii_distance \<equiv> levenshtein_distance to_ascii_lowercase"

definition test_levenshtein_distance_exact_match :: bool where
  "test_levenshtein_distance_exact_match \<longleftrightarrow> ascii_distance ''hello'' ''hello'' = 0"

definition test_levenshtein_distance_case_insensitive :: bool where
  "test_levenshtein_distance_case_insensitive \<longleftrightarrow>
     ascii_distance ''Hello'' ''hello'' = 0 \<and> ascii_distance ''HELLO'' ''hello'' = 0"

definition test_levenshtein_distance_single_substitution :: bool where
  "test_levenshtein_distance_single_substitution \<longleftrightarrow> ascii_distance ''hello'' ''hallo'' = 1"

definition test_levenshtein_distance_prefix_difference :: bool where
  "test_levenshtein_distance_prefix_difference \<longleftrightarrow> ascii_distance ''listOrgInventory'' ''getOrgInventory'' = 3"

definition test_levenshtein_distance_suffix_difference :: bool where
  "test_levenshtein_distance_suffix_difference \<longleftrightarrow> ascii_distance ''getOrgLicenses'' ''getOrgLicensesSummary'' = 7"

definition test_levenshtein_distance_completely_different :: bool where
  "test_levenshtein_distance_completely_different \<longleftrightarrow> ascii_distance ''abc'' ''xyz'' = 3"

text \<open>Neighbours in the table differ by at most one, so a common end of the strings costs nothing, and an
  added end costs its length.\<close>

lemma edit_table_up: "edit_table a b (Suc i) j \<le> edit_table a b i j + 1"
  by (cases j) auto

lemma edit_table_right: "edit_table a b i (Suc j) \<le> edit_table a b i j + 1"
  by (cases i) auto

lemma edit_table_ge: "j \<le> edit_table a b i j + i \<and> i \<le> edit_table a b i j + j"
  by (induction a b i j rule: edit_table.induct) (auto simp: min_def)

lemma edit_table_down: "edit_table a b i j \<le> edit_table a b (Suc i) j + 1 \<and> edit_table a b i j \<le> edit_table a b i (Suc j) + 1"
proof (induction a b i j rule: edit_table.induct)
  case (1 a b j)
  show ?case using edit_table_ge [of j a b "Suc 0"] by simp
next
  case (2 a b i)
  show ?case using edit_table_ge [of "Suc 0" a b "Suc i"] by simp
next
  case (3 a b i j)
  note up = edit_table_up [of a b i j] edit_table_up [of a b i "Suc j"] edit_table_up [of a b "Suc i" j]
  note right = edit_table_right [of a b i j] edit_table_right [of a b "Suc i" j] edit_table_right [of a b i "Suc j"]
  have "edit_table a b (Suc i) (Suc j) \<le> edit_table a b (Suc (Suc i)) (Suc j) + 1"
    using 3 up right by (auto simp: min_def)
  moreover have "edit_table a b (Suc i) (Suc j) \<le> edit_table a b (Suc i) (Suc (Suc j)) + 1"
    using 3 up right by (auto simp: min_def)
  ultimately show ?case ..
qed

lemma levenshtein_common_end: "levenshtein_chars (a @ s) (b @ s) = levenshtein_chars a b"
proof (induction s rule: rev_induct)
  case (snoc x s)
  let ?a = "a @ s" and ?b = "b @ s"
  have "edit_table (?a @ [x]) (?b @ [x]) (Suc (length ?a)) (Suc (length ?b)) =
      edit_table (?a @ [x]) (?b @ [x]) (length ?a) (length ?b)"
    using edit_table_down [of "?a @ [x]" "?b @ [x]" "length ?a" "length ?b"]
    by (simp add: nth_append min_def)
  also have "\<dots> = levenshtein_chars ?a ?b" by (simp only: edit_table_append levenshtein_table)
  finally show ?case using snoc by (simp add: levenshtein_table)
qed simp

lemma levenshtein_added_end: "levenshtein_chars s (s @ t) = length t"
proof -
  have "length t \<le> levenshtein_chars s (s @ t)"
    using edit_table_ge [of "length s + length t" s "s @ t" "length s"] by (simp add: levenshtein_table)
  moreover have "edit_table s (s @ t) i (j + k) \<le> edit_table s (s @ t) i j + k" for i j k
  proof (induction k)
    case (Suc k)
    then show ?case using edit_table_right [of s "s @ t" i "j + k"] by simp
  qed simp
  from this [of "length s" "length s" "length t"] have "levenshtein_chars s (s @ t) \<le> length t"
    using edit_table_append [of "length s" s "length s" s "[]" t] levenshtein_zero [of s s]
    by (simp add: levenshtein_table)
  ultimately show ?thesis by simp
qed

lemma chars_ascii: "list_all (\<lambda>c. \<not> is_continuation c) cs \<Longrightarrow> chars cs = map (\<lambda>c. [c]) cs"
proof (induction cs)
  case (Cons c cs)
  then have "takeWhile is_continuation cs = []" "dropWhile is_continuation cs = cs" by (cases cs; simp)+
  with Cons show ?case by simp
qed simp

lemma distance_by_ends:
  assumes "to_ascii_lowercase a = a' @ s" "to_ascii_lowercase b = b' @ s"
    and "list_all (\<lambda>c. \<not> is_continuation c) (a' @ b' @ s)"
  shows "ascii_distance a b = levenshtein_chars (map (\<lambda>c. [c]) a') (map (\<lambda>c. [c]) b')"
  using assms by (simp add: levenshtein_distance_def chars_ascii levenshtein_common_end)

lemma distance_tests:
  test_levenshtein_distance_exact_match test_levenshtein_distance_case_insensitive
  test_levenshtein_distance_single_substitution test_levenshtein_distance_prefix_difference
  test_levenshtein_distance_suffix_difference test_levenshtein_distance_completely_different
proof -
  have lower: "to_ascii_lowercase ''hello'' = ''hello''" "to_ascii_lowercase ''Hello'' = ''hello''"
      "to_ascii_lowercase ''HELLO'' = ''hello''" "to_ascii_lowercase ''hallo'' = ''ha'' @ ''llo''"
      "to_ascii_lowercase ''hello'' = ''he'' @ ''llo''" "to_ascii_lowercase ''abc'' = ''abc'' @ []"
      "to_ascii_lowercase ''xyz'' = ''xyz'' @ []"
      "to_ascii_lowercase ''listOrgInventory'' = ''list'' @ ''orginventory''"
      "to_ascii_lowercase ''getOrgInventory'' = ''get'' @ ''orginventory''"
      "to_ascii_lowercase ''getOrgLicenses'' = ''getorglicenses''"
      "to_ascii_lowercase ''getOrgLicensesSummary'' = ''getorglicenses'' @ ''summary''"
    by code_simp+
  have ascii: "list_all (\<lambda>c. \<not> is_continuation c) (''hahello'' @ ''abcxyz'' @ ''listgetorginventory'')"
    by code_simp
  have suffix: "list_all (\<lambda>c. \<not> is_continuation c) (''getorglicenses'' @ ''summary'')"
    by code_simp
  have zero: "levenshtein_chars x x = (0 :: nat)" for x :: "string list" by (simp add: levenshtein_zero)
  show test_levenshtein_distance_exact_match test_levenshtein_distance_case_insensitive
    unfolding test_levenshtein_distance_exact_match_def test_levenshtein_distance_case_insensitive_def
      levenshtein_distance_def lower(1-3)
    by (simp_all only: zero simp_thms)
  have "levenshtein_chars (map (\<lambda>c. [c]) ''he'') (map (\<lambda>c. [c]) ''ha'') = 1"
    by (simp add: levenshtein_table numeral_eq_Suc)
  then show test_levenshtein_distance_single_substitution
    unfolding test_levenshtein_distance_single_substitution_def
    using distance_by_ends [OF lower(5,4)] ascii by simp
  have "levenshtein_chars (map (\<lambda>c. [c]) ''list'') (map (\<lambda>c. [c]) ''get'') = 3"
    by (simp add: levenshtein_table numeral_eq_Suc)
  then show test_levenshtein_distance_prefix_difference
    unfolding test_levenshtein_distance_prefix_difference_def
    using distance_by_ends [OF lower(8,9)] ascii by simp
  have "levenshtein_chars (map (\<lambda>c. [c]) ''abc'') (map (\<lambda>c. [c]) ''xyz'') = 3"
    by (simp add: levenshtein_table numeral_eq_Suc)
  then show test_levenshtein_distance_completely_different
    unfolding test_levenshtein_distance_completely_different_def
    using distance_by_ends [OF lower(6,7)] ascii by simp
  have "chars (''getorglicenses'' @ ''summary'') = map (\<lambda>c. [c]) ''getorglicenses'' @ map (\<lambda>c. [c]) ''summary''"
    by (simp only: chars_ascii [OF suffix] map_append)
  moreover have "chars ''getorglicenses'' = map (\<lambda>c. [c]) ''getorglicenses''"
    using suffix by (intro chars_ascii) simp
  ultimately show test_levenshtein_distance_suffix_difference
    unfolding test_levenshtein_distance_suffix_difference_def levenshtein_distance_def lower(10,11)
    by (simp only: levenshtein_added_end length_map) simp
qed

section \<open>\<open>change_set.rs\<close>, \<open>pagination.rs\<close>, \<open>execute_class.rs\<close>\<close>

definition object_key_names_the_object_not_the_org :: bool where
  "object_key_names_the_object_not_the_org \<longleftrightarrow>
     object_key ObjNetwork (Some ''2b0f0000-0000-0000-0000-000000000001'')
       = ''network/2b0f0000-0000-0000-0000-000000000001'' \<and>
     object_key ObjGatewayTemplate (Some ''abc'') = ''gatewaytemplate/abc''"

definition creates_share_one_key_per_object_type :: bool where
  "creates_share_one_key_per_object_type \<longleftrightarrow>
     object_key ObjService None = ''service/new'' \<and> object_key ObjNetwork None = ''network/new''"

definition page_limit_cursor_requires_a_positive_integer_value :: bool where
  "page_limit_cursor_requires_a_positive_integer_value \<longleftrightarrow>
     list_all (\<lambda>v. v = [] \<or> \<not> is_ok (cursor_new ''listOrgSites'' example_origin PageLimit v))
       [''0'', ''not-a-number'', ''-1'', []] \<and>
     is_ok (cursor_new ''listOrgSites'' example_origin PageLimit ''2'')"

definition search_after_cursor_accepts_arbitrary_opaque_values :: bool where
  "search_after_cursor_accepts_arbitrary_opaque_values \<longleftrightarrow>
     is_ok (cursor_new ''searchOrgAlarms'' example_origin SearchAfter ''not-a-number'')"

definition an_operation_belongs_to_exactly_one_class :: bool where
  "an_operation_belongs_to_exactly_one_class \<longleftrightarrow>
     distinct (EXCLUDED_EXECUTE_OPERATIONS @ DIAGNOSTIC_EXECUTE_OPERATIONS @ GATED_EXECUTE_OPERATIONS)"

definition identity_and_credential_operations_are_excluded :: bool where
  "identity_and_credential_operations_are_excluded \<longleftrightarrow>
     list_all (\<lambda>operation. execute_class operation = Excluded)
       [''loginOauth2'', ''logout'', ''twoFactor'', ''verifyTwoFactor'', ''recoverPassword'', ''verifyRegistration'',
        ''verifyAdminInvite'', ''exportOrgSsrIdTokens'', ''getSiteDeviceZtpPassword'']"

definition disruption_is_gated_and_probes_are_not :: bool where
  "disruption_is_gated_and_probes_are_not \<longleftrightarrow>
     execute_class ''upgradeOrgDevices'' = Gated \<and> execute_class ''restartSiteMultipleDevices'' = Gated \<and>
     execute_class ''toogleSiteDeviceVcRoutingEnginesRole'' = Gated \<and>
     execute_class ''startSitePacketCapture'' = Gated \<and>
     execute_class ''pingFromDevice'' = Diagnostic \<and> execute_class ''showSiteDeviceMacTable'' = Diagnostic"

definition an_unknown_operation_defaults_to_gated :: bool where
  "an_unknown_operation_defaults_to_gated \<longleftrightarrow> execute_class ''someOperationMistAddedYesterday'' = Gated"

lemma object_key_tests: object_key_names_the_object_not_the_org creates_share_one_key_per_object_type
  by code_simp+

lemma cursor_tests:
  page_limit_cursor_requires_a_positive_integer_value search_after_cursor_accepts_arbitrary_opaque_values
proof -
  have "parse_u64 ''0'' = Some 0" "parse_u64 ''not-a-number'' = None" "parse_u64 ''-1'' = None"
    by (simp_all add: parse_u64_def digits_value_def char_class_defs Let_def)
  then show page_limit_cursor_requires_a_positive_integer_value
    using example_page_cursor
    by (simp add: page_limit_cursor_requires_a_positive_integer_value_def cursor_new_def MAX_OPERATION_ID_BYTES_def
        MAX_CURSOR_BYTES_def)
qed (simp add: search_after_cursor_accepts_arbitrary_opaque_values_def cursor_new_def MAX_OPERATION_ID_BYTES_def
  MAX_CURSOR_BYTES_def)

lemma class_tests:
  an_operation_belongs_to_exactly_one_class identity_and_credential_operations_are_excluded
  disruption_is_gated_and_probes_are_not an_unknown_operation_defaults_to_gated
proof -
  show an_operation_belongs_to_exactly_one_class
    unfolding an_operation_belongs_to_exactly_one_class_def by (rule execute_lists_distinct)
  show identity_and_credential_operations_are_excluded disruption_is_gated_and_probes_are_not
    an_unknown_operation_defaults_to_gated
    by code_simp+
qed

section \<open>\<open>client.rs\<close>\<close>

text \<open>A catalog that paginates the operations of the tests as the embedded one does.\<close>

definition paginates :: "catalog \<Rightarrow> string \<Rightarrow> pagination_mode \<Rightarrow> bool" where
  "paginates cat i mode \<longleftrightarrow> (case catalog_operation cat i of None \<Rightarrow> False | Some p \<Rightarrow> pagination p = mode)"

definition tested_client :: "catalog \<Rightarrow> http_client" where
  "tested_client cat = example_client\<lparr>hc_credential := ''test-token-12345'', hc_catalog := cat\<rparr>"

definition page_of :: "u64 \<Rightarrow> u64 \<Rightarrow> u64 \<Rightarrow> page_info" where
  "page_of n limit t = \<lparr>pi_page = Some n, pi_limit = Some limit, pi_total = Some t\<rparr>"

definition http_client_construction_validates_endpoint :: "url_ops \<Rightarrow> catalog \<Rightarrow> bool" where
  "http_client_construction_validates_endpoint urls cat \<longleftrightarrow>
     (let make = (\<lambda>e. http_client_new urls (\<lambda>_. True) 0 e ''test-token-12345'' cat default_client_config) in
      make ''http://api.mist.com/'' = Inl InvalidEndpoint \<and> is_ok (make ''https://api.mist.com/''))"

definition http_client_rejects_invalid_credentials :: "url_ops \<Rightarrow> catalog \<Rightarrow> bool" where
  "http_client_rejects_invalid_credentials urls cat \<longleftrightarrow>
     (let make = (\<lambda>c. http_client_new urls (\<lambda>_. True) 0 ''https://api.mist.com/'' c cat default_client_config) in
      make [] = Inl InvalidCredential \<and> make (replicate (17 * 1024) (CHR ''x'')) = Inl InvalidCredential)"

definition derive_next_cursor_is_none_for_non_paginated_operations :: "url_ops \<Rightarrow> catalog \<Rightarrow> bool" where
  "derive_next_cursor_is_none_for_non_paginated_operations urls cat \<longleftrightarrow>
     derive_next_cursor urls (tested_client cat) ''getOrg''
       (BodyJson (JObj [(''id'', JStr ''11111111-1111-1111-1111-111111111111''), (''next'', JStr ''cursor-token-123'')]))
       None = None"

definition derive_next_cursor_advances_page_limit_operations_from_headers :: "url_ops \<Rightarrow> catalog \<Rightarrow> bool" where
  "derive_next_cursor_advances_page_limit_operations_from_headers urls cat \<longleftrightarrow>
     (let derive = (\<lambda>page. derive_next_cursor urls (tested_client cat) ''listOrgSites'' (BodyJson (JArr [])) (Some page)) in
      (case derive (page_of 1 10 25) of
         None \<Rightarrow> False
       | Some cursor \<Rightarrow> cur_value cursor = ''2'' \<and> cur_mode cursor = PageLimit) \<and>
      derive (page_of 3 10 25) = None)"

definition derive_next_cursor_refuses_a_zero_page_limit_instead_of_looping_forever :: "url_ops \<Rightarrow> catalog \<Rightarrow> bool" where
  "derive_next_cursor_refuses_a_zero_page_limit_instead_of_looping_forever urls cat \<longleftrightarrow>
     derive_next_cursor urls (tested_client cat) ''listOrgSites'' (BodyJson (JArr [])) (Some (page_of 7 0 5)) = None"

definition derive_next_cursor_does_not_overflow_on_a_maximal_page_number :: "url_ops \<Rightarrow> catalog \<Rightarrow> bool" where
  "derive_next_cursor_does_not_overflow_on_a_maximal_page_number urls cat \<longleftrightarrow>
     derive_next_cursor urls (tested_client cat) ''listOrgSites'' (BodyJson (JArr []))
       (Some (page_of (- 1) 1 (- 1))) = None"

lemma construction_tests:
  assumes "uo_parse urls ''http://api.mist.com/'' = Some (example_origin\<lparr>url_scheme := ''http''\<rparr>)"
    and "uo_parse urls ''https://api.mist.com/'' = Some example_origin"
  shows "http_client_construction_validates_endpoint urls cat" and "http_client_rejects_invalid_credentials urls cat"
  using assms
  by (simp_all add: http_client_construction_validates_endpoint_def http_client_rejects_invalid_credentials_def
      http_client_new_def example_origin_def)

lemma next_cursor_tests:
  assumes "paginates cat ''listOrgSites'' PageLimit"
  shows "derive_next_cursor_advances_page_limit_operations_from_headers urls cat"
    and "derive_next_cursor_refuses_a_zero_page_limit_instead_of_looping_forever urls cat"
    and "derive_next_cursor_does_not_overflow_on_a_maximal_page_number urls cat"
proof -
  have derive: "derive_next_cursor urls (tested_client cat) ''listOrgSites'' body (Some page) =
      next_page_cursor (tested_client cat) ''listOrgSites'' page" for body page
    using assms by (auto simp: paginates_def derive_next_cursor_def tested_client_def split: option.splits)
  have origin: "hc_base_url (tested_client cat) = example_origin" by (simp add: tested_client_def example_client_def)
  have "sat_mul 1 (10 :: u64) = 10" "sat_mul 3 (10 :: u64) = 30" "checked_add 1 (1 :: u64) = Some 2"
    by (simp_all add: sat_mul_def checked_add_def)
  moreover have "dec_nat 2 = ''2''" by code_simp
  ultimately show "derive_next_cursor_advances_page_limit_operations_from_headers urls cat"
    unfolding derive_next_cursor_advances_page_limit_operations_from_headers_def derive Let_def
    by (simp add: next_page_cursor_def page_of_def origin example_page_cursor word_le_nat_alt)
  show "derive_next_cursor_refuses_a_zero_page_limit_instead_of_looping_forever urls cat"
    unfolding derive_next_cursor_refuses_a_zero_page_limit_instead_of_looping_forever_def derive
    by (simp add: next_page_cursor_def page_of_def)
  have "checked_add (- 1) (1 :: u64) = None" by (simp add: checked_add_def unat_max_word)
  then show "derive_next_cursor_does_not_overflow_on_a_maximal_page_number urls cat"
    unfolding derive_next_cursor_does_not_overflow_on_a_maximal_page_number_def derive
    by (simp add: next_page_cursor_def page_of_def)
qed

lemma unpaginated_test:
  "paginates cat ''getOrg'' PagNone \<Longrightarrow> derive_next_cursor_is_none_for_non_paginated_operations urls cat"
  by (auto simp: paginates_def derive_next_cursor_is_none_for_non_paginated_operations_def derive_next_cursor_def
      tested_client_def split: option.splits)

subsection \<open>Calls against a mock server\<close>

text \<open>The server answers its canned responses in the order of the attempts of one call; the clock stands still.\<close>

definition from_test_parts_with_config :: "nat \<Rightarrow> url \<Rightarrow> string \<Rightarrow> catalog \<Rightarrow> http_client_config \<Rightarrow> http_client" where
  "from_test_parts_with_config now base_url credential cat config =
     \<lparr>hc_base_url = base_url, hc_credential = credential, hc_catalog = cat,
      hc_budget = new_budget now (cc_hourly_call_budget config) (cc_human_reserve config),
      hc_max_429_retries = cc_max_429_retries config, hc_max_retry_wait = cc_max_retry_wait config\<rparr>"

definition serve_https :: "http_response list \<Rightarrow> http_request \<Rightarrow> nat \<Rightarrow> string + http_response" where
  "serve_https canned request n =
     (if n < length canned then Inr (canned ! n) else Inl ''connection refused'')"

definition test_env :: "url_ops \<Rightarrow> json_text \<Rightarrow> nat \<Rightarrow> http_response list \<Rightarrow> client_env" where
  "test_env urls texts now canned = \<lparr>ce_url = urls, ce_json = texts, ce_send = serve_https canned,
     ce_request_ok = \<lambda>_. Inr (), ce_clock = (now, now, now, now)\<rparr>"

definition org_request :: mist_request where
  "org_request = \<lparr>req_operation_id = ''getOrg'',
     req_path = bt_insert ''org_id'' ''11111111-1111-1111-1111-111111111111'' bt_empty, req_query = bt_empty,
     req_json = None, req_cursor = None\<rparr>"

definition ok_org_response :: "u8 list \<Rightarrow> http_response" where
  "ok_org_response body = \<lparr>hs_status = 200,
     hs_header = [''Content-Type'' \<mapsto> ''application/json'', ''Content-Length'' \<mapsto> dec_nat (length body)], hs_body = body\<rparr>"

definition rate_limited_response :: "nat \<Rightarrow> http_response" where
  "rate_limited_response retry_after_secs = \<lparr>hs_status = 429,
     hs_header = [''Retry-After'' \<mapsto> dec_nat retry_after_secs, ''Content-Length'' \<mapsto> ''0''], hs_body = []\<rparr>"

definition standard_priority_is_denied_while_reserved_headroom_stays_available ::
  "url_ops \<Rightarrow> json_text \<Rightarrow> nat \<Rightarrow> url \<Rightarrow> catalog \<Rightarrow> u8 list \<Rightarrow> bool" where
  "standard_priority_is_denied_while_reserved_headroom_stays_available urls texts now base cat body \<longleftrightarrow>
     (let client = from_test_parts_with_config now base ''test-token-12345'' cat
            (default_client_config\<lparr>cc_hourly_call_budget := 1, cc_human_reserve := 1\<rparr>);
          (client1, denied, attempts, _) = http_execute_as (test_env urls texts now []) client org_request Standard;
          (client2, reserved, _) = http_execute_as (test_env urls texts now [ok_org_response body]) client1 org_request Reserved;
          (client3, fully_denied, _) = http_execute_as (test_env urls texts now []) client2 org_request Reserved
      in denied = Inl (mist_error.BudgetExhausted 0 1 1) \<and> attempts = 0 \<and> is_ok reserved \<and>
        fully_denied = Inl (mist_error.BudgetExhausted 1 1 1))"

definition tool_output_can_report_remaining_budget ::
  "url_ops \<Rightarrow> json_text \<Rightarrow> nat \<Rightarrow> url \<Rightarrow> catalog \<Rightarrow> u8 list \<Rightarrow> bool" where
  "tool_output_can_report_remaining_budget urls texts now base cat body \<longleftrightarrow>
     (let client = from_test_parts_with_config now base ''test-token-12345'' cat
            (default_client_config\<lparr>cc_hourly_call_budget := 5000, cc_human_reserve := 250\<rparr>);
          (client0, before) = http_budget_status now now client;
          (client1, outcome, _) = http_execute_as (test_env urls texts now [ok_org_response body]) client0 org_request Standard;
          (client2, after) = http_budget_status now now client1
      in map_option st_used before = Some 0 \<and> map_option st_remaining_standard before = Some (5000 - 250) \<and>
        map_option st_remaining_reserved before = Some 5000 \<and> is_ok outcome \<and>
        map_option st_used after = Some 1 \<and> map_option st_remaining_standard after = Some (5000 - 250 - 1) \<and>
        map_option st_remaining_reserved after = Some (5000 - 1))"

definition retries_honour_retry_after_and_then_succeed ::
  "url_ops \<Rightarrow> json_text \<Rightarrow> nat \<Rightarrow> url \<Rightarrow> catalog \<Rightarrow> u8 list \<Rightarrow> bool" where
  "retries_honour_retry_after_and_then_succeed urls texts now base cat body \<longleftrightarrow>
     (let client = from_test_parts_with_config now base ''test-token-12345'' cat
            (default_client_config\<lparr>cc_max_429_retries := 2, cc_max_retry_wait := millis 200\<rparr>);
          (_, outcome, _, waits) = http_execute_as
            (test_env urls texts now [rate_limited_response 0, rate_limited_response 0, ok_org_response body])
            client org_request Standard
      in (case outcome of Inl _ \<Rightarrow> False | Inr response \<Rightarrow> resp_status response = 200) \<and> sum_list waits \<le> secs 5)"

definition retries_give_up_after_the_bounded_attempt_count ::
  "url_ops \<Rightarrow> json_text \<Rightarrow> nat \<Rightarrow> url \<Rightarrow> catalog \<Rightarrow> bool" where
  "retries_give_up_after_the_bounded_attempt_count urls texts now base cat \<longleftrightarrow>
     (let client = from_test_parts_with_config now base ''test-token-12345'' cat
            (default_client_config\<lparr>cc_max_429_retries := 2, cc_max_retry_wait := millis 200\<rparr>);
          (_, outcome, _, waits) = http_execute_as
            (test_env urls texts now [rate_limited_response 0, rate_limited_response 0, rate_limited_response 0])
            client org_request Standard
      in outcome = Inl (RateLimited (Some 0)) \<and> sum_list waits \<le> secs 5)"

text \<open>Where the request can be prepared, as it can with the embedded catalog, the tests hold.\<close>

lemma rate_limited_header: "hs_header (rate_limited_response 0) ''Retry-After'' = Some ''0''" "parse_u64 ''0'' = Some 0"
proof -
  have "dec_nat 0 = ''0''" by code_simp
  then show "hs_header (rate_limited_response 0) ''Retry-After'' = Some ''0''" by (simp add: rate_limited_response_def)
qed (simp add: parse_u64_def digits_value_def char_class_defs Let_def)

definition test_parts :: "nat \<Rightarrow> url \<Rightarrow> catalog \<Rightarrow> http_client_config \<Rightarrow> http_client" where
  "test_parts now base cat config = from_test_parts_with_config now base ''test-token-12345'' cat config"

definition prepares :: "url_ops \<Rightarrow> json_text \<Rightarrow> nat \<Rightarrow> url \<Rightarrow> catalog \<Rightarrow> bool" where
  "prepares urls texts now base cat \<longleftrightarrow>
     is_ok (prepare_request (test_env urls texts now []) (test_parts now base cat default_client_config) org_request)"

lemma is_okE:
  assumes "is_ok r"
  obtains x where "r = Inr x"
  using assms by (cases r) auto

lemma prepare_request_cong:
  assumes "ce_url env = ce_url env'" "ce_json env = ce_json env'" "ce_request_ok env = ce_request_ok env'"
    and "hc_base_url hc = hc_base_url hc'" "hc_credential hc = hc_credential hc'" "hc_catalog hc = hc_catalog hc'"
  shows "prepare_request env hc r = prepare_request env' hc' r"
  by (simp only: prepare_request_def build_url_def assms)

lemma prepared:
  assumes "prepares urls texts now base cat"
  obtains request where
    "\<And>rs config b. prepare_request (test_env urls texts now rs) ((test_parts now base cat config)\<lparr>hc_budget := b\<rparr>)
       org_request = Inr request"
proof -
  have "prepare_request (test_env urls texts now rs) ((test_parts now base cat config)\<lparr>hc_budget := b\<rparr>) org_request =
      prepare_request (test_env urls texts now []) (test_parts now base cat default_client_config) org_request" for rs config b
    by (rule prepare_request_cong) (simp_all add: test_env_def test_parts_def from_test_parts_with_config_def)
  moreover obtain request where "prepare_request (test_env urls texts now [])
      (test_parts now base cat default_client_config) org_request = Inr request"
    using assms unfolding prepares_def by (rule is_okE)
  ultimately show thesis using that by metis
qed

lemma granted_call:
  assumes "try_acquire now now p (hc_budget hc) = (b, Inr st)"
    and "prepare_request (test_env urls texts now rs) (hc\<lparr>hc_budget := b\<rparr>) r = Inr request"
    and "send_loop (serve_https rs request) (hc_max_429_retries hc) (hc_max_retry_wait hc) 0 = (outcome, waits)"
  shows "http_execute_as (test_env urls texts now rs) hc r p =
    (hc\<lparr>hc_budget := b\<rparr>, and_then outcome (finish_response (test_env urls texts now rs) (hc\<lparr>hc_budget := b\<rparr>) r),
     Suc (length waits), waits)"
  using assms by (simp add: http_execute_as_def test_env_def)

lemma refused_call:
  assumes "try_acquire now now p (hc_budget hc) = (b, Inl e)" and "budget_status_of now now b = (b', st)"
  shows "http_execute_as (test_env urls texts now rs) hc r p =
    (hc\<lparr>hc_budget := b'\<rparr>, Inl (mist_error.BudgetExhausted (st_used st) (st_hourly_limit st) (st_human_reserve st)), 0, [])"
  using assms by (simp add: http_execute_as_def test_env_def)

lemma ok_org_finished:
  "case finish_response env hc r (ok_org_response body) of Inl _ \<Rightarrow> False | Inr x \<Rightarrow> resp_status x = 200"
  "is_ok (finish_response env hc r (ok_org_response body))"
  by (simp_all add: finish_response_def ok_org_response_def Let_def)

lemma canned_loops:
  "send_loop (serve_https [ok_org_response body] request) m w 0 = (Inr (ok_org_response body), [])"
  "send_loop (serve_https [rate_limited_response 0, rate_limited_response 0, ok_org_response body] request) 2 w 0 =
     (Inr (ok_org_response body), [0, 0])"
  "send_loop (serve_https [rate_limited_response 0, rate_limited_response 0, rate_limited_response 0] request) 2 w 0 =
     (Inl (RateLimited (Some 0)), [0, 0])"
proof -
  have statuses: "hs_status (ok_org_response body) = 200" "hs_status (rate_limited_response 0) = 429"
    by (simp_all add: ok_org_response_def rate_limited_response_def)
  note step = send_loop.simps serve_https_def rate_limited_header statuses retry_wait_def secs_def Let_def word_le_nat_alt
  show "send_loop (serve_https [ok_org_response body] request) m w 0 = (Inr (ok_org_response body), [])"
    by (simp add: step)
  show "send_loop (serve_https [rate_limited_response 0, rate_limited_response 0, ok_org_response body] request) 2 w 0 =
     (Inr (ok_org_response body), [0, 0])"
    by (simp add: step)
  show "send_loop (serve_https [rate_limited_response 0, rate_limited_response 0, rate_limited_response 0] request) 2 w 0 =
     (Inl (RateLimited (Some 0)), [0, 0])"
    by (simp add: step)
qed

lemma client_call_tests:
  assumes "prepares urls texts now base cat"
  shows "standard_priority_is_denied_while_reserved_headroom_stays_available urls texts now base cat body"
    and "tool_output_can_report_remaining_budget urls texts now base cat body"
    and "retries_honour_retry_after_and_then_succeed urls texts now base cat body"
    and "retries_give_up_after_the_bounded_attempt_count urls texts now base cat"
proof -
  obtain request where req: "\<And>rs config b. prepare_request (test_env urls texts now rs)
      ((test_parts now base cat config)\<lparr>hc_budget := b\<rparr>) org_request = Inr request"
    using prepared [OF assms] by blast
  have parts: "hc_budget (test_parts now base cat config) = spent now (cc_hourly_call_budget config)
        (min (cc_human_reserve config) (cc_hourly_call_budget config)) 0"
      "hc_max_429_retries (test_parts now base cat config) = cc_max_429_retries config"
      "hc_max_retry_wait (test_parts now base cat config) = cc_max_retry_wait config" for config
    by (simp_all add: test_parts_def from_test_parts_with_config_def spent_simps(1))
  let ?retrying = "default_client_config\<lparr>cc_max_429_retries := 2, cc_max_retry_wait := millis 200\<rparr>"
  let ?client = "test_parts now base cat ?retrying"
  have default: "cc_hourly_call_budget default_client_config = 5000" "cc_human_reserve default_client_config = 250"
    by (simp_all add: default_client_config_def)
  have charged: "try_acquire now now Standard (hc_budget ?client) =
      (spent now 5000 250 1, Inr (status_locked (spent now 5000 250 0) \<lparr>started_at = now, used = 1\<rparr>))"
    by (simp add: parts default spent_simps sat_sub_def)
  have retries: "hc_max_429_retries ?client = 2" by (simp add: parts)
  note call = granted_call [OF charged req, unfolded retries]
  show "retries_honour_retry_after_and_then_succeed urls texts now base cat body"
    unfolding retries_honour_retry_after_and_then_succeed_def test_parts_def [symmetric]
    by (simp add: call [OF canned_loops(2)] Let_def ok_org_finished)
  show "retries_give_up_after_the_bounded_attempt_count urls texts now base cat"
    unfolding retries_give_up_after_the_bounded_attempt_count_def test_parts_def [symmetric]
    by (simp add: call [OF canned_loops(3)] Let_def)
  let ?plenty = "test_parts now base cat (default_client_config\<lparr>cc_hourly_call_budget := 5000, cc_human_reserve := 250\<rparr>)"
  have fresh: "hc_budget ?plenty = spent now 5000 250 0" by (simp add: parts)
  have plenty: "?plenty\<lparr>hc_budget := hc_budget ?plenty\<rparr> = ?plenty" by simp
  have one: "try_acquire now now Standard (spent now 5000 250 0) =
      (spent now 5000 250 1, Inr (status_locked (spent now 5000 250 0) \<lparr>started_at = now, used = 1\<rparr>))"
    by (simp add: spent_simps sat_sub_def)
  have "http_execute_as (test_env urls texts now [ok_org_response body]) ?plenty org_request Standard =
      (?plenty\<lparr>hc_budget := spent now 5000 250 1\<rparr>,
       finish_response (test_env urls texts now [ok_org_response body]) (?plenty\<lparr>hc_budget := spent now 5000 250 1\<rparr>)
         org_request (ok_org_response body), 1, [])"
    using granted_call [OF one [folded fresh] req canned_loops(1)] by simp
  then show "tool_output_can_report_remaining_budget urls texts now base cat body"
    unfolding tool_output_can_report_remaining_budget_def test_parts_def [symmetric] Let_def http_budget_status_def
      fresh spent_simps(4) prod.case plenty [unfolded fresh]
    by (simp add: ok_org_finished sat_sub_def spent_simps(4))
  let ?none = "test_parts now base cat (default_client_config\<lparr>cc_hourly_call_budget := 1, cc_human_reserve := 1\<rparr>)"
  have empty: "hc_budget ?none = spent now 1 1 0" by (simp add: parts)
  have acquire: "try_acquire now now Standard (spent now 1 1 0) = (spent now 1 1 0, Inl Exhausted)"
    "try_acquire now now Reserved (spent now 1 1 0) =
      (spent now 1 1 1, Inr (status_locked (spent now 1 1 0) \<lparr>started_at = now, used = 1\<rparr>))"
    "try_acquire now now Reserved (spent now 1 1 1) = (spent now 1 1 1, Inl Exhausted)"
    by (simp_all add: spent_simps sat_sub_def)
  have "http_execute_as (test_env urls texts now []) ?none org_request Standard =
      (?none\<lparr>hc_budget := spent now 1 1 0\<rparr>, Inl (mist_error.BudgetExhausted 0 1 1), 0, [])"
    using refused_call [OF acquire(1) [folded empty]] by (simp add: empty spent_simps(4))
  moreover have "http_execute_as (test_env urls texts now [ok_org_response body]) (?none\<lparr>hc_budget := spent now 1 1 0\<rparr>)
      org_request Reserved =
      (?none\<lparr>hc_budget := spent now 1 1 1\<rparr>,
       finish_response (test_env urls texts now [ok_org_response body]) (?none\<lparr>hc_budget := spent now 1 1 1\<rparr>)
         org_request (ok_org_response body), 1, [])"
    using granted_call [of now Reserved "?none\<lparr>hc_budget := spent now 1 1 0\<rparr>", OF _ _ canned_loops(1)] req acquire(2) by simp
  moreover have "http_execute_as (test_env urls texts now []) (?none\<lparr>hc_budget := spent now 1 1 1\<rparr>) org_request Reserved =
      (?none\<lparr>hc_budget := spent now 1 1 1\<rparr>, Inl (mist_error.BudgetExhausted 1 1 1), 0, [])"
    using refused_call [of now Reserved "?none\<lparr>hc_budget := spent now 1 1 1\<rparr>"] acquire(3) by (simp add: spent_simps(4))
  ultimately show "standard_priority_is_denied_while_reserved_headroom_stays_available urls texts now base cat body"
    unfolding standard_priority_is_denied_while_reserved_headroom_stays_available_def test_parts_def [symmetric] Let_def
    by (simp add: ok_org_finished)
qed

section \<open>\<open>main.rs\<close>\<close>

definition none_false_refuses_to_serve_unauthenticated ::
  "(string \<Rightarrow> string \<Rightarrow> string + resolved_token_path) \<Rightarrow> (string \<Rightarrow> string + 't) \<Rightarrow> bool" where
  "none_false_refuses_to_serve_unauthenticated fallback load \<longleftrightarrow>
     (case load_http_token_store fallback load None False of
        Inl e \<Rightarrow> str_contains ''requires either --tokens-file or --allow-no-auth'' e
      | Inr _ \<Rightarrow> False)"

definition explicit_no_auth_is_permitted ::
  "(string \<Rightarrow> string \<Rightarrow> string + resolved_token_path) \<Rightarrow> (string \<Rightarrow> string + 't) \<Rightarrow> bool" where
  "explicit_no_auth_is_permitted fallback load \<longleftrightarrow>
     load_http_token_store fallback load None True = Inr ExplicitlyUnauthenticated"

definition a_custom_path_never_falls_back_to_the_legacy_store ::
  "(string \<Rightarrow> string \<Rightarrow> string + resolved_token_path) \<Rightarrow> string \<Rightarrow> bool" where
  "a_custom_path_never_falls_back_to_the_legacy_store fallback dir \<longleftrightarrow>
     (let custom = dir @ ''/operator-chosen.json'' in
      case resolve_tokens_with fallback custom (dir @ ''/var-lib-tokens.json'') (dir @ ''/etc-tokens.json'') of
        Inl _ \<Rightarrow> False
      | Inr resolved \<Rightarrow> rt_path resolved = custom \<and> \<not> rt_used_fallback resolved)"

definition a_trailing_slash_spelling_does_not_reach_the_legacy_store ::
  "(string \<Rightarrow> string \<Rightarrow> string + resolved_token_path) \<Rightarrow> string \<Rightarrow> bool" where
  "a_trailing_slash_spelling_does_not_reach_the_legacy_store fallback dir \<longleftrightarrow>
     (let canonical = dir @ ''/var-lib-tokens.json''; malformed = canonical @ ''/'' in
      case resolve_tokens_with fallback malformed canonical (dir @ ''/etc-tokens.json'') of
        Inl _ \<Rightarrow> False
      | Inr resolved \<Rightarrow> \<not> rt_used_fallback resolved \<and> rt_path resolved = malformed)"

definition lab_mode_off_loopback_is_refused :: "(ip_addr \<Rightarrow> string) \<Rightarrow> bool" where
  "lab_mode_off_loopback_is_refused show_ip \<longleftrightarrow>
     (case refuse_lab_mode_off_loopback show_ip True (V4 0 0 0 0) of
        Inl message \<Rightarrow> str_contains ''--lab-mode'' message \<and> str_contains ''loopback'' message
      | Inr _ \<Rightarrow> False) \<and>
     \<not> is_ok (refuse_lab_mode_off_loopback show_ip True (V6 0x20010db8000000000000000000000001))"

definition lab_mode_on_loopback_is_permitted :: "(ip_addr \<Rightarrow> string) \<Rightarrow> bool" where
  "lab_mode_on_loopback_is_permitted show_ip \<longleftrightarrow>
     list_all (\<lambda>ip. is_ok (refuse_lab_mode_off_loopback show_ip True ip)) [V4 127 0 0 1, V4 127 4 5 6, V6 1]"

definition non_lab_mode_ignores_bind_address :: "(ip_addr \<Rightarrow> string) \<Rightarrow> bool" where
  "non_lab_mode_ignores_bind_address show_ip \<longleftrightarrow> is_ok (refuse_lab_mode_off_loopback show_ip False (V4 0 0 0 0))"

definition no_approval_digest_key_file_is_fine :: "(string \<Rightarrow> string + 'k) \<Rightarrow> bool" where
  "no_approval_digest_key_file_is_fine load \<longleftrightarrow> load_approval_digest_key load None = Inr None"

definition base_cli_for_otel_test :: "'x cli" where
  "base_cli_for_otel_test = \<lparr>cl_command = None, cl_device_mapping = ''/dev/null'', cl_transport = StreamableHttp,
     cl_host = ''127.0.0.1'', cl_port = 8080, cl_allowed_host = [], cl_allowed_origin = [], cl_tokens_file = None,
     cl_allow_no_auth = True, cl_tls_cert = None, cl_tls_key = None, cl_allow_insecure_bind = False,
     cl_audit_hmac_key_file = None, cl_audit_redact = [], cl_otel_endpoint = None, cl_approval_digest_key_file = None,
     cl_state_file = ''/dev/null/changeset-state.json'', cl_approval_timeout_secs = 3600, cl_lab_mode = False,
     cl_site_refresh_interval_secs = 0\<rparr>"

definition otel_endpoint_set_refuses_to_start :: "('v, 'x) proc_env \<Rightarrow> bool" where
  "otel_endpoint_set_refuses_to_start env \<longleftrightarrow>
     (case snd (init_audit env (base_cli_for_otel_test\<lparr>cl_otel_endpoint := Some ''http://127.0.0.1:4318''\<rparr>)) of
        Inl e \<Rightarrow> str_contains ''--otel-endpoint'' e
      | Inr _ \<Rightarrow> False)"

definition no_otel_endpoint_starts_normally :: "('v, 'x) proc_env \<Rightarrow> bool" where
  "no_otel_endpoint_starts_normally env \<longleftrightarrow> is_ok (snd (init_audit env base_cli_for_otel_test))"

lemma auth_tests:
  "none_false_refuses_to_serve_unauthenticated fallback load" "explicit_no_auth_is_permitted fallback load"
  "a_custom_path_never_falls_back_to_the_legacy_store fallback dir"
  "a_trailing_slash_spelling_does_not_reach_the_legacy_store fallback dir"
proof -
  have "str_contains ''requires either --tokens-file or --allow-no-auth''
      (''HTTP transport requires either --tokens-file or --allow-no-auth; ''
       @ ''refusing to serve unauthenticated without explicit acknowledgement'')"
    by code_simp
  then show "none_false_refuses_to_serve_unauthenticated fallback load"
    by (simp add: none_false_refuses_to_serve_unauthenticated_def load_http_token_store_def)
qed (simp_all add: explicit_no_auth_is_permitted_def load_http_token_store_def
  a_custom_path_never_falls_back_to_the_legacy_store_def a_trailing_slash_spelling_does_not_reach_the_legacy_store_def
  resolve_tokens_with_def)

lemma str_contains_append: "str_contains n s \<Longrightarrow> str_contains n (s @ t)"
  by (metis str_contains_iff append.assoc)

lemma lab_mode_tests:
  "lab_mode_off_loopback_is_refused show_ip" "lab_mode_on_loopback_is_permitted show_ip"
  "non_lab_mode_ignores_bind_address show_ip" "no_approval_digest_key_file_is_fine load"
proof -
  let ?m = "''--lab-mode waives the human-approver gate for every caller that reaches the ''
    @ ''listener, so it may only be combined with a loopback bind address ''"
  have "str_contains ''--lab-mode'' ?m" "str_contains ''loopback'' ?m" by code_simp+
  note contains = this [THEN str_contains_append]
  have "\<exists>t. refuse_lab_mode_off_loopback show_ip True (V4 0 0 0 0) = Inl (?m @ t)"
    by (simp add: refuse_lab_mode_off_loopback_def)
  then obtain t where message: "refuse_lab_mode_off_loopback show_ip True (V4 0 0 0 0) = Inl (?m @ t)" ..
  have "\<not> is_ok (refuse_lab_mode_off_loopback show_ip True (V6 0x20010db8000000000000000000000001))"
    by (simp add: refuse_lab_mode_off_loopback_def)
  then show "lab_mode_off_loopback_is_refused show_ip"
    unfolding lab_mode_off_loopback_is_refused_def message sum.case by (intro conjI contains)
qed (simp_all add: lab_mode_on_loopback_is_permitted_def non_lab_mode_ignores_bind_address_def
  no_approval_digest_key_file_is_fine_def refuse_lab_mode_off_loopback_def load_approval_digest_key_def)

text \<open>The second needs a tracing setup that succeeds.\<close>

lemma otel_tests:
  "otel_endpoint_set_refuses_to_start env"
  "pe_init_tracing env base_cli_for_otel_test None = Inr sink \<Longrightarrow> no_otel_endpoint_starts_normally env"
  by (simp_all add: otel_endpoint_set_refuses_to_start_def no_otel_endpoint_starts_normally_def init_audit_def
      base_cli_for_otel_test_def blank_def followed_def proceed_def attempt_def note_that_def starts_with_def)

end
