(* ===== verification/Spec2Isabelle.thy ===== *)
theory Spec2Isabelle
  imports WireLab CursorWire ExecuteClass Approval Metered Pool Construct Signals CommandLine UnitTests
begin

text \<open>
  A model of rustmistmcp, an MCP server for the Juniper Mist API, and the theorems that make it
  correct. The program is two crates: \<open>crates/rustmistmcp-core\<close> (the catalog of operations, the
  validation of requests and responses, the HTTP client and its call budget) and
  \<open>crates/rustmistmcp\<close> (the server: tools, authorization, change sets, site discovery, start).

  A tool call takes this way: the HTTP transport runs the scope preflight over the raw body; the
  handler of the tool splits its arguments into path and query and names a catalogued
  operation; \<open>dispatch_catalogued_read\<close> checks the operation, the caller's tool scope and
  grant and the configured organization or site, validates the request, sends it through the client, which
  charges the budget and retries on 429, and validates and wraps the response. Writes go only
  through change sets: plan stages the merge of a patch into the state read, another principal
  approves, apply claims the record, checks drift, writes, reads back and settles.

  The theories, with the files they model (under \<open>src/crates\<close>):

  \<^item> \<open>Prelude\<close>, \<open>Rust_Strings\<close>, \<open>BTree\<close>, \<open>Json\<close>: words with Rust's saturating and checked
    operations, \<open>Result\<close> as a sum, strings as UTF-8 bytes, \<open>BTreeMap\<close> and serde's insertion-ordered
    object (both interpret the locale \<open>key_map\<close>), JSON values.
  \<^item> \<open>RateLimit\<close> (\<open>rate_limit.rs\<close>): the hourly window with the human reserve. The properties run
    any sequence of calls of any priorities; the budget's locale is \<open>call_budget\<close>.
  \<^item> \<open>Target\<close>, \<open>Grant\<close>, \<open>Config\<close>, \<open>ExecuteClass\<close> (files of these names): subjects and their one
    spelling, grants, the configuration profile, the classes of execute operations.
  \<^item> \<open>Catalog\<close>, \<open>Relax\<close> (\<open>catalog.rs\<close>): loading, checking and indexing the catalog; the relaxation
    of response schemas and the cache of compiled validators under concurrent callers.
  \<^item> \<open>Pagination\<close>, \<open>Request\<close>, \<open>Client\<close> (files of these names): cursors and their binding, the
    request and response contract, URL construction, the retry loop and the next-page cursor.
  \<^item> \<open>Wan\<close> (\<open>wan.rs\<close>, \<open>wan_write.rs\<close>): the collapsed tools' selectors, the write table, the patch
    refusals and the merge patch.
  \<^item> \<open>Similarity\<close> (\<open>similarity.rs\<close>): edit distance and suggestions for unknown operations. A slice off
    a character boundary panics; the suggestions are an option, and the read that asks for them
    answers with the constructor \<open>CallPanicked\<close> then.
  \<^item> \<open>Dispatch\<close>, \<open>Tools\<close>, \<open>Router\<close>, \<open>LocalTools\<close> (\<open>server/mod.rs\<close>): the handler, the checks and the
    dispatch of a read, every read tool, all tools as one datatype of calls, and the tools that
    answer from local data.
  \<^item> \<open>ChangeSet\<close>, \<open>Plan\<close>, \<open>Apply\<close> (\<open>change_set.rs\<close>, \<open>server/mod.rs\<close>): the change-set handlers as
    resumptions: a handler does one step (one call of the coordinator, the recorder, the clock or the
    client) on the shared world and says how it goes on. The world has what lies outside, the client and the trace
    of effects. \<open>run\<close> lets a handler go through without interruption.
  \<^item> \<open>Lifecycle\<close>, \<open>Lab\<close>: the change-set calls as one datatype, what each of their steps may do, the transition
    policy of the coordinator that the code relies on, and a concrete coordinator that has it, for the witnesses.
  \<^item> \<open>Server\<close>: any call of any tool as a resumption.
  \<^item> \<open>Concurrent\<close>: the server with any number of calls in progress, as an inductive step relation: a call
    arrives, takes its next step, or is dropped; each sees the site table of its arrival.
  \<^item> \<open>Approval\<close>: who planned and who approved what is written, under the approval policy of the coordinator.
  \<^item> \<open>Metered\<close>: the concurrent server over the HTTP client and its budget, with the refresh of the sites
    as another user of the client.
  \<^item> \<open>Pool\<close> (\<open>client.rs\<close>): overlapping calls of the HTTP client at their await points, the permits of its
    semaphore, and the sequential history they are equivalent to; this is why a call is one step elsewhere.
  \<^item> \<open>Construct\<close> (\<open>client.rs\<close>, \<open>server/mod.rs\<close>): the client trait with its default methods, the other
    constructors of the handler, the audited result.
  \<^item> \<open>Arguments\<close>, \<open>Wire\<close> (\<open>server/mod.rs\<close>): the argument structs of the tools as tables of fields, their
    reading and writing, and the router from names to calls; \<open>WireLab\<close> has the concrete calls of the witnesses.
  \<^item> \<open>CursorWire\<close> (\<open>pagination.rs\<close>, \<open>server/mod.rs\<close>): a cursor as the JSON document of its derived \<open>Serialize\<close>, the
    reading of such a document, and the hexadecimal text that a client passes back.
  \<^item> \<open>SiteDiscovery\<close> (\<open>site_discovery.rs\<close>, a part of \<open>main.rs\<close>), \<open>Preflight\<close> (\<open>http_transport.rs\<close>),
    \<open>Startup\<close> (\<open>main.rs\<close>): the site table, the scope preflight and the decisions at start.
  \<^item> \<open>Process\<close> (\<open>main.rs\<close>, \<open>http_transport.rs\<close>): the process from its arguments to its end, as a
    sequence of steps with a trace.
  \<^item> \<open>CommandLine\<close> (\<open>cli.rs\<close>): the server's own options with their defaults.
  \<^item> \<open>Signals\<close> (\<open>http_transport.rs\<close>, \<open>main.rs\<close>): the SIGHUP handlers and which of them a serving process has;
    what a stop signal does to a run, at any point of it.
  \<^item> \<open>UnitTests\<close>: unit tests of the crates as definitions that hold on the model.

  What the lemmas show. Reads: every request a read tool sends is a catalogued GET that the
  caller's scope and grant allow, of a configured organization, and privileged reads come only
  from restricted tools; it carries exactly the given arguments, and what the preflight let through covers it. A
  cursor comes back as it was issued. Writes: a plan never writes; an apply writes at most once, only a cleared
  change, with its evidence in order; a record is applied only if verified; however the steps of concurrent calls
  interleave, no change set is written twice, and outside lab mode each write has a planner and another approver. Every read is on an audit record. Budget: whatever runs
  at the same time, in no window do the calls at the standard priority that reach the network spend the human reserve; overlapping calls of the client stay within its
  permits, behave as a sequence of whole calls, and all end. Validation: the catalog is
  loaded, and a request or response is accepted, exactly when specifications written apart from the code hold: bounds,
  names, media, and what the compiled schemas admit, as long as the validator cache holds what compiling gives, which \<open>Relax\<close>
  shows of the cache. A merge patch is that of RFC 7386, except that nulls inside a member the object lacks are kept. Termination and bounds: the retry
  loop, the discovery of sites and the window counter are bounded whatever the service answers. Process: HTTP is
  served only with authentication and preflight or the explicit flag, and where a server is started, its return is followed by
  the shutdown; a run that a stop signal kills under stdio is a finding.

  Loops are structural recursions over the pages, retries or characters the source counts, so no fuel
  is needed. What lies outside the repository is a parameter: the shared \<open>mecmcp\<close> crates (the
  coordinator, evidence, redaction, authentication, transport), JSON Schema, the URL parser, SHA-256,
  hex, serde's text forms, the clock, the random source, the network, \<open>f64\<close> arithmetic and Unicode
  lowercasing. A change-set handler may be interrupted wherever it awaits; a read is one step of the client, as its
  result does not depend on what other calls do but through the client and the budget, and what other threads do
  to the validator cache meanwhile is a parameter there.

  Not modelled: log messages and the texts of audit failures; the routing of MCP messages by the
  \<open>rmcp\<close> crate; the asynchronous runtime; the tokenizer of the command line and the options of the shared crate; what
  the shared crates do with the configuration of the HTTP server; the cancellation token, whose effect is that the
  server ends; the tests of the handlers, the integration tests, scripts and packaging.
\<close>

end
